(* ===== verification/Prelude.thy ===== *)
theory Prelude
  imports
    Main
    "HOL-Library.Word"
    "HOL-Library.Sublist"
    "HOL-Library.AList"
begin

text \<open>
  What every component of the development shares: Go's 64-bit \<^verbatim>\<open>int\<close>, the HTTP status codes, the
  result of a function that returns \<^verbatim>\<open>(T, error)\<close>, and generic facts on lists. A non-nil error is \<open>Err e\<close>
  (\<open>Inl\<close>), otherwise the result is \<open>Ok v\<close> (\<open>Inr\<close>); the value beside an error is the zero value and is
  never used by the callers. The error values are in \<open>GoErrors\<close>.
\<close>

named_theorems go_defs \<open>definitions of straight-line operations, unfolded together\<close>
named_theorems err_simps \<open>how wrapped errors are recognised\<close>

section \<open>Go's int\<close>

text \<open>
  A Go \<^verbatim>\<open>int\<close> on a 64-bit platform is an \<open>int\<close> of the range below; arithmetic wraps.
\<close>

abbreviation max_int64 :: int where "max_int64 \<equiv> 9223372036854775807"

abbreviation min_int64 :: int where "min_int64 \<equiv> - 9223372036854775808"

definition in_int64 :: "int \<Rightarrow> bool" where
  "in_int64 x \<longleftrightarrow> min_int64 \<le> x \<and> x \<le> max_int64"

definition wrap64 :: "int \<Rightarrow> int" where
  "wrap64 x = sint (word_of_int x :: 64 word)"

lemma wrap64_mod: "wrap64 x = (x + 2 ^ 63) mod 2 ^ 64 - 2 ^ 63"
proof -
  have "sint (word_of_int x :: 64 word) = signed_take_bit 63 x"
    by (simp add: sint_uint take_bit_word_eq_self signed_take_bit_take_bit uint_word_of_int_eq)
  then show ?thesis
    by (simp add: wrap64_def signed_take_bit_eq_take_bit_shift take_bit_eq_mod)
qed

lemma wrap64_id [simp]: "in_int64 x \<Longrightarrow> wrap64 x = x"
  by (simp add: wrap64_mod in_int64_def)

lemma in_int64_wrap64 [simp, intro]: "in_int64 (wrap64 x)"
  unfolding wrap64_mod in_int64_def
  using pos_mod_bound [of "2 ^ 64" "x + 2 ^ 63"] pos_mod_sign [of "2 ^ 64" "x + 2 ^ 63"]
  by simp

section \<open>HTTP status codes\<close>

abbreviation StatusOK :: int where "StatusOK \<equiv> 200"
abbreviation StatusCreated :: int where "StatusCreated \<equiv> 201"
abbreviation StatusNoContent :: int where "StatusNoContent \<equiv> 204"
abbreviation StatusBadRequest :: int where "StatusBadRequest \<equiv> 400"
abbreviation StatusUnauthorized :: int where "StatusUnauthorized \<equiv> 401"
abbreviation StatusNotFound :: int where "StatusNotFound \<equiv> 404"
abbreviation StatusInternalServerError :: int where "StatusInternalServerError \<equiv> 500"

definition status_text :: "int \<Rightarrow> string" where
  "status_text c =
     (if c = StatusUnauthorized then ''Unauthorized''
      else if c = StatusInternalServerError then ''Internal Server Error''
      else if c = StatusNotFound then ''Not Found''
      else if c = StatusBadRequest then ''Bad Request''
      else [])"

text \<open>A list without two elements of the same key has one element with a key.\<close>

lemma find_distinct:
  "distinct (map f xs) \<Longrightarrow> x \<in> set xs \<Longrightarrow> f x = k \<Longrightarrow> find (\<lambda>y. f y = k) xs = Some x"
  by (induction xs) (auto simp: rev_image_eqI)

end
