(* ===== verification/GoStrings.thy ===== *)
theory GoStrings
  imports Prelude "HOL-Library.Char_ord"
begin

text \<open>
  The functions of the Go packages \<^verbatim>\<open>strings\<close>, \<^verbatim>\<open>strconv\<close>, \<^verbatim>\<open>unicode/utf8\<close> and \<^verbatim>\<open>path\<close> that the
  program calls. A Go string is a byte sequence, so it is a \<open>string\<close> (a list of bytes) here.
\<close>

section \<open>strings.Split and strings.Join\<close>

fun split_on :: "char \<Rightarrow> string \<Rightarrow> string list" where
  "split_on c [] = [[]]"
| "split_on c (x # xs) =
     (if x = c then [] # split_on c xs
      else (case split_on c xs of [] \<Rightarrow> [[x]] | y # ys \<Rightarrow> (x # y) # ys))"

fun join :: "string \<Rightarrow> string list \<Rightarrow> string" where
  "join sep [] = []"
| "join sep [x] = x"
| "join sep (x # y # ys) = x @ sep @ join sep (y # ys)"

text \<open>What lexical cleaning keeps of the elements of a rooted path: no empty, \<^verbatim>\<open>.\<close> or \<^verbatim>\<open>..\<close> element.\<close>

fun clean_elems :: "string list \<Rightarrow> string list \<Rightarrow> string list" where
  "clean_elems acc [] = rev acc"
| "clean_elems acc (e # es) =
     (if e = [] \<or> e = ''.'' then clean_elems acc es
      else if e = ''..'' then clean_elems (tl acc) es
      else clean_elems (e # acc) es)"

lemma split_on_nonempty [simp]: "split_on c s \<noteq> []"
  by (induction s) (auto split: list.splits)

lemma join_Cons: "ys \<noteq> [] \<Longrightarrow> join sep (x # ys) = x @ sep @ join sep ys"
  by (cases ys) auto

lemma join_split_on: "join [c] (split_on c s) = s"
proof (induction s)
  case Nil
  then show ?case by simp
next
  case (Cons a s)
  obtain y ys where ys: "split_on c s = y # ys"
    by (cases "split_on c s") auto
  show ?case
  proof (cases "a = c")
    case True
    then show ?thesis using Cons ys by (simp add: join_Cons)
  next
    case False
    then show ?thesis using Cons ys by (cases ys) auto
  qed
qed

lemma split_on_no_sep: "c \<notin> set x \<Longrightarrow> split_on c x = [x]"
  by (induction x) auto

lemma split_on_append_sep:
  "c \<notin> set x \<Longrightarrow> split_on c (x @ c # s) = x # split_on c s"
  by (induction x) auto

lemma split_on_join:
  assumes "xs \<noteq> []" and "\<forall>x \<in> set xs. c \<notin> set x"
  shows "split_on c (join [c] xs) = xs"
  using assms
proof (induction xs rule: induct_list012)
  case 1
  then show ?case by simp
next
  case (2 x)
  then show ?case by (simp add: split_on_no_sep)
next
  case (3 x y zs)
  then show ?case by (simp add: split_on_append_sep)
qed

lemma length_split_on: "length (split_on c s) = Suc (count_list s c)"
  by (induction s) (auto split: list.splits)

lemma split_on_elem_no_sep: "x \<in> set (split_on c s) \<Longrightarrow> c \<notin> set x"
  by (induction s arbitrary: x) (force split: if_splits list.splits)+

section \<open>strings.Trim, TrimSpace, TrimSuffix, HasPrefix, EqualFold\<close>

definition trim_set :: "char set \<Rightarrow> string \<Rightarrow> string" where
  "trim_set cs s = rev (dropWhile (\<lambda>c. c \<in> cs) (rev (dropWhile (\<lambda>c. c \<in> cs) s)))"

lemma dropWhile_hd_id: "s = [] \<or> \<not> P (hd s) \<Longrightarrow> dropWhile P s = s"
  by (cases s) auto

lemma trim_set_id:
  "s = [] \<or> (hd s \<notin> cs \<and> last s \<notin> cs) \<Longrightarrow> trim_set cs s = s"
  by (auto simp: trim_set_def dropWhile_hd_id hd_rev)

lemma trim_set_all: "set s \<subseteq> cs \<Longrightarrow> trim_set cs s = []"
  by (auto simp: trim_set_def dest: set_dropWhileD)

lemma trim_set_wrap:
  assumes "a \<in> cs" "b \<in> cs"
  shows "trim_set cs (a # s @ [b]) = trim_set cs s"
proof (cases "set s \<subseteq> cs")
  case True
  then have "set (a # s @ [b]) \<subseteq> cs" using assms by auto
  then show ?thesis using True by (simp only: trim_set_all)
next
  case False
  then have "\<exists>c\<in>set s. c \<notin> cs" by auto
  then show ?thesis using assms by (auto simp: trim_set_def dropWhile_append)
qed

text \<open>
  \<^verbatim>\<open>TrimSpace\<close> strips the code points of \<^verbatim>\<open>unicode.IsSpace\<close>; these are their UTF-8 encodings.
\<close>

definition space_seqs :: "string list" where
  "space_seqs =
     [[CHR 0x09], [CHR 0x0A], [CHR 0x0B], [CHR 0x0C], [CHR 0x0D], [CHR 0x20],
      [CHR 0xC2, CHR 0x85], [CHR 0xC2, CHR 0xA0], [CHR 0xE1, CHR 0x9A, CHR 0x80],
      [CHR 0xE2, CHR 0x80, CHR 0x80], [CHR 0xE2, CHR 0x80, CHR 0x81],
      [CHR 0xE2, CHR 0x80, CHR 0x82], [CHR 0xE2, CHR 0x80, CHR 0x83],
      [CHR 0xE2, CHR 0x80, CHR 0x84], [CHR 0xE2, CHR 0x80, CHR 0x85],
      [CHR 0xE2, CHR 0x80, CHR 0x86], [CHR 0xE2, CHR 0x80, CHR 0x87],
      [CHR 0xE2, CHR 0x80, CHR 0x88], [CHR 0xE2, CHR 0x80, CHR 0x89],
      [CHR 0xE2, CHR 0x80, CHR 0x8A], [CHR 0xE2, CHR 0x80, CHR 0xA8],
      [CHR 0xE2, CHR 0x80, CHR 0xA9], [CHR 0xE2, CHR 0x80, CHR 0xAF],
      [CHR 0xE2, CHR 0x81, CHR 0x9F], [CHR 0xE3, CHR 0x80, CHR 0x80]]"

fun strip_one :: "string list \<Rightarrow> string \<Rightarrow> string option" where
  "strip_one [] s = None"
| "strip_one (p # ps) s =
     (if take (length p) s = p then Some (drop (length p) s) else strip_one ps s)"

lemma strip_one_shorter:
  "strip_one ps s = Some t \<Longrightarrow> [] \<notin> set ps \<Longrightarrow> length t < length s"
proof (induction ps)
  case (Cons p ps)
  show ?case
  proof (cases "take (length p) s = p")
    case True
    with Cons.prems have "t = drop (length p) s" "p \<noteq> []" by auto
    moreover from True \<open>p \<noteq> []\<close> have "s \<noteq> []" by auto
    ultimately show ?thesis by (cases p) auto
  next
    case False
    with Cons show ?thesis by simp
  qed
qed simp

function strip_all :: "string list \<Rightarrow> string \<Rightarrow> string" where
  "strip_all ps s =
     (case strip_one ps s of
        None \<Rightarrow> s
      | Some t \<Rightarrow> if [] \<in> set ps then s else strip_all ps t)"
  by pat_completeness auto
termination
  by (relation "measure (\<lambda>(ps, s). length s)") (auto dest: strip_one_shorter)

declare strip_all.simps [simp del]

definition trim_space :: "string \<Rightarrow> string" where
  "trim_space s =
     rev (strip_all (map rev space_seqs) (rev (strip_all space_seqs s)))"

abbreviation has_prefix :: "string \<Rightarrow> string \<Rightarrow> bool" where
  "has_prefix s p \<equiv> take (length p) s = p"

text \<open>\<^verbatim>\<open>filepath.Base\<close>.\<close>

definition filepath_base :: "string \<Rightarrow> string" where
  "filepath_base p =
     (if p = [] then ''.''
      else let q = rev (dropWhile (\<lambda>c. c = CHR ''/'') (rev p))
           in if q = [] then ''/'' else last (split_on CHR ''/'' q))"

definition trim_suffix :: "string \<Rightarrow> string \<Rightarrow> string" where
  "trim_suffix s suf =
     (if length suf \<le> length s \<and> drop (length s - length suf) s = suf
      then take (length s - length suf) s else s)"

lemma trim_suffix_append [simp]: "trim_suffix (s @ suf) suf = s"
  by (simp add: trim_suffix_def)

lemma strip_all_id: "strip_one ps s = None \<Longrightarrow> strip_all ps s = s"
  by (subst strip_all.simps) simp

definition lower :: "char \<Rightarrow> char" where
  "lower c = (if CHR ''A'' \<le> c \<and> c \<le> CHR ''Z'' then char_of (of_char c + 32 :: nat) else c)"

text \<open>\<^verbatim>\<open>EqualFold\<close> against an ASCII string whose letters have no other simple fold.\<close>

definition equal_fold :: "string \<Rightarrow> string \<Rightarrow> bool" where
  "equal_fold s t \<longleftrightarrow> map lower s = map lower t"

section \<open>strconv.Atoi\<close>

text \<open>
  An optional sign, then one or more decimal digits (no underscores in base 10); a value
  outside the 64-bit range is an \<^verbatim>\<open>ErrRange\<close>, anything else an \<^verbatim>\<open>ErrSyntax\<close>.
\<close>

datatype num_error = ErrSyntax | ErrRange

definition is_digit :: "char \<Rightarrow> bool" where
  "is_digit c \<longleftrightarrow> 48 \<le> (of_char c :: nat) \<and> (of_char c :: nat) \<le> 57"

definition digit_val :: "char \<Rightarrow> int" where
  "digit_val c = int (of_char c) - 48"

fun digits_val :: "int \<Rightarrow> string \<Rightarrow> int" where
  "digits_val n [] = n"
| "digits_val n (c # cs) = digits_val (10 * n + digit_val c) cs"

definition parse_digits :: "string \<Rightarrow> num_error + int" where
  "parse_digits s = (if s \<noteq> [] \<and> list_all is_digit s then Inr (digits_val 0 s) else Inl ErrSyntax)"

definition atoi :: "string \<Rightarrow> num_error + int" where
  "atoi s =
     (let neg = (s \<noteq> [] \<and> hd s = CHR ''-'');
          body = (if s \<noteq> [] \<and> (hd s = CHR ''-'' \<or> hd s = CHR ''+'') then tl s else s)
      in case parse_digits body of
           Inl e \<Rightarrow> Inl e
         | Inr v \<Rightarrow> let n = (if neg then - v else v)
                    in if in_int64 n then Inr n else Inl ErrRange)"

fun num_error_msg :: "num_error \<Rightarrow> string \<Rightarrow> string" where
  "num_error_msg ErrSyntax s = ''strconv.Atoi: parsing '' @ [CHR 34] @ s @ [CHR 34] @ '': invalid syntax''"
| "num_error_msg ErrRange s = ''strconv.Atoi: parsing '' @ [CHR 34] @ s @ [CHR 34] @ '': value out of range''"

lemma atoi_in_int64: "atoi s = Inr n \<Longrightarrow> in_int64 n"
  by (auto simp: atoi_def Let_def split: sum.splits if_splits)

text \<open>\<^verbatim>\<open>fmt.Sprintf("%d", n)\<close> and its inverse.\<close>

function digits_of :: "nat \<Rightarrow> string" where
  "digits_of n = (if n < 10 then [char_of (48 + n)] else digits_of (n div 10) @ [char_of (48 + n mod 10)])"
  by pat_completeness auto
termination
  by (relation "measure id") auto

declare digits_of.simps [simp del]

definition itoa :: "int \<Rightarrow> string" where
  "itoa n = (if n < 0 then CHR ''-'' # digits_of (nat (- n)) else digits_of (nat n))"

lemma digits_val_append: "digits_val n (xs @ ys) = digits_val (digits_val n xs) ys"
  by (induction xs arbitrary: n) auto

lemma of_char_digit: "d < 10 \<Longrightarrow> (of_char (char_of (48 + d) :: char) :: nat) = 48 + d"
  by simp

lemma is_digit_char_of [simp]: "d < (10::nat) \<Longrightarrow> is_digit (char_of (48 + d))"
  by (simp add: is_digit_def)

lemma digits_of_nonempty [simp]: "digits_of n \<noteq> []"
  by (subst digits_of.simps) simp

lemma digits_of_digits: "list_all is_digit (digits_of n)"
proof (induction n rule: digits_of.induct)
  case (1 n)
  then show ?case
    by (subst digits_of.simps) simp
qed

lemma digits_val_digits_of: "digits_val 0 (digits_of n) = int n"
proof (induction n rule: digits_of.induct)
  case (1 n)
  then show ?case
    by (subst digits_of.simps)
      (simp add: digits_val_append digit_val_def zdiv_int zmod_int)
qed

lemma hd_digits_of: "is_digit (hd (digits_of n))"
  using digits_of_digits [of n] digits_of_nonempty [of n]
  by (cases "digits_of n") auto

lemma sign_not_digit [simp]: "\<not> is_digit CHR ''-''" "\<not> is_digit CHR ''+''"
  by (auto simp: is_digit_def)

lemma atoi_itoa: "in_int64 n \<Longrightarrow> atoi (itoa n) = Inr n"
proof -
  assume n: "in_int64 n"
  have neq: "hd (digits_of m) \<noteq> CHR ''-''" "hd (digits_of m) \<noteq> CHR ''+''" for m
    using hd_digits_of [of m] sign_not_digit by metis+
  show ?thesis
    using n neq digits_of_digits
    by (auto simp: atoi_def itoa_def parse_digits_def digits_val_digits_of Let_def)
qed

section \<open>unicode/utf8\<close>

text \<open>
  The width of the first rune of a byte string, as \<^verbatim>\<open>utf8.DecodeRune\<close> reports it: an invalid
  encoding has width 1. \<^verbatim>\<open>utf8.RuneCountInString\<close> counts the runes.
\<close>

abbreviation byte_of :: "char \<Rightarrow> nat" where "byte_of c \<equiv> of_char c"

definition cont_ok :: "nat \<Rightarrow> nat \<Rightarrow> string \<Rightarrow> nat \<Rightarrow> bool" where
  "cont_ok lo hi s i \<longleftrightarrow> i < length s \<and> lo \<le> byte_of (s ! i) \<and> byte_of (s ! i) \<le> hi"

definition rune_len :: "string \<Rightarrow> nat" where
  "rune_len s =
     (let b = byte_of (hd s); c = cont_ok 128 191 s in
      if 194 \<le> b \<and> b \<le> 223 \<and> c 1 then 2
      else if 224 \<le> b \<and> b \<le> 239 \<and> c 2 \<and>
        (if b = 224 then cont_ok 160 191 s 1 else if b = 237 then cont_ok 128 159 s 1 else c 1) then 3
      else if 240 \<le> b \<and> b \<le> 244 \<and> c 2 \<and> c 3 \<and>
        (if b = 240 then cont_ok 144 191 s 1 else if b = 244 then cont_ok 128 143 s 1 else c 1) then 4
      else 1)"

lemma rune_len_pos [simp]: "0 < rune_len s"
  by (simp add: rune_len_def Let_def)

function rune_count :: "string \<Rightarrow> nat" where
  "rune_count s = (if s = [] then 0 else Suc (rune_count (drop (rune_len s) s)))"
  by pat_completeness auto
termination
  by (relation "measure length") auto

declare rune_count.simps [simp del]

lemma rune_len_ascii [simp]: "byte_of c < 128 \<Longrightarrow> rune_len (c # cs) = 1"
  by (simp add: rune_len_def Let_def)

lemma rune_count_Nil [simp]: "rune_count [] = 0"
  by (subst rune_count.simps) simp

lemma rune_count_ascii_Cons [simp]: "byte_of c < 128 \<Longrightarrow> rune_count (c # cs) = Suc (rune_count cs)"
  by (subst rune_count.simps) simp

lemma rune_count_le_length: "rune_count s \<le> length s"
proof (induction s rule: rune_count.induct)
  case (1 s)
  show ?case
  proof (cases "s = []")
    case False
    then have "rune_count (drop (rune_len s) s) \<le> length s - rune_len s"
      using 1 by simp
    moreover have "length s - rune_len s < length s" using False by simp
    ultimately have "rune_count (drop (rune_len s) s) < length s" by linarith
    then show ?thesis using False by (subst rune_count.simps) simp
  qed simp
qed

lemma rune_count_ascii: "\<forall>c\<in>set s. byte_of c < 128 \<Longrightarrow> rune_count s = length s"
  by (induction s) auto

end
