(* ===== verification/GoErrors.thy ===== *)
theory GoErrors
  imports GoStrings
begin

text \<open>
  The error values of the program. A sentinel (\<^verbatim>\<open>var ErrX = errors.New\<close>) is a constructor of
  its own, since \<^verbatim>\<open>errors.Is\<close> compares sentinels by identity; \<^verbatim>\<open>fmt.Errorf("p: %w", e)\<close> is
  \<open>ErrWrap\<close>; an error made of text only is \<open>ErrPlain\<close>. The typed errors the program looks
  for with \<^verbatim>\<open>errors.As\<close> are \<^verbatim>\<open>*pgconn.PgError\<close> (\<open>ErrPg\<close>), \<^verbatim>\<open>*errs.Error\<close> (\<open>ErrApp\<close>) and
  \<^verbatim>\<open>validator.ValidationErrors\<close> (\<open>ErrValidation\<close>); \<^verbatim>\<open>*jwt.ValidationError\<close> is \<open>ErrJwt\<close> with its
  bit set, its inner error and its text.
\<close>

section \<open>The application error (internal/errs/errs.go)\<close>

text \<open>
  \<open>er_func\<close> and \<open>er_file\<close> are what \<^verbatim>\<open>runtime.Caller(1)\<close> reports of the caller of \<^verbatim>\<open>New\<close>; the
  call site is an argument of the model of \<^verbatim>\<open>New\<close>.
\<close>

record app_error =
  er_code :: int
  er_message :: string
  er_func :: string
  er_file :: string
  er_fields :: "(string \<times> string) list"

record field_error =
  fe_ns :: string
  fe_field :: string
  fe_tag :: string
  fe_param :: string

datatype go_err =
    ErrDuplicatedEmail
  | ErrUserNotFound
  | ErrForbidden
  | ErrKIDMissing
  | ErrKIDMalformed
  | ErrUserDisabled
  | ErrInvalidToken
  | ErrKeyNotFound
  | ErrPlain string
  | ErrWrap string go_err
  | ErrPg string string
  | ErrJwt "32 word" "go_err option" string
  | ErrApp app_error
  | ErrValidation "field_error list"

type_synonym 'a res = "go_err + 'a"

abbreviation Ok :: "'a \<Rightarrow> 'a res" where "Ok \<equiv> Inr"

abbreviation Err :: "go_err \<Rightarrow> 'a res" where "Err \<equiv> Inl"

type_synonym call_site = "string \<times> string"

definition errs_new :: "call_site \<Rightarrow> int \<Rightarrow> string \<Rightarrow> go_err" where
  "errs_new caller code msg = ErrApp
     \<lparr>er_code = code, er_message = msg, er_func = fst caller, er_file = snd caller,
      er_fields = []\<rparr>"

section \<open>Messages\<close>

definition fe_text :: "field_error \<Rightarrow> string" where
  "fe_text e = ''Key: '' @ [CHR 39] @ fe_ns e @ [CHR 39] @ '' Error:Field validation for ''
     @ [CHR 39] @ fe_field e @ [CHR 39] @ '' failed on the '' @ [CHR 39] @ fe_tag e
     @ [CHR 39] @ '' tag''"

fun err_msg :: "go_err \<Rightarrow> string" where
  "err_msg ErrDuplicatedEmail = ''email already in use''"
| "err_msg ErrUserNotFound = ''user not found''"
| "err_msg ErrForbidden = ''attempted action is not allowed''"
| "err_msg ErrKIDMissing = ''kid missing from token header''"
| "err_msg ErrKIDMalformed = ''kid in token header is malformed''"
| "err_msg ErrUserDisabled = ''user is disabled''"
| "err_msg ErrInvalidToken = ''invalid token''"
| "err_msg ErrKeyNotFound = ''key not found''"
| "err_msg (ErrPlain s) = s"
| "err_msg (ErrWrap p e) = p @ '': '' @ err_msg e"
| "err_msg (ErrPg code m) = ''ERROR: '' @ m @ '' (SQLSTATE '' @ code @ '')''"
| "err_msg (ErrJwt fl None t) = (if t \<noteq> [] then t else ''token is invalid'')"
| "err_msg (ErrJwt fl (Some e) t) = err_msg e"
| "err_msg (ErrApp a) = er_message a"
| "err_msg (ErrValidation es) = trim_space (concat (map (\<lambda>e. fe_text e @ [CHR 0x0A]) es))"

section \<open>errors.Is and errors.As\<close>

fun unwrap :: "go_err \<Rightarrow> go_err option" where
  "unwrap (ErrWrap p e) = Some e"
| "unwrap (ErrJwt fl i t) = i"
| "unwrap e = None"

fun err_chain :: "go_err \<Rightarrow> go_err list" where
  "err_chain (ErrWrap p e) = ErrWrap p e # err_chain e"
| "err_chain (ErrJwt fl (Some e) t) = ErrJwt fl (Some e) t # err_chain e"
| "err_chain e = [e]"

definition err_is :: "go_err \<Rightarrow> go_err \<Rightarrow> bool" where
  "err_is e target \<longleftrightarrow> target \<in> set (err_chain e)"

text \<open>\<^verbatim>\<open>errors.As\<close> takes the first error of the chain that has the wanted type.\<close>

fun first_some :: "('a \<Rightarrow> 'b option) \<Rightarrow> 'a list \<Rightarrow> 'b option" where
  "first_some f [] = None"
| "first_some f (x # xs) = (case f x of Some y \<Rightarrow> Some y | None \<Rightarrow> first_some f xs)"

fun pg_of :: "go_err \<Rightarrow> (string \<times> string) option" where
  "pg_of (ErrPg c m) = Some (c, m)"
| "pg_of e = None"

fun app_of :: "go_err \<Rightarrow> app_error option" where
  "app_of (ErrApp a) = Some a"
| "app_of e = None"

fun validation_of :: "go_err \<Rightarrow> field_error list option" where
  "validation_of (ErrValidation es) = Some es"
| "validation_of e = None"

definition as_pg :: "go_err \<Rightarrow> (string \<times> string) option" where
  "as_pg e = first_some pg_of (err_chain e)"

definition as_app :: "go_err \<Rightarrow> app_error option" where
  "as_app e = first_some app_of (err_chain e)"

definition as_validation :: "go_err \<Rightarrow> field_error list option" where
  "as_validation e = first_some validation_of (err_chain e)"

lemma err_chain_unwrap:
  "err_chain e = e # (case unwrap e of None \<Rightarrow> [] | Some e' \<Rightarrow> err_chain e')"
  by (cases e rule: err_chain.cases) auto

text \<open>Wrapping is transparent: the facts that every error path of the program relies on.\<close>

lemma err_is_wrap [err_simps, simp]:
  "(\<And>q f. t \<noteq> ErrWrap q f) \<Longrightarrow> err_is (ErrWrap p e) t = err_is e t"
  by (auto simp: err_is_def)

lemma err_is_refl [simp]: "err_is e e"
  unfolding err_is_def by (subst err_chain_unwrap) simp

lemma err_is_leaf [err_simps, simp]:
  "err_is ErrDuplicatedEmail t = (t = ErrDuplicatedEmail)"
  "err_is ErrUserNotFound t = (t = ErrUserNotFound)"
  "err_is (ErrPlain s) t = (t = ErrPlain s)"
  "err_is (ErrPg c m) t = (t = ErrPg c m)"
  "err_is (ErrApp a) t = (t = ErrApp a)"
  by (auto simp: err_is_def)

lemma as_wrap [err_simps, simp]:
  "as_pg (ErrWrap p e) = as_pg e"
  "as_app (ErrWrap p e) = as_app e"
  "as_validation (ErrWrap p e) = as_validation e"
  by (simp_all add: as_pg_def as_app_def as_validation_def)

lemma as_leaf [err_simps, simp]:
  "as_pg (ErrPg c m) = Some (c, m)"
  "as_pg (ErrPlain s) = None"
  "as_pg ErrDuplicatedEmail = None"
  "as_pg ErrUserNotFound = None"
  "as_app (ErrApp a) = Some a"
  "as_app (ErrPlain s) = None"
  "as_app (ErrValidation es) = None"
  "as_validation (ErrValidation es) = Some es"
  "as_validation (ErrPlain s) = None"
  "as_app (errs_new site n m) = Some \<lparr>er_code = n, er_message = m, er_func = fst site,
     er_file = snd site, er_fields = []\<rparr>"
  by (simp_all add: as_pg_def as_app_def as_validation_def errs_new_def)

end
