(* ===== verification/Gin.thy ===== *)
theory Gin
  imports GoErrors
begin

text \<open>
  What the program uses of the vendored \<^verbatim>\<open>github.com/gin-gonic/gin\<close>: the request context with its
  errors, keys and response writer, and the chain of handlers that \<^verbatim>\<open>Context.Next\<close> runs by index
  (\<^verbatim>\<open>context.go\<close>, \<^verbatim>\<open>response_writer.go\<close>, \<^verbatim>\<open>gin.go\<close>). A response body is the list of the values
  written to it, since every writer of the program writes JSON.
\<close>

section \<open>JSON values, requests and contexts\<close>

text \<open>A number keeps its literal; an object keeps the order of its members.\<close>

datatype json =
    JNull
  | JBool bool
  | JNum string
  | JStr string
  | JArr "json list"
  | JObj "(string \<times> json) list"

text \<open>
  \<open>rq_body\<close> is what the JSON decoder reads from the body: its error, or a value. \<open>rq_trace\<close> is the
  trace id that the request's context carries.
\<close>

record request =
  rq_method :: string
  rq_path :: string
  rq_raw_query :: string
  rq_query :: "(string \<times> string list) list"
  rq_headers :: "(string \<times> string) list"
  rq_body :: "json res"
  rq_remote :: string
  rq_host :: string
  rq_url :: string
  rq_trace :: "string option"

definition header_get :: "request \<Rightarrow> string \<Rightarrow> string" where
  "header_get r k = (case map_of (rq_headers r) k of Some v \<Rightarrow> v | None \<Rightarrow> [])"

record 'v gin_ctx =
  gx_request :: request
  gx_params :: "(string \<times> string) list"
  gx_full_path :: string
  gx_index :: int
  gx_keys :: "string \<rightharpoonup> 'v"
  gx_errors :: "go_err list"
  gx_status :: int
  gx_written :: bool
  gx_sent :: "int option"
  gx_body :: "json list"

definition new_ctx :: "request \<Rightarrow> (string \<times> string) list \<Rightarrow> string \<Rightarrow> 'v gin_ctx" where
  "new_ctx r params path =
     \<lparr>gx_request = r, gx_params = params, gx_full_path = path, gx_index = - 1, gx_keys = Map.empty,
      gx_errors = [], gx_status = StatusOK, gx_written = False, gx_sent = None, gx_body = []\<rparr>"

section \<open>The operations of the context\<close>

definition gin_error :: "go_err \<Rightarrow> 'v gin_ctx \<Rightarrow> 'v gin_ctx" where
  "gin_error e c = c\<lparr>gx_errors := gx_errors c @ [e]\<rparr>"

definition gin_set :: "string \<Rightarrow> 'v \<Rightarrow> 'v gin_ctx \<Rightarrow> 'v gin_ctx" where
  "gin_set k v c = c\<lparr>gx_keys := (gx_keys c)(k \<mapsto> v)\<rparr>"

definition gin_get :: "string \<Rightarrow> 'v gin_ctx \<Rightarrow> 'v option" where
  "gin_get k c = gx_keys c k"

definition gin_param :: "string \<Rightarrow> 'v gin_ctx \<Rightarrow> string" where
  "gin_param k c = (case map_of (gx_params c) k of Some v \<Rightarrow> v | None \<Rightarrow> [])"

definition gin_query :: "string \<Rightarrow> 'v gin_ctx \<Rightarrow> string" where
  "gin_query k c =
     (case map_of (rq_query (gx_request c)) k of Some (v # vs) \<Rightarrow> v | _ \<Rightarrow> [])"

definition abort_index :: int where "abort_index = 63"

definition gin_abort :: "'v gin_ctx \<Rightarrow> 'v gin_ctx" where
  "gin_abort c = c\<lparr>gx_index := abort_index\<rparr>"

definition write_header :: "int \<Rightarrow> 'v gin_ctx \<Rightarrow> 'v gin_ctx" where
  "write_header code c =
     (if code > 0 \<and> gx_status c \<noteq> code
      then if gx_written c then c else c\<lparr>gx_status := code\<rparr>
      else c)"

definition write_header_now :: "'v gin_ctx \<Rightarrow> 'v gin_ctx" where
  "write_header_now c =
     (if gx_written c then c else c\<lparr>gx_written := True, gx_sent := Some (gx_status c)\<rparr>)"

definition write_body :: "json \<Rightarrow> 'v gin_ctx \<Rightarrow> 'v gin_ctx" where
  "write_body j c = (let c = write_header_now c in c\<lparr>gx_body := gx_body c @ [j]\<rparr>)"

definition body_allowed :: "int \<Rightarrow> bool" where
  "body_allowed status \<longleftrightarrow>
     \<not> (100 \<le> status \<and> status \<le> 199) \<and> status \<noteq> StatusNoContent \<and> status \<noteq> 304"

definition gin_status :: "int \<Rightarrow> 'v gin_ctx \<Rightarrow> 'v gin_ctx" where
  "gin_status code c = write_header code c"

definition gin_json :: "int \<Rightarrow> json \<Rightarrow> 'v gin_ctx \<Rightarrow> 'v gin_ctx" where
  "gin_json code j c =
     (let c = gin_status code c
      in if \<not> body_allowed code then write_header_now c else write_body j c)"

definition gin_H :: "string \<Rightarrow> json" where
  "gin_H msg = JObj [(''error'', JStr msg)]"

section \<open>The chain of handlers\<close>

text \<open>
  A handler runs on the context and the state of the application; it may panic, with a string or with
  a runtime error. It gets \<^verbatim>\<open>c.Next\<close> as
  its first argument. \<open>Exhausted\<close> is the outcome of a chain that used up its fuel.
\<close>

datatype panic_val = PString string | PRuntime string

datatype 'st outcome = Done 'st | Panicked panic_val 'st | Exhausted

type_synonym ('v, 'g) gin_st = "'v gin_ctx \<times> 'g"

type_synonym ('v, 'g) handler =
  "(('v, 'g) gin_st \<Rightarrow> ('v, 'g) gin_st outcome) \<Rightarrow> ('v, 'g) gin_st \<Rightarrow> ('v, 'g) gin_st outcome"

text \<open>What comes after \<^verbatim>\<open>c.Next()\<close>, and what is deferred and so runs after a panic too.\<close>

fun and_then :: "'st outcome \<Rightarrow> ('st \<Rightarrow> 'st outcome) \<Rightarrow> 'st outcome" where
  "and_then (Done s) f = f s"
| "and_then (Panicked m s) f = Panicked m s"
| "and_then Exhausted f = Exhausted"

fun defer_then :: "'st outcome \<Rightarrow> ('st \<Rightarrow> 'st) \<Rightarrow> ('st \<Rightarrow> 'st) \<Rightarrow> 'st outcome" where
  "defer_then (Done s) f d = Done (f s)"
| "defer_then (Panicked m s) f d = Panicked m (d s)"
| "defer_then Exhausted f d = Exhausted"

definition step_index :: "('v, 'g) gin_st \<Rightarrow> ('v, 'g) gin_st" where
  "step_index s = ((fst s)\<lparr>gx_index := gx_index (fst s) + 1\<rparr>, snd s)"

fun next_loop ::
  "nat \<Rightarrow> ('v, 'g) handler list \<Rightarrow> ('v, 'g) gin_st \<Rightarrow> ('v, 'g) gin_st outcome" where
  "next_loop 0 hs s = Exhausted"
| "next_loop (Suc n) hs s =
     (if gx_index (fst s) < int (length hs)
      then and_then
             ((hs ! nat (gx_index (fst s))) (\<lambda>t. next_loop n hs (step_index t)) s)
             (\<lambda>t. next_loop n hs (step_index t))
      else Done s)"

definition gin_next ::
  "nat \<Rightarrow> ('v, 'g) handler list \<Rightarrow> ('v, 'g) gin_st \<Rightarrow> ('v, 'g) gin_st outcome" where
  "gin_next n hs s = next_loop n hs (step_index s)"

text \<open>A request whose route has been found (\<^verbatim>\<open>handleHTTPRequest\<close>).\<close>

definition serve ::
  "('v, 'g) handler list \<Rightarrow> ('v, 'g) gin_st \<Rightarrow> ('v, 'g) gin_st outcome" where
  "serve hs s =
     and_then (gin_next (Suc (length hs)) hs s) (\<lambda>t. Done (write_header_now (fst t), snd t))"

text \<open>A request without a route (\<^verbatim>\<open>serveError\<close>): the global middleware runs all the same.\<close>

definition serve_not_found ::
  "('v, 'g) handler list \<Rightarrow> ('v, 'g) gin_st \<Rightarrow> ('v, 'g) gin_st outcome" where
  "serve_not_found hs s =
     and_then (gin_next (Suc (length hs)) hs ((fst s)\<lparr>gx_status := StatusNotFound\<rparr>, snd s))
       (\<lambda>t. Done
          (if gx_written (fst t) then t
           else if gx_status (fst t) = StatusNotFound
           then (write_body (JStr ''404 page not found'') (fst t), snd t)
           else (write_header_now (fst t), snd t)))"

section \<open>Facts on the response\<close>

lemma write_simps [simp]:
  "gx_index (gin_error e c) = gx_index c" "gx_index (gin_set k v c) = gx_index c"
  "gx_index (write_header n c) = gx_index c" "gx_index (write_header_now c) = gx_index c"
  "gx_index (gin_json n j c) = gx_index c" "gx_index (gin_abort c) = 63"
  "gx_index (gin_status n c) = gx_index c"
  "gx_written (write_header n c) = gx_written c" "gx_written (write_header_now c)"
  "gx_written (gin_json n j c)" "gx_written (gin_error e c) = gx_written c"
  "gx_written (gin_set k v c) = gx_written c" "gx_written (gin_abort c) = gx_written c"
  "gx_errors (write_header n c) = gx_errors c" "gx_errors (write_header_now c) = gx_errors c"
  "gx_errors (gin_json n j c) = gx_errors c" "gx_errors (gin_error e c) = gx_errors c @ [e]"
  "gx_errors (gin_abort c) = gx_errors c" "gx_errors (gin_set k v c) = gx_errors c"
  "gx_body (gin_error e c) = gx_body c" "gx_body (gin_abort c) = gx_body c"
  "gx_body (write_header n c) = gx_body c" "gx_body (write_header_now c) = gx_body c"
  "gx_body (gin_status n c) = gx_body c"
  "gx_keys (gin_error e c) = gx_keys c" "gx_keys (gin_json n j c) = gx_keys c"
  "gx_keys (gin_abort c) = gx_keys c" "gx_request (gin_error e c) = gx_request c"
  "gx_request (gin_json n j c) = gx_request c" "gx_request (gin_set k v c) = gx_request c"
  "gx_params (gin_error e c) = gx_params c" "gx_params (gin_json n j c) = gx_params c"
  "gx_params (gin_set k v c) = gx_params c"
  "gx_sent (gin_error e c) = gx_sent c" "gx_sent (gin_abort c) = gx_sent c"
  "gx_status (gin_error e c) = gx_status c" "gx_status (gin_abort c) = gx_status c"
  by (simp_all add: gin_error_def gin_set_def write_header_def write_header_now_def gin_json_def
      gin_status_def write_body_def gin_abort_def abort_index_def Let_def)

text \<open>
  The writer invariant: the status line is sent exactly when something is written, and a written
  status never changes.
\<close>

definition writer_ok :: "'v gin_ctx \<Rightarrow> bool" where
  "writer_ok c \<longleftrightarrow> (gx_sent c = (if gx_written c then Some (gx_status c) else None)) \<and>
     (\<not> gx_written c \<longrightarrow> gx_body c = [])"

lemma writer_ok_new [simp]: "writer_ok (new_ctx r p f)"
  by (simp add: writer_ok_def new_ctx_def)

lemma writer_ok_ops [simp]:
  "writer_ok c \<Longrightarrow> writer_ok (gin_error e c)" "writer_ok c \<Longrightarrow> writer_ok (gin_set k v c)"
  "writer_ok c \<Longrightarrow> writer_ok (gin_abort c)" "writer_ok c \<Longrightarrow> writer_ok (write_header n c)"
  "writer_ok c \<Longrightarrow> writer_ok (write_header_now c)" "writer_ok c \<Longrightarrow> writer_ok (gin_json n j c)"
  by (auto simp: writer_ok_def gin_error_def gin_set_def gin_abort_def write_header_def
      write_header_now_def gin_json_def gin_status_def write_body_def Let_def)

lemma gin_json_fresh:
  "\<not> gx_written c \<Longrightarrow> n > 0 \<Longrightarrow> body_allowed n \<Longrightarrow>
     gin_json n j c = c\<lparr>gx_status := n, gx_written := True, gx_sent := Some n, gx_body := gx_body c @ [j]\<rparr>"
  by (simp add: gin_json_def gin_status_def write_header_def write_body_def write_header_now_def Let_def)

lemma gin_json_late:
  "gx_written c \<Longrightarrow> body_allowed n \<Longrightarrow> gin_json n j c = c\<lparr>gx_body := gx_body c @ [j]\<rparr>"
  by (simp add: gin_json_def gin_status_def write_header_def write_body_def write_header_now_def Let_def)

lemma body_allowed_simps [simp]:
  "body_allowed StatusOK" "body_allowed StatusCreated" "body_allowed StatusBadRequest"
  "body_allowed StatusUnauthorized" "body_allowed StatusNotFound" "body_allowed StatusInternalServerError"
  "\<not> body_allowed StatusNoContent"
  by (simp_all add: body_allowed_def)

section \<open>Fuel: a chain of steady handlers ends\<close>

text \<open>
  A handler is steady when it does not move the index back except to the abort index. All of the
  program's are. Then one unit of fuel for each handler and one more are enough.
\<close>

definition advances :: "('v, 'g) gin_st \<Rightarrow> ('v, 'g) gin_st outcome \<Rightarrow> bool" where
  "advances s r \<longleftrightarrow>
     (case r of
        Done t \<Rightarrow> min abort_index (gx_index (fst s)) \<le> gx_index (fst t)
      | Panicked m t \<Rightarrow> min abort_index (gx_index (fst s)) \<le> gx_index (fst t)
      | Exhausted \<Rightarrow> False)"

definition steady :: "('v, 'g) handler \<Rightarrow> bool" where
  "steady h \<longleftrightarrow>
     (\<forall>nx s. (\<forall>t. min abort_index (gx_index (fst s)) \<le> gx_index (fst t) \<longrightarrow> advances t (nx t)) \<longrightarrow>
        advances s (h nx s))"

lemma advances_simps [simp]:
  "advances s (Done t) \<longleftrightarrow> min abort_index (gx_index (fst s)) \<le> gx_index (fst t)"
  "advances s (Panicked m t) \<longleftrightarrow> min abort_index (gx_index (fst s)) \<le> gx_index (fst t)"
  "\<not> advances s Exhausted"
  by (simp_all add: advances_def)

lemma steadyD:
  "steady h \<Longrightarrow>
     (\<And>t. min abort_index (gx_index (fst s)) \<le> gx_index (fst t) \<Longrightarrow> advances t (nx t)) \<Longrightarrow>
     advances s (h nx s)"
  unfolding steady_def by iprover

lemma next_loop_advances:
  assumes "length hs < 63" "\<forall>h \<in> set hs. steady h"
  shows "0 \<le> gx_index (fst s) \<Longrightarrow> nat (int (length hs) - gx_index (fst s)) < n \<Longrightarrow>
    advances s (next_loop n hs s)"
proof (induction n arbitrary: s)
  case (Suc n)
  let ?i = "gx_index (fst s)"
  show ?case
  proof (cases "?i < int (length hs)")
    case True
    have later: "advances t (next_loop n hs (step_index t))"
      if "min abort_index ?i \<le> gx_index (fst t)" for t
    proof -
      have "?i \<le> gx_index (fst t)" using that True assms(1) by (simp add: abort_index_def)
      then have "advances (step_index t) (next_loop n hs (step_index t))"
        using Suc True by (intro Suc.IH) (simp_all add: step_index_def)
      then show ?thesis
        by (cases "next_loop n hs (step_index t)") (simp_all add: step_index_def abort_index_def)
    qed
    have st: "steady (hs ! nat ?i)" using assms(2) True Suc.prems by (simp add: nat_less_iff)
    have adv: "advances s ((hs ! nat ?i) (\<lambda>t. next_loop n hs (step_index t)) s)"
      by (rule steadyD [OF st]) (rule later)
    show ?thesis
    proof (cases "(hs ! nat ?i) (\<lambda>t. next_loop n hs (step_index t)) s")
      case (Done t)
      then have "advances t (next_loop n hs (step_index t))" "min abort_index ?i \<le> gx_index (fst t)"
        using adv later [of t] by simp_all
      then show ?thesis
        using Done True by (cases "next_loop n hs (step_index t)") (simp_all add: abort_index_def)
    qed (use adv True in simp_all)
  qed simp
qed simp

lemma serve_total:
  assumes "length hs < 63" "\<forall>h \<in> set hs. steady h"
  shows "serve hs (new_ctx r p f, g) \<noteq> Exhausted"
proof -
  have "advances (step_index (new_ctx r p f, g)) (next_loop (Suc (length hs)) hs (step_index (new_ctx r p f, g)))"
    by (rule next_loop_advances [OF assms]) (simp_all add: step_index_def new_ctx_def)
  then show ?thesis
    by (cases "next_loop (Suc (length hs)) hs (step_index (new_ctx r p f, g))")
      (simp_all add: serve_def gin_next_def)
qed

end
