(* ===== verification/RadixTree.thy ===== *)
theory RadixTree
  imports GoStrings
begin

text \<open>
  The radix tree of the vendored \<^verbatim>\<open>github.com/gin-gonic/gin\<close> (\<^verbatim>\<open>tree.go\<close>), with which the engine keeps
  the routes of a method and searches them: \<^verbatim>\<open>addRoute\<close>, which splits edges and inserts wildcards, and
  \<^verbatim>\<open>getValue\<close>, which walks down and goes back to the nodes where it has preferred a literal to a
  parameter. A pointer that moves down a tree is a recursion that rebuilds the path above it; a panic is
  the left of a sum. \<open>'h\<close> is the chain of handlers, and \<open>None\<close> the chain that is nil.
\<close>

section \<open>Nodes\<close>

datatype node_type = NStatic | NRoot | NParam | NCatchAll

datatype 'h node =
  Node (nd_path: string) (nd_indices: string) (nd_wild: bool) (nd_type: node_type) (nd_prio: nat)
    (nd_children: "'h node list") (nd_handlers: "'h option") (nd_full: string)

fun inc_prio :: "'h node \<Rightarrow> 'h node" where
  "inc_prio (Node pa ix wi ty pr cs hs fu) = Node pa ix wi ty (Suc pr) cs hs fu"

fun set_children :: "'h node list \<Rightarrow> 'h node \<Rightarrow> 'h node" where
  "set_children cs (Node pa ix wi ty pr _ hs fu) = Node pa ix wi ty pr cs hs fu"

fun lcp_len :: "string \<Rightarrow> string \<Rightarrow> nat" where
  "lcp_len (x # xs) (y # ys) = (if x = y then Suc (lcp_len xs ys) else 0)"
| "lcp_len _ _ = 0"

text \<open>The wildcard child, if there is one, stays at the end.\<close>

definition add_child :: "'h node \<Rightarrow> 'h node \<Rightarrow> 'h node" where
  "add_child n child =
     (let cs = nd_children n in
      if nd_wild n \<and> cs \<noteq> [] then set_children (butlast cs @ [child, last cs]) n
      else set_children (cs @ [child]) n)"

text \<open>The child at \<open>pos\<close> moves to the front, past those of a smaller priority; the result has its new place.\<close>

fun move_front :: "nat \<Rightarrow> 'h node list \<Rightarrow> nat \<Rightarrow> 'h node list \<times> nat" where
  "move_front prio cs 0 = (cs, 0)"
| "move_front prio cs (Suc k) =
     (if nd_prio (cs ! k) < prio then move_front prio (cs[k := cs ! Suc k, Suc k := cs ! k]) k
      else (cs, Suc k))"

fun increment_child_prio :: "'h node \<Rightarrow> nat \<Rightarrow> 'h node \<times> nat" where
  "increment_child_prio (Node pa ix wi ty pr cs hs fu) pos =
     (let child = inc_prio (cs ! pos);
          (cs, new_pos) = move_front (nd_prio child) (cs[pos := child]) pos;
          ix = (if new_pos \<noteq> pos
                then take new_pos ix @ [ix ! pos] @ drop new_pos (take pos ix) @ drop (Suc pos) ix else ix)
      in (Node pa ix wi ty pr cs hs fu, new_pos))"

fun index_of :: "char \<Rightarrow> string \<Rightarrow> nat option" where
  "index_of c [] = None"
| "index_of c (x # xs) = (if c = x then Some 0 else map_option Suc (index_of c xs))"

section \<open>insertChild\<close>

datatype wildcard = NoWildcard | Wildcard string nat bool | BadEscape

fun find_wild :: "nat \<Rightarrow> bool \<Rightarrow> string \<Rightarrow> wildcard" where
  "find_wild start escape [] = NoWildcard"
| "find_wild start escape (c # cs) =
     (if escape then if c = CHR '':'' then find_wild (Suc start) False cs else BadEscape
      else if c = CHR 0x5C then find_wild (Suc start) True cs
      else if c \<noteq> CHR '':'' \<and> c \<noteq> CHR ''*'' then find_wild (Suc start) False cs
      else let name = takeWhile (\<lambda>x. x \<noteq> CHR ''/'') cs
           in Wildcard (c # name) start (CHR '':'' \<notin> set name \<and> CHR ''*'' \<notin> set name))"

definition find_wildcard :: "string \<Rightarrow> wildcard" where
  "find_wildcard path = find_wild 0 False path"

definition first_segment :: "string \<Rightarrow> string" where
  "first_segment p = takeWhile (\<lambda>x. x \<noteq> CHR ''/'') p"

definition quoted :: "string \<Rightarrow> string" where
  "quoted s = CHR 39 # s @ [CHR 39]"

function insert_child :: "string \<Rightarrow> string \<Rightarrow> 'h \<Rightarrow> 'h node \<Rightarrow> string + 'h node" where
  "insert_child path full hs n =
     (case find_wildcard path of
        BadEscape \<Rightarrow> Inl (''invalid escape string in path '' @ quoted path)
      | NoWildcard \<Rightarrow> Inr (Node path (nd_indices n) (nd_wild n) (nd_type n) (nd_prio n) (nd_children n) (Some hs) full)
      | Wildcard wc i valid \<Rightarrow>
          if \<not> valid then
            Inl (''only one wildcard per path segment is allowed, has: '' @ quoted wc @ '' in path '' @ quoted full)
          else if length wc < 2 then
            Inl (''wildcards must be named with a non-empty name in path '' @ quoted full)
          else if hd wc = CHR '':'' then
            (let pa = (if i > 0 then take i path else nd_path n);
                 rest = drop i path;
                 parent = Node pa (nd_indices n) (nd_wild n) (nd_type n) (nd_prio n) (nd_children n) (nd_handlers n) (nd_full n)
             in case (if length wc < length rest
                      then (case insert_child (drop (length wc) rest) full hs (Node [] [] False NStatic 1 [] None full) of
                              Inl m \<Rightarrow> Inl m
                            | Inr child \<Rightarrow> Inr (Node wc [] False NParam 1 [child] None full))
                      else Inr (Node wc [] False NParam 1 [] (Some hs) full)) of
                  Inl m \<Rightarrow> Inl m
                | Inr child \<Rightarrow>
                    (case add_child parent child of
                       Node pa ix wi ty pr cs ha fu \<Rightarrow> Inr (Node pa ix True ty pr cs ha fu)))
          else if i + length wc \<noteq> length path then
            Inl (''catch-all routes are only allowed at the end of the path in path '' @ quoted full)
          else if nd_path n \<noteq> [] \<and> last (nd_path n) = CHR ''/'' then
            (let seg = (case nd_children n of [] \<Rightarrow> [] | k # _ \<Rightarrow> first_segment (nd_path k))
             in Inl (''catch-all wildcard '' @ quoted path @ '' in new path '' @ quoted full
                  @ '' conflicts with existing path segment '' @ quoted seg
                  @ '' in existing prefix '' @ quoted (nd_path n @ seg)))
          else if i = 0 \<or> path ! (i - 1) \<noteq> CHR ''/'' then
            Inl (''no / before catch-all in path '' @ quoted full)
          else
            (let leaf = Node (drop (i - 1) path) [] False NCatchAll 1 [] (Some hs) full;
                 child = Node [] [] True NCatchAll 1 [leaf] None full
             in case add_child n child of
                  Node pa ix wi ty pr cs ha fu \<Rightarrow> Inr (Node (take (i - 1) path) ''/'' wi ty pr cs ha fu)))"
  by pat_completeness auto

termination
  by (relation "measure (\<lambda>(path, full, hs, n). length path)") auto

declare insert_child.simps [simp del]

section \<open>addRoute\<close>

text \<open>The weight of a tree, on which the walk ends.\<close>

fun weight :: "'h node \<Rightarrow> nat" where
  "weight (Node pa ix wi ty pr cs hs fu) = Suc (sum_list (map weight cs))"

lemma weight_child: "c \<in> set (nd_children n) \<Longrightarrow> weight c < weight n"
  using member_le_sum_list [of "weight c" "map weight (nd_children n)"] by (cases n) auto

lemma weight_inc_prio [simp]: "weight (inc_prio n) = weight n"
  by (cases n) simp

lemma move_front_spec:
  "move_front prio cs k = (cs', j) \<Longrightarrow> k < length cs \<Longrightarrow> j \<le> k \<and> length cs' = length cs \<and> cs' ! j = cs ! k"
proof (induction k arbitrary: cs)
  case (Suc k)
  then show ?case
    by (auto split: if_splits dest!: Suc.IH)
qed simp

lemma increment_child_prio_spec:
  assumes "increment_child_prio n pos = (n', j)" "pos < length (nd_children n)"
  shows "j < length (nd_children n') \<and> nd_children n' ! j = inc_prio (nd_children n ! pos)"
  using assms move_front_spec
  by (cases n) (fastforce simp: Let_def split: prod.splits)

lemma lcp_differs:
  "i = lcp_len a b \<Longrightarrow> i < length a \<Longrightarrow> i < length b \<Longrightarrow> a ! i \<noteq> b ! i"
  by (induction a b arbitrary: i rule: lcp_len.induct) auto

text \<open>The edge to the node is split where the paths part; \<open>pfi\<close> is \<^verbatim>\<open>parentFullPathIndex\<close>.\<close>

definition split_edge :: "nat \<Rightarrow> string \<Rightarrow> string \<Rightarrow> nat \<Rightarrow> 'h node \<Rightarrow> 'h node" where
  "split_edge i path full pfi n =
     (if i < length (nd_path n)
      then Node (take i path) [nd_path n ! i] False (nd_type n) (nd_prio n)
             [Node (drop i (nd_path n)) (nd_indices n) (nd_wild n) NStatic (nd_prio n - 1) (nd_children n)
                (nd_handlers n) (nd_full n)]
             None (take (pfi + i) full)
      else n)"

definition wildcard_matches :: "string \<Rightarrow> 'h node \<Rightarrow> bool" where
  "wildcard_matches path w \<longleftrightarrow>
     length (nd_path w) \<le> length path \<and> nd_path w = take (length (nd_path w)) path \<and> nd_type w \<noteq> NCatchAll \<and>
     (length path \<le> length (nd_path w) \<or> path ! length (nd_path w) = CHR ''/'')"

text \<open>What stands before the first place of \<open>sub\<close> in a text.\<close>

fun before_sub :: "string \<Rightarrow> string \<Rightarrow> string" where
  "before_sub sub [] = []"
| "before_sub sub (c # cs) = (if prefix sub (c # cs) then [] else c # before_sub sub cs)"

definition conflict :: "string \<Rightarrow> string \<Rightarrow> 'h node \<Rightarrow> string" where
  "conflict path full w =
     (let seg = (if nd_type w \<noteq> NCatchAll then first_segment path else path)
      in quoted seg @ '' in new path '' @ quoted full @ '' conflicts with existing wildcard '' @ quoted (nd_path w)
        @ '' in existing prefix '' @ quoted (before_sub seg full @ nd_path w))"

function walk_add :: "string \<Rightarrow> string \<Rightarrow> 'h \<Rightarrow> nat \<Rightarrow> 'h node \<Rightarrow> string + 'h node" where
  "walk_add path full hs pfi n0 =
     (let i = lcp_len path (nd_path n0);
          n = split_edge i path full pfi n0;
          rest = drop i path
      in if i < length path then
           if nd_type n = NParam \<and> hd rest = CHR ''/'' \<and> length (nd_children n) = 1 then
             (case walk_add rest full hs (pfi + length (nd_path n)) (inc_prio (hd (nd_children n))) of
                Inl m \<Rightarrow> Inl m | Inr child \<Rightarrow> Inr (set_children [child] n))
           else
             (case index_of (hd rest) (nd_indices n) of
                Some pos \<Rightarrow>
                  if length (nd_children n) \<le> pos then Inl ''runtime error: index out of range''
                  else
                    (case increment_child_prio n pos of
                       (n', j) \<Rightarrow>
                         (case walk_add rest full hs (pfi + length (nd_path n)) (nd_children n' ! j) of
                            Inl m \<Rightarrow> Inl m | Inr child \<Rightarrow> Inr (set_children ((nd_children n')[j := child]) n')))
              | None \<Rightarrow>
                  if hd rest \<noteq> CHR '':'' \<and> hd rest \<noteq> CHR ''*'' \<and> nd_type n \<noteq> NCatchAll then
                    (case add_child n (Node [] [] False NStatic 0 [] None full) of
                       Node pa ix wi ty pr cs ha fu \<Rightarrow>
                         (case increment_child_prio (Node pa (ix @ [hd rest]) wi ty pr cs ha fu) (length ix) of
                            (n', j) \<Rightarrow>
                              (case insert_child rest full hs (nd_children n' ! j) of
                                 Inl m \<Rightarrow> Inl m | Inr child \<Rightarrow> Inr (set_children ((nd_children n')[j := child]) n'))))
                  else if nd_wild n then
                    if nd_children n = [] then Inl ''runtime error: index out of range [-1]''
                    else
                      (let w = inc_prio (last (nd_children n))
                       in if wildcard_matches rest w
                          then (case walk_add rest full hs pfi w of
                                  Inl m \<Rightarrow> Inl m | Inr child \<Rightarrow> Inr (set_children (butlast (nd_children n) @ [child]) n))
                          else Inl (conflict rest full w))
                  else insert_child rest full hs n)
         else if nd_handlers n \<noteq> None then Inl (''handlers are already registered for path '' @ quoted full)
         else (case n of Node pa ix wi ty pr cs ha fu \<Rightarrow> Inr (Node pa ix wi ty pr cs (Some hs) full)))"
  by pat_completeness auto

lemma split_edge_cases:
  assumes "n = split_edge i path full pfi n0"
  obtains "n = n0" "length (nd_path n0) \<le> i"
  | c where "i < length (nd_path n0)" "\<not> nd_wild n" "nd_indices n = [nd_path n0 ! i]" "nd_type n = nd_type n0"
      "nd_children n = [c]" "weight c = weight n0" "nd_type c = NStatic"
  using assms by (cases n0) (auto simp: split_edge_def split: if_splits)

lemma index_of_Some: "index_of c s = Some k \<Longrightarrow> k < length s \<and> s ! k = c"
  by (induction s arbitrary: k) (auto split: if_splits)

lemma inc_prio_simps [simp]:
  "nd_type (inc_prio n) = nd_type n" "nd_children (inc_prio n) = nd_children n" "nd_path (inc_prio n) = nd_path n"
  by (cases n; simp)+

termination walk_add
proof (relation "measure (\<lambda>(path, full, hs, pfi, n). 2 * weight n + (if nd_type n = NParam then 1 else 0))", goal_cases)
  case 1
  show ?case by simp
next
  case (2 path full hs pfi n0 i n rest)
  obtain c where c: "nd_children n = [c]" using 2(5) by (auto simp: length_Suc_conv)
  show ?case
    using 2(2) by (cases rule: split_edge_cases) (use 2(5) c weight_child [of c n] in auto)
next
  case (3 path full hs pfi n0 i n rest w)
  have w: "last (nd_children n) \<in> set (nd_children n)" using 3 by simp
  show ?case
    using 3(2) by (cases rule: split_edge_cases) (use 3 w weight_child [of "last (nd_children n)" n] in auto)
next
  case (4 path full hs pfi n0 i n rest pos n' j)
  have pos: "pos < length (nd_children n)" using 4 by simp
  note j = increment_child_prio_spec [OF 4(8) [symmetric] pos]
  show ?case
    using 4(2)
  proof (cases rule: split_edge_cases)
    case 1
    then show ?thesis using j weight_child [of "nd_children n ! pos" n] pos by auto
  next
    case (2 c)
    then have "hd rest \<noteq> nd_path n0 ! i"
      using lcp_differs [OF 4(1)] 4(3,4) by (simp add: hd_drop_conv_nth)
    then show ?thesis using 2(3) 4(6) by simp
  qed
qed

declare walk_add.simps [simp del]

text \<open>\<^verbatim>\<open>addRoute\<close>; the empty tree becomes the root.\<close>

definition add_route :: "string \<Rightarrow> 'h \<Rightarrow> 'h node \<Rightarrow> string + 'h node" where
  "add_route path hs n =
     (let n = inc_prio n in
      if nd_path n = [] \<and> nd_children n = [] then
        (case insert_child path path hs n of
           Inl m \<Rightarrow> Inl m
         | Inr (Node pa ix wi ty pr cs ha fu) \<Rightarrow> Inr (Node pa ix wi NRoot pr cs ha fu))
      else walk_add path path hs 0 n)"

section \<open>getValue\<close>

text \<open>A place to go back to: the path there, the node without its indices, and the number of parameters.\<close>

record 'h skipped =
  sk_path :: string
  sk_node :: "'h node"
  sk_count :: nat

record 'h node_value =
  nv_handlers :: "'h option"
  nv_params :: "(string \<times> string) list"
  nv_tsr :: bool
  nv_full :: string

fun strip_indices :: "'h node \<Rightarrow> 'h node" where
  "strip_indices (Node pa ix wi ty pr cs hs fu) = Node pa [] wi ty pr cs hs fu"

text \<open>The last skipped node whose path ends with the rest of the path; those after it are dropped.\<close>

fun roll_back :: "bool \<Rightarrow> string \<Rightarrow> 'h skipped list \<Rightarrow> ('h skipped \<times> 'h skipped list) option" where
  "roll_back ok path [] = None"
| "roll_back ok path (s # sk) =
     (if \<not> ok then None else if suffix path (sk_path s) then Some (s, sk) else roll_back ok path sk)"

definition push_skipped :: "'h node \<Rightarrow> string \<Rightarrow> nat \<Rightarrow> 'h skipped list \<Rightarrow> 'h skipped list" where
  "push_skipped n path cnt sk =
     (if nd_wild n then \<lparr>sk_path = path, sk_node = strip_indices n, sk_count = cnt\<rparr> # sk else sk)"

definition no_value :: "(string \<times> string) list \<Rightarrow> bool \<Rightarrow> 'h node_value" where
  "no_value ps tsr = \<lparr>nv_handlers = None, nv_params = ps, nv_tsr = tsr, nv_full = []\<rparr>"

definition one_slash_more :: "'h node \<Rightarrow> string \<Rightarrow> bool" where
  "one_slash_more n path \<longleftrightarrow>
     path = ''/'' \<or>
     (length (nd_path n) = length path + 1 \<and> nd_path n ! length path = CHR ''/'' \<and> path = butlast (nd_path n) \<and>
      nd_handlers n \<noteq> None)"

fun cost :: "'h node \<Rightarrow> nat" where
  "cost (Node pa ix wi ty pr cs hs fu) =
     (let s = sum_list (map cost cs) in if ix = [] then Suc s else 2 + 2 * s)"

definition skipped_cost :: "'h skipped list \<Rightarrow> nat" where
  "skipped_cost sk = sum_list (map (\<lambda>s. cost (sk_node s)) sk)"

lemma cost_positive [simp]: "0 < cost n"
  by (cases n) (simp add: Let_def)

lemma roll_back_cost:
  "roll_back ok path sk = Some (s, sk') \<Longrightarrow> cost (sk_node s) + skipped_cost sk' \<le> skipped_cost sk"
  by (induction sk) (auto simp: skipped_cost_def split: if_splits)

lemma cost_child:
  assumes "c \<in> set (nd_children n)"
  shows "cost c < cost n" "nd_indices n \<noteq> [] \<Longrightarrow> cost c + cost (strip_indices n) < cost n"
  using assms member_le_sum_list [of "cost c" "map cost (nd_children n)"] by (cases n; auto simp: Let_def)+

function get_value ::
  "'h node \<Rightarrow> string \<Rightarrow> (string \<times> string) list \<Rightarrow> 'h skipped list \<Rightarrow> nat \<Rightarrow> string + 'h node_value" where
  "get_value n path ps sk cnt =
     (if strict_prefix (nd_path n) path then
        (let rest = drop (length (nd_path n)) path in
         case index_of (hd rest) (nd_indices n) of
           Some i \<Rightarrow>
             if length (nd_children n) \<le> i then Inl ''runtime error: index out of range''
             else get_value (nd_children n ! i) rest ps (push_skipped n (nd_path n @ rest) cnt sk) cnt
         | None \<Rightarrow>
             if \<not> nd_wild n then
               (case roll_back (rest \<noteq> ''/'') rest sk of
                  Some (s, sk') \<Rightarrow> get_value (sk_node s) (sk_path s) (take (sk_count s) ps) sk' (sk_count s)
                | None \<Rightarrow> Inr (no_value ps (rest = ''/'' \<and> nd_handlers n \<noteq> None)))
             else if nd_children n = [] then Inl ''runtime error: index out of range [-1]''
             else
               (let w = last (nd_children n) in
                case nd_type w of
                  NParam \<Rightarrow>
                    (let val = takeWhile (\<lambda>c. c \<noteq> CHR ''/'') rest;
                         ps = ps @ [(drop 1 (nd_path w), val)]
                     in if length val < length rest then
                          if nd_children w \<noteq> []
                          then get_value (hd (nd_children w)) (drop (length val) rest) ps sk (Suc cnt)
                          else Inr (no_value ps (length rest = length val + 1))
                        else
                          (case nd_handlers w of
                             Some h \<Rightarrow> Inr \<lparr>nv_handlers = Some h, nv_params = ps, nv_tsr = False, nv_full = nd_full w\<rparr>
                           | None \<Rightarrow>
                               Inr (no_value ps
                                 (case nd_children w of
                                    [c] \<Rightarrow> (nd_path c = ''/'' \<and> nd_handlers c \<noteq> None) \<or> (nd_path c = [] \<and> nd_indices c = ''/'')
                                  | _ \<Rightarrow> False))))
                | NCatchAll \<Rightarrow>
                    Inr \<lparr>nv_handlers = nd_handlers w, nv_params = ps @ [(drop 2 (nd_path w), rest)], nv_tsr = False,
                         nv_full = nd_full w\<rparr>
                | _ \<Rightarrow> Inl ''invalid node type''))
      else if path = nd_path n then
        (case roll_back (nd_handlers n = None \<and> path \<noteq> ''/'') path sk of
           Some (s, sk') \<Rightarrow> get_value (sk_node s) (sk_path s) (take (sk_count s) ps) sk' (sk_count s)
         | None \<Rightarrow>
             (case nd_handlers n of
                Some h \<Rightarrow> Inr \<lparr>nv_handlers = Some h, nv_params = ps, nv_tsr = False, nv_full = nd_full n\<rparr>
              | None \<Rightarrow>
                  if path = ''/'' \<and> nd_wild n \<and> nd_type n \<noteq> NRoot then Inr (no_value ps True)
                  else if path = ''/'' \<and> nd_type n = NStatic then Inr (no_value ps True)
                  else
                    (case index_of CHR ''/'' (nd_indices n) of
                       None \<Rightarrow> Inr (no_value ps False)
                     | Some i \<Rightarrow>
                         if length (nd_children n) \<le> i then Inl ''runtime error: index out of range''
                         else (let c = nd_children n ! i in
                               if length (nd_path c) = 1 \<and> nd_handlers c \<noteq> None then Inr (no_value ps True)
                               else if nd_type c = NCatchAll then
                                 (case nd_children c of
                                    [] \<Rightarrow> Inl ''runtime error: index out of range''
                                  | k # _ \<Rightarrow> Inr (no_value ps (nd_handlers k \<noteq> None)))
                               else Inr (no_value ps False)))))
      else
        (case roll_back (\<not> one_slash_more n path \<and> path \<noteq> ''/'') path sk of
           Some (s, sk') \<Rightarrow> get_value (sk_node s) (sk_path s) (take (sk_count s) ps) sk' (sk_count s)
         | None \<Rightarrow> Inr (no_value ps (one_slash_more n path))))"
  by pat_completeness auto

lemma skipped_cost_Cons [simp]: "skipped_cost (s # sk) = cost (sk_node s) + skipped_cost sk"
  by (simp add: skipped_cost_def)

lemma roll_back_less:
  assumes "roll_back ok path sk = Some x" "(s, sk') = x"
  shows "cost (sk_node s) + skipped_cost sk' < cost n + skipped_cost sk"
proof -
  have "cost (sk_node s) + skipped_cost sk' \<le> skipped_cost sk" using roll_back_cost assms by blast
  then show ?thesis using cost_positive [of n] by linarith
qed

lemma cost_grandchild:
  assumes "nd_children n \<noteq> []" "nd_children (last (nd_children n)) \<noteq> []"
  shows "cost (hd (nd_children (last (nd_children n)))) < cost n"
  by (rule less_trans [OF cost_child(1) [where n = "last (nd_children n)"] cost_child(1)]) (use assms in simp_all)

lemma cost_index:
  assumes "index_of c (nd_indices n) = Some i" "\<not> length (nd_children n) \<le> i"
  shows "cost (nd_children n ! i) < cost n" "cost (nd_children n ! i) + cost (strip_indices n) < cost n"
proof -
  have "nd_indices n \<noteq> []" using assms(1) by auto
  then show "cost (nd_children n ! i) < cost n" "cost (nd_children n ! i) + cost (strip_indices n) < cost n"
    using cost_child [of "nd_children n ! i" n] assms(2) by simp_all
qed

termination get_value
  by (relation "measure (\<lambda>(n, path, ps, sk, cnt). cost n + skipped_cost sk)")
    (auto intro: roll_back_less cost_grandchild cost_index simp: push_skipped_def simp del: split_paired_All)

declare get_value.simps [simp del]

end
