(* ===== verification/Router.thy ===== *)
theory Router
  imports Gin RadixTree
begin

text \<open>
  The routing of \<^verbatim>\<open>gin.Engine\<close>: the routes of a group behind the global middleware, kept in one radix tree
  per method, and \<^verbatim>\<open>handleHTTPRequest\<close>, which searches the tree of the method (\<^verbatim>\<open>gin.go\<close>,
  \<^verbatim>\<open>routergroup.go\<close>). Beside it stands the reference that the search is held against: the best match
  among all routes, segment by segment.
\<close>

section \<open>The engine\<close>

text \<open>\<open>en_panic\<close> is the panic of a registration, after which the program does not go on.\<close>

record ('v, 'g) engine =
  en_use :: "('v, 'g) handler list"
  en_trees :: "(string \<times> ('v, 'g) handler list node) list"
  en_panic :: "string option"

definition gin_new :: "('v, 'g) engine" where
  "gin_new = \<lparr>en_use = [], en_trees = [], en_panic = None\<rparr>"

definition gin_use :: "('v, 'g) handler \<Rightarrow> ('v, 'g) engine \<Rightarrow> ('v, 'g) engine" where
  "gin_use h r = r\<lparr>en_use := en_use r @ [h]\<rparr>"

definition engine_add_route ::
  "string \<Rightarrow> string \<Rightarrow> ('v, 'g) handler list \<Rightarrow> ('v, 'g) engine \<Rightarrow> ('v, 'g) engine" where
  "engine_add_route method path hs r =
     (if en_panic r \<noteq> None then r
      else if path = [] then r\<lparr>en_panic := Some ''runtime error: index out of range [0] with length 0''\<rparr>
      else if hd path \<noteq> CHR ''/'' then r\<lparr>en_panic := Some (''path must begin with '' @ quoted ''/'')\<rparr>
      else if method = [] then r\<lparr>en_panic := Some ''HTTP method can not be empty''\<rparr>
      else if hs = [] then r\<lparr>en_panic := Some ''there must be at least one handler''\<rparr>
      else
        (let root = (case map_of (en_trees r) method of
                       None \<Rightarrow> Node [] [] False NStatic 0 [] None ''/'' | Some t \<Rightarrow> t)
         in case add_route path hs root of
              Inl m \<Rightarrow> r\<lparr>en_panic := Some m\<rparr>
            | Inr t \<Rightarrow> r\<lparr>en_trees := AList.update method t (en_trees r)\<rparr>))"

text \<open>
  A group copies the handlers of the engine when it is made, and a route those of its group; the
  handlers of the route come after them. \<open>join_paths\<close> is \<^verbatim>\<open>path.Join\<close>, with the last slash kept.
\<close>

record ('v, 'g) router_group =
  gr_handlers :: "('v, 'g) handler list"
  gr_base :: string

definition join_paths :: "string \<Rightarrow> string \<Rightarrow> string" where
  "join_paths base rel =
     (if rel = [] then base
      else let final = ''/'' @ join ''/'' (clean_elems [] (split_on CHR ''/'' (base @ ''/'' @ rel)))
           in if last rel = CHR ''/'' \<and> last final \<noteq> CHR ''/'' then final @ ''/'' else final)"

definition gin_group :: "('v, 'g) engine \<Rightarrow> string \<Rightarrow> ('v, 'g) router_group" where
  "gin_group r base = \<lparr>gr_handlers = en_use r, gr_base = join_paths ''/'' base\<rparr>"

text \<open>A chain must be shorter than the index of an aborted one.\<close>

definition group_handle ::
  "('v, 'g) router_group \<Rightarrow> string \<Rightarrow> string \<Rightarrow> ('v, 'g) handler list \<Rightarrow> ('v, 'g) engine \<Rightarrow> ('v, 'g) engine" where
  "group_handle gr method rel hs r =
     (if length (gr_handlers gr) + length hs < 63
      then engine_add_route method (join_paths (gr_base gr) rel) (gr_handlers gr @ hs) r
      else r\<lparr>en_panic := (case en_panic r of None \<Rightarrow> Some ''too many handlers'' | Some m \<Rightarrow> Some m)\<rparr>)"

section \<open>Handling a request\<close>

text \<open>
  A path that the tree recommends to change by a slash at its end is redirected, 301 for a GET and 307
  otherwise, without a handler being run.
\<close>

datatype 'st answer = Served "'st outcome" | Redirected int

definition handle_http_request ::
  "('v, 'g) engine \<Rightarrow> request \<Rightarrow> 'g \<Rightarrow> ('v, 'g) gin_st answer" where
  "handle_http_request r rq g =
     (case map_of (en_trees r) (rq_method rq) of
        None \<Rightarrow> Served (serve_not_found (en_use r) (new_ctx rq [] [], g))
      | Some root \<Rightarrow>
          (case get_value root (rq_path rq) [] [] 0 of
             Inl m \<Rightarrow> Served (Panicked (PRuntime m) (new_ctx rq [] [], g))
           | Inr v \<Rightarrow>
               (case nv_handlers v of
                  Some hs \<Rightarrow> Served (serve hs (new_ctx rq (nv_params v) (nv_full v), g))
                | None \<Rightarrow>
                    if rq_method rq \<noteq> ''CONNECT'' \<and> rq_path rq \<noteq> ''/'' \<and> nv_tsr v
                    then Redirected (if rq_method rq = ''GET'' then 301 else 307)
                    else Served (serve_not_found (en_use r) (new_ctx rq (nv_params v) [], g)))))"

section \<open>The reference\<close>

datatype seg = Lit string | Par string

definition seg_of :: "string \<Rightarrow> seg" where
  "seg_of s = (case s of [] \<Rightarrow> Lit [] | c # cs \<Rightarrow> if c = CHR '':'' then Par cs else Lit s)"

definition pattern_of :: "string \<Rightarrow> seg list" where
  "pattern_of p = map seg_of (split_on CHR ''/'' p)"

text \<open>A parameter takes a segment that is not empty.\<close>

fun match_path :: "seg list \<Rightarrow> string list \<Rightarrow> (string \<times> string) list option" where
  "match_path [] [] = Some []"
| "match_path (Lit l # ps) (s # ss) = (if l = s then match_path ps ss else None)"
| "match_path (Par x # ps) (s # ss) =
     (if s = [] then None else map_option (\<lambda>m. (x, s) # m) (match_path ps ss))"
| "match_path _ _ = None"

text \<open>Of two patterns that match the same path, the one with the earlier literal is preferred.\<close>

fun preferred :: "seg list \<Rightarrow> seg list \<Rightarrow> bool" where
  "preferred (Lit a # ps) (Par b # qs) = True"
| "preferred (Par a # ps) (Lit b # qs) = False"
| "preferred (Lit a # ps) (Lit b # qs) = preferred ps qs"
| "preferred (Par a # ps) (Par b # qs) = preferred ps qs"
| "preferred _ _ = True"

record ('v, 'g) route =
  rt_method :: string
  rt_path :: string
  rt_handlers :: "('v, 'g) handler list"

text \<open>\<^verbatim>\<open>Engine.Routes\<close> lists the routes of all trees.\<close>

fun iterate :: "string \<Rightarrow> string \<Rightarrow> ('v, 'g) handler list node \<Rightarrow> ('v, 'g) route list" where
  "iterate method path (Node pa ix wi ty pr cs hs fu) =
     (case hs of
        Some chain \<Rightarrow> [\<lparr>rt_method = method, rt_path = path @ pa, rt_handlers = chain\<rparr>]
      | None \<Rightarrow> []) @ concat (map (iterate method (path @ pa)) cs)"

definition en_routes :: "('v, 'g) engine \<Rightarrow> ('v, 'g) route list" where
  "en_routes r = concat (map (\<lambda>(m, root). iterate m [] root) (en_trees r))"

fun best_route ::
  "('v, 'g) route list \<Rightarrow> string \<Rightarrow> string list \<Rightarrow> (('v, 'g) route \<times> (string \<times> string) list) option" where
  "best_route [] m ss = None"
| "best_route (r # rs) m ss =
     (case (if rt_method r = m then match_path (pattern_of (rt_path r)) ss else None) of
        None \<Rightarrow> best_route rs m ss
      | Some ps \<Rightarrow>
          (case best_route rs m ss of
             None \<Rightarrow> Some (r, ps)
           | Some (q, qs) \<Rightarrow>
               if preferred (pattern_of (rt_path r)) (pattern_of (rt_path q)) then Some (r, ps)
               else Some (q, qs)))"

definition find_route ::
  "('v, 'g) engine \<Rightarrow> string \<Rightarrow> string \<Rightarrow> (('v, 'g) route \<times> (string \<times> string) list) option" where
  "find_route r method path = best_route (en_routes r) method (split_on CHR ''/'' path)"

definition other_slash :: "string \<Rightarrow> string" where
  "other_slash p =
     (if length p > 1 \<and> last p = CHR ''/'' then butlast p else p @ ''/'')"

section \<open>Facts\<close>

lemma best_route_in:
  "best_route rs m ss = Some (r, ps) \<Longrightarrow>
     r \<in> set rs \<and> rt_method r = m \<and> match_path (pattern_of (rt_path r)) ss = Some ps"
  by (induction rs) (auto split: option.splits if_splits)

lemma find_route_in:
  "find_route en m p = Some (r, ps) \<Longrightarrow> r \<in> set (en_routes en) \<and> rt_method r = m"
  unfolding find_route_def using best_route_in by blast

text \<open>Every parameter of a route that matched has a value that is not empty and has no slash.\<close>

lemma match_path_params:
  "match_path pat ss = Some ps \<Longrightarrow> (x, v) \<in> set ps \<Longrightarrow> v \<noteq> [] \<and> v \<in> set ss"
  by (induction pat ss arbitrary: ps rule: match_path.induct) (auto split: if_splits)

lemma find_route_params:
  "find_route en m p = Some (r, ps) \<Longrightarrow> (x, v) \<in> set ps \<Longrightarrow> v \<noteq> [] \<and> CHR ''/'' \<notin> set v"
  unfolding find_route_def using best_route_in match_path_params split_on_elem_no_sep by metis

section \<open>One step of the chain\<close>

lemma next_loop_step:
  assumes "gx_index (fst s) = int i" "i < length hs"
  shows "next_loop (Suc n) hs s =
    and_then ((hs ! i) (\<lambda>t. next_loop n hs (step_index t)) s) (\<lambda>t. next_loop n hs (step_index t))"
  using assms by simp

lemma next_loop_end [simp]:
  "int (length hs) \<le> gx_index (fst s) \<Longrightarrow> next_loop (Suc n) hs s = Done s"
  by simp

lemma step_index_simps [simp]:
  "gx_index (fst (step_index s)) = gx_index (fst s) + 1" "snd (step_index s) = snd s"
  by (simp_all add: step_index_def)

lemma next_loop_Done:
  "next_loop n hs s = Done t \<Longrightarrow> int (length hs) \<le> gx_index (fst t)"
proof (induction n arbitrary: s)
  case (Suc n)
  show ?case
  proof (cases "gx_index (fst s) < int (length hs)")
    case True
    with Suc show ?thesis
      by (cases "(hs ! nat (gx_index (fst s))) (\<lambda>t. next_loop n hs (step_index t)) s") auto
  qed (use Suc.prems in simp)
qed simp

end
