(* ===== verification/RouteTrees.thy ===== *)
theory RouteTrees
  imports Router
begin

text \<open>
  The four trees that the routes of the program make, for any handlers, and what the search finds in them
  for an arbitrary path.
\<close>

definition empty_tree :: "'h node" where
  "empty_tree = Node [] [] False NStatic 0 [] None ''/''"

definition delete_tree :: "'h \<Rightarrow> 'h node" where
  "delete_tree one = Node ''/v1/users/'' [] True NRoot 1
     [Node '':id'' [] False NParam 1 [] (Some one) ''/v1/users/:id''] None ''/''"

definition get_tree :: "'h \<Rightarrow> 'h \<Rightarrow> 'h node" where
  "get_tree all one = Node ''/v1/users/'' [] True NRoot 2
     [Node '':id'' [] False NParam 1 [] (Some one) ''/v1/users/:id''] (Some all) ''/v1/users/''"

definition post_tree :: "'h \<Rightarrow> 'h \<Rightarrow> 'h node" where
  "post_tree create login = Node ''/v1/users/'' ''l'' False NRoot 2
     [Node ''login'' [] False NStatic 1 [] (Some login) ''/v1/users/login''] (Some create) ''/v1/users/''"

text \<open>A place of the tree for \<^verbatim>\<open>PUT\<close> with a parameter below a literal.\<close>

definition put_child :: "string \<Rightarrow> 'h \<Rightarrow> 'h node" where
  "put_child lit h = Node (lit @ ''/'') [] True NStatic 1
     [Node '':id'' [] False NParam 1 [] (Some h) (''/v1/users/'' @ lit @ ''/:id'')] None (''/v1/users/'' @ lit @ ''/:id'')"

definition put_tree :: "'h \<Rightarrow> 'h \<Rightarrow> 'h \<Rightarrow> 'h node" where
  "put_tree one roles disable = Node ''/v1/users/'' ''rd'' True NRoot 3
     [put_child ''roles'' roles, put_child ''disable'' disable,
      Node '':id'' [] False NParam 1 [] (Some one) ''/v1/users/:id''] None ''/''"

section \<open>The trees are what the registration makes\<close>

lemmas tree_evals = add_route_def insert_child.simps walk_add.simps find_wildcard_def add_child_def
  split_edge_def wildcard_matches_def Let_def

lemma delete_tree_made: "add_route ''/v1/users/:id'' h empty_tree = Inr (delete_tree h)"
  by (simp add: tree_evals empty_tree_def delete_tree_def)

lemma get_tree_made: "add_route ''/v1/users/'' h (delete_tree k) = Inr (get_tree h k)"
  by (simp add: tree_evals delete_tree_def get_tree_def)

lemma post_tree_made:
  "(case add_route ''/v1/users/'' h empty_tree of Inl m \<Rightarrow> Inl m | Inr t \<Rightarrow> add_route ''/v1/users/login'' k t) = Inr (post_tree h k)"
  by (simp add: tree_evals empty_tree_def post_tree_def)

lemma put_tree_made:
  "(case add_route ''/v1/users/roles/:id'' h (delete_tree k) of
      Inl m \<Rightarrow> Inl m | Inr t \<Rightarrow> add_route ''/v1/users/disable/:id'' l t) = Inr (put_tree k h l)"
  by (simp add: tree_evals delete_tree_def put_tree_def put_child_def)

section \<open>The search in closed form\<close>

abbreviation users_path :: string where "users_path \<equiv> ''/v1/users/''"

definition found :: "'h \<Rightarrow> (string \<times> string) list \<Rightarrow> string \<Rightarrow> 'h node_value" where
  "found h ps full = \<lparr>nv_handlers = Some h, nv_params = ps, nv_tsr = False, nv_full = full\<rparr>"

text \<open>What a parameter at the end of a branch makes of the rest of a path.\<close>

definition param_value :: "'h \<Rightarrow> string \<Rightarrow> string \<Rightarrow> 'h node_value" where
  "param_value h full rest =
     (let val = takeWhile (\<lambda>c. c \<noteq> CHR ''/'') rest in
      if length val < length rest then no_value [(''id'', val)] (length rest = length val + 1)
      else found h [(''id'', val)] full)"

lemma param_child:
  assumes "nd_wild n" "nd_children n \<noteq> []" "last (nd_children n) = Node '':id'' [] False NParam 1 [] (Some h) full"
    and "rest \<noteq> []" "index_of (hd rest) (nd_indices n) = None"
  shows "get_value n (nd_path n @ rest) [] sk cnt = Inr (param_value h full rest)"
  using assms by (subst get_value.simps) (simp add: strict_prefix_def param_value_def found_def Let_def)

lemma no_match: "\<not> prefix (nd_path n) p \<Longrightarrow> get_value n p ps [] cnt = Inr (no_value ps (one_slash_more n p))"
  by (subst get_value.simps) (auto simp: strict_prefix_def)

text \<open>A path is that of the group, one below it or another one.\<close>

lemma users_path_cases:
  obtains "p = users_path" | s where "p = users_path @ s" "s \<noteq> []" | "\<not> prefix users_path p"
  unfolding prefix_def by (metis append_Nil2)

lemma get_tree_search:
  "get_value (get_tree a one) users_path [] [] 0 = Inr (found a [] users_path)"
  "s \<noteq> [] \<Longrightarrow> get_value (get_tree a one) (users_path @ s) [] [] 0 = Inr (param_value one ''/v1/users/:id'' s)"
  "\<not> prefix users_path p \<Longrightarrow> get_value (get_tree a one) p [] [] 0 = Inr (no_value [] (p = ''/'' \<or> p = ''/v1/users''))"
proof -
  show "get_value (get_tree a one) users_path [] [] 0 = Inr (found a [] users_path)"
    by (subst get_value.simps) (simp add: get_tree_def found_def)
  show "get_value (get_tree a one) (users_path @ s) [] [] 0 = Inr (param_value one ''/v1/users/:id'' s)" if "s \<noteq> []"
    using param_child [of "get_tree a one" one "''/v1/users/:id''" s] that by (simp add: get_tree_def)
  show "get_value (get_tree a one) p [] [] 0 = Inr (no_value [] (p = ''/'' \<or> p = ''/v1/users''))" if "\<not> prefix users_path p"
  proof -
    have "one_slash_more (get_tree a one) p \<longleftrightarrow> p = ''/'' \<or> p = ''/v1/users''"
      by (auto simp: one_slash_more_def get_tree_def)
    then show ?thesis
      using that by (subst get_value.simps) (auto simp: strict_prefix_def get_tree_def)
  qed
qed

lemma delete_tree_search:
  "get_value (delete_tree one) users_path [] [] 0 = Inr (no_value [] False)"
  "s \<noteq> [] \<Longrightarrow> get_value (delete_tree one) (users_path @ s) [] [] 0 = Inr (param_value one ''/v1/users/:id'' s)"
  "\<not> prefix users_path p \<Longrightarrow> get_value (delete_tree one) p [] [] 0 = Inr (no_value [] (p = ''/''))"
proof -
  show "get_value (delete_tree one) users_path [] [] 0 = Inr (no_value [] False)"
    by (subst get_value.simps) (simp add: delete_tree_def)
  show "get_value (delete_tree one) (users_path @ s) [] [] 0 = Inr (param_value one ''/v1/users/:id'' s)" if "s \<noteq> []"
    using param_child [of "delete_tree one" one "''/v1/users/:id''" s] that by (simp add: delete_tree_def)
  show "get_value (delete_tree one) p [] [] 0 = Inr (no_value [] (p = ''/''))" if "\<not> prefix users_path p"
    using that by (subst get_value.simps) (auto simp: strict_prefix_def delete_tree_def one_slash_more_def)
qed

lemma post_tree_search:
  "get_value (post_tree create login) users_path [] [] 0 = Inr (found create [] users_path)"
  "s \<noteq> [] \<Longrightarrow> get_value (post_tree create login) (users_path @ s) [] [] 0 =
     Inr (if s = ''login'' then found login [] ''/v1/users/login'' else no_value [] (s = ''/'' \<or> s = ''login/''))"
  "\<not> prefix users_path p \<Longrightarrow>
     get_value (post_tree create login) p [] [] 0 = Inr (no_value [] (p = ''/'' \<or> p = ''/v1/users''))"
proof -
  show "get_value (post_tree create login) users_path [] [] 0 = Inr (found create [] users_path)"
    by (subst get_value.simps) (simp add: post_tree_def found_def)
  show "get_value (post_tree create login) p [] [] 0 = Inr (no_value [] (p = ''/'' \<or> p = ''/v1/users''))"
    if "\<not> prefix users_path p"
  proof -
    have "one_slash_more (post_tree create login) p \<longleftrightarrow> p = ''/'' \<or> p = ''/v1/users''"
      by (auto simp: one_slash_more_def post_tree_def)
    then show ?thesis
      using that by (subst get_value.simps) (auto simp: strict_prefix_def post_tree_def)
  qed
  let ?login = "Node ''login'' [] False NStatic 1 [] (Some login) ''/v1/users/login''"
  have leaf: "get_value ?login s [] [] 0 =
      Inr (if s = ''login'' then found login [] ''/v1/users/login'' else no_value [] (s = ''login/''))" if "s \<noteq> ''/''" for s
  proof (cases "prefix ''login'' s")
    case True
    then obtain t where "s = ''login'' @ t" by (auto simp: prefix_def)
    then show ?thesis by (subst get_value.simps) (auto simp: strict_prefix_def found_def)
  next
    case False
    then have "s \<noteq> ''login/''" "s \<noteq> ''login''" by auto
    moreover have "\<not> one_slash_more ?login s"
    proof
      assume "one_slash_more ?login s"
      then have "''login'' ! length s = CHR ''/''" "s = butlast ''login''"
        using that unfolding one_slash_more_def node.sel by blast+
      then show False by simp
    qed
    ultimately show ?thesis
      using no_match [of ?login s "[]" 0] False by simp
  qed
  show "get_value (post_tree create login) (users_path @ s) [] [] 0 =
     Inr (if s = ''login'' then found login [] ''/v1/users/login'' else no_value [] (s = ''/'' \<or> s = ''login/''))" if "s \<noteq> []"
  proof (cases "hd s = CHR ''l''")
    case True
    then have "s \<noteq> ''/''" by auto
    have "get_value (post_tree create login) (users_path @ s) [] [] 0 = get_value ?login s [] [] 0"
      using True \<open>s \<noteq> []\<close> by (subst get_value.simps) (simp add: strict_prefix_def post_tree_def push_skipped_def)
    then show ?thesis using leaf [OF \<open>s \<noteq> ''/''\<close>] \<open>s \<noteq> ''/''\<close> by simp
  next
    case False
    then have "s \<noteq> ''login''" "s \<noteq> ''login/''" by auto
    then show ?thesis
      using False \<open>s \<noteq> []\<close> by (subst get_value.simps) (simp add: strict_prefix_def post_tree_def)
  qed
qed

text \<open>In the tree for \<^verbatim>\<open>PUT\<close> a literal that does not fit is given up for the parameter.\<close>

lemma put_child_search:
  assumes "lit \<noteq> []" "CHR ''/'' \<notin> set lit" "s \<noteq> []" "hd s \<noteq> CHR ''/''"
    and "sk = \<lparr>sk_path = users_path @ s, sk_node = strip_indices (put_tree one roles disable), sk_count = 0\<rparr>"
  shows "get_value (put_child lit h) s [] [sk] 0 =
    Inr (if strict_prefix (lit @ ''/'') s then param_value h (''/v1/users/'' @ lit @ ''/:id'') (drop (length lit + 1) s)
         else param_value one ''/v1/users/:id'' s)"
proof (cases "strict_prefix (lit @ ''/'') s")
  case True
  then obtain t where "s = (lit @ ''/'') @ t" "t \<noteq> []" by (auto simp: strict_prefix_def prefix_def)
  then show ?thesis
    using True param_child [of "put_child lit h" h "''/v1/users/'' @ lit @ ''/:id''" t]
    by (simp add: put_child_def)
next
  case False
  have "get_value (strip_indices (put_tree one roles disable)) (users_path @ s) [] [] 0 = Inr (param_value one ''/v1/users/:id'' s)"
    using param_child [of "strip_indices (put_tree one roles disable)" one "''/v1/users/:id''" s "[]" 0] assms(3)
    by (simp add: put_tree_def)
  moreover have "s \<noteq> ''/''" using assms(4) by auto
  ultimately show ?thesis
    using False assms(5) by (subst get_value.simps) (auto simp: put_child_def one_slash_more_def suffix_def)
qed

lemma put_tree_search:
  "get_value (put_tree one roles disable) users_path [] [] 0 = Inr (no_value [] False)"
  "s \<noteq> [] \<Longrightarrow> get_value (put_tree one roles disable) (users_path @ s) [] [] 0 =
     Inr (if strict_prefix ''roles/'' s then param_value roles ''/v1/users/roles/:id'' (drop (length ''roles/'') s)
          else if strict_prefix ''disable/'' s then param_value disable ''/v1/users/disable/:id'' (drop (length ''disable/'') s)
          else param_value one ''/v1/users/:id'' s)"
  "\<not> prefix users_path p \<Longrightarrow> get_value (put_tree one roles disable) p [] [] 0 = Inr (no_value [] (p = ''/''))"
proof -
  show "get_value (put_tree one roles disable) users_path [] [] 0 = Inr (no_value [] False)"
    by (subst get_value.simps) (simp add: put_tree_def)
  show "get_value (put_tree one roles disable) p [] [] 0 = Inr (no_value [] (p = ''/''))" if "\<not> prefix users_path p"
    using that by (subst get_value.simps) (auto simp: strict_prefix_def put_tree_def one_slash_more_def)
  let ?sk = "\<lambda>s. \<lparr>sk_path = users_path @ s, sk_node = strip_indices (put_tree one roles disable), sk_count = 0\<rparr>"
  show "get_value (put_tree one roles disable) (users_path @ s) [] [] 0 =
     Inr (if strict_prefix ''roles/'' s then param_value roles ''/v1/users/roles/:id'' (drop (length ''roles/'') s)
          else if strict_prefix ''disable/'' s then param_value disable ''/v1/users/disable/:id'' (drop (length ''disable/'') s)
          else param_value one ''/v1/users/:id'' s)" if s: "s \<noteq> []"
  proof -
    consider (r) "hd s = CHR ''r''" | (d) "hd s = CHR ''d''" | (other) "hd s \<noteq> CHR ''r''" "hd s \<noteq> CHR ''d''" by blast
    then show ?thesis
    proof cases
      case r
      have "get_value (put_tree one roles disable) (users_path @ s) [] [] 0 = get_value (put_child ''roles'' roles) s [] [?sk s] 0"
        using r s by (subst get_value.simps) (simp add: strict_prefix_def put_tree_def push_skipped_def)
      moreover have "\<not> strict_prefix ''disable/'' s" using r by (cases s) (auto simp: strict_prefix_def)
      ultimately show ?thesis using put_child_search [of "''roles''" s "?sk s" one roles disable roles] r s by simp
    next
      case d
      have "get_value (put_tree one roles disable) (users_path @ s) [] [] 0 = get_value (put_child ''disable'' disable) s [] [?sk s] 0"
        using d s by (subst get_value.simps) (simp add: strict_prefix_def put_tree_def push_skipped_def)
      moreover have "\<not> strict_prefix ''roles/'' s" using d by (cases s) (auto simp: strict_prefix_def)
      ultimately show ?thesis using put_child_search [of "''disable''" s "?sk s" one roles disable disable] d s by simp
    next
      case other
      moreover from this have "\<not> strict_prefix ''roles/'' s" "\<not> strict_prefix ''disable/'' s"
        by (cases s; auto simp: strict_prefix_def)+
      ultimately show ?thesis
        using param_child [of "put_tree one roles disable" one "''/v1/users/:id''" s "[]" 0] s by (simp add: put_tree_def)
    qed
  qed
qed

section \<open>The reference in closed form\<close>

lemma split_cases:
  obtains "c \<notin> set s" "split_on c s = [s]"
  | v t where "s = v @ c # t" "c \<notin> set v" "split_on c s = v # split_on c t"
proof (cases "c \<in> set s")
  case True
  then obtain v t where "s = v @ c # t" "c \<notin> set v" by (meson split_list_first)
  then show ?thesis using that(2) by (simp add: split_on_append_sep)
next
  case False
  then show ?thesis using that(1) by (simp add: split_on_no_sep)
qed

lemma first_segment_of [simp]: "c \<notin> set v \<Longrightarrow> takeWhile (\<lambda>x. x \<noteq> c) (v @ c # t) = v"
  by (induction v) auto

lemma match_end [simp]: "match_path [] (split_on c s) = None"
  by (cases "split_on c s") auto

lemma split_users: "split_on CHR ''/'' (users_path @ s) = [] # ''v1'' # ''users'' # split_on CHR ''/'' s"
  by simp

lemma match_below_users:
  assumes "ps \<noteq> []"
  shows "match_path (Lit [] # Lit ''v1'' # Lit ''users'' # ps) (split_on CHR ''/'' p) =
    (if prefix users_path p then match_path ps (split_on CHR ''/'' (drop (length users_path) p)) else None)"
proof (cases "prefix users_path p")
  case True
  then obtain s where "p = users_path @ s" by (auto simp: prefix_def)
  then show ?thesis using split_users [of s] by simp
next
  case False
  have "match_path (Lit [] # Lit ''v1'' # Lit ''users'' # ps) ss = None" if "ss = split_on CHR ''/'' p" for ss
  proof (rule ccontr)
    assume "match_path (Lit [] # Lit ''v1'' # Lit ''users'' # ps) ss \<noteq> None"
    then obtain x xs where "ss = [] # ''v1'' # ''users'' # x # xs"
      using assms by (cases ps; cases ss; cases "tl ss"; cases "tl (tl ss)"; cases "tl (tl (tl ss))") (auto split: if_splits)
    then have "p = users_path @ join ''/'' (x # xs)"
      using join_split_on [of "CHR ''/''" p] that by (simp add: join_Cons)
    then show False using False by simp
  qed
  then show ?thesis using False by simp
qed

lemma match_literal: "CHR ''/'' \<notin> set l \<Longrightarrow> match_path [Lit l] (split_on CHR ''/'' s) = (if s = l then Some [] else None)"
  by (cases rule: split_cases [of "CHR ''/''" s]) auto

lemma match_param:
  "match_path [Par x] (split_on CHR ''/'' s) = (if s \<noteq> [] \<and> CHR ''/'' \<notin> set s then Some [(x, s)] else None)"
  by (cases rule: split_cases [of "CHR ''/''" s]) auto

lemma match_literal_param:
  assumes "CHR ''/'' \<notin> set l"
  shows "match_path [Lit l, Par x] (split_on CHR ''/'' s) =
    (if strict_prefix (l @ ''/'') s \<and> CHR ''/'' \<notin> set (drop (length l + 1) s) then Some [(x, drop (length l + 1) s)] else None)"
proof (cases rule: split_cases [of "CHR ''/''" s])
  case 1
  then have "\<not> strict_prefix (l @ ''/'') s" by (auto simp: strict_prefix_def prefix_def)
  then show ?thesis using 1 by simp
next
  case (2 v t)
  show ?thesis
  proof (cases "l = v")
    case True
    then show ?thesis using 2 match_param [of x t] by (auto simp: strict_prefix_def)
  next
    case False
    have "\<not> strict_prefix (l @ ''/'') s"
    proof
      assume "strict_prefix (l @ ''/'') s"
      then obtain r where "s = l @ CHR ''/'' # r" by (auto simp: strict_prefix_def prefix_def)
      then have "takeWhile (\<lambda>x. x \<noteq> CHR ''/'') s = l" using assms by simp
      then show False using 2(1,2) False by simp
    qed
    then show ?thesis using 2(3) False by simp
  qed
qed

lemma param_value_cases:
  "param_value h full s =
     (if CHR ''/'' \<notin> set s then found h [(''id'', s)] full
      else no_value [(''id'', takeWhile (\<lambda>c. c \<noteq> CHR ''/'') s)] (\<exists>v. s = v @ ''/'' \<and> CHR ''/'' \<notin> set v))"
proof (cases "CHR ''/'' \<in> set s")
  case True
  then obtain v t where s: "s = v @ CHR ''/'' # t" "CHR ''/'' \<notin> set v" by (meson split_list_first)
  then have val: "takeWhile (\<lambda>c. c \<noteq> CHR ''/'') s = v" by (simp only: first_segment_of not_False_eq_True)
  have "(\<exists>v. s = v @ ''/'' \<and> CHR ''/'' \<notin> set v) \<longleftrightarrow> t = []"
  proof
    assume "\<exists>v. s = v @ ''/'' \<and> CHR ''/'' \<notin> set v"
    then obtain w where w: "s = w @ ''/''" "CHR ''/'' \<notin> set w" by blast
    then have "takeWhile (\<lambda>c. c \<noteq> CHR ''/'') s = w" by simp
    then show "t = []" using val w s by simp
  qed (use s in auto)
  then show ?thesis using True s val by (simp add: param_value_def Let_def)
next
  case False
  then have "takeWhile (\<lambda>c. c \<noteq> CHR ''/'') s = s" by (auto simp: takeWhile_eq_all_conv)
  then show ?thesis using False unfolding param_value_def Let_def by (simp only: less_irrefl if_False not_False_eq_True if_True)
qed

section \<open>The search finds the best route\<close>

definition service_trees ::
  "'h \<Rightarrow> 'h \<Rightarrow> 'h \<Rightarrow> 'h \<Rightarrow> 'h \<Rightarrow> 'h \<Rightarrow> 'h \<Rightarrow> 'h \<Rightarrow> (string \<times> 'h node) list" where
  "service_trees create login all one delete update roles disable =
     [(''POST'', post_tree create login), (''GET'', get_tree all one), (''DELETE'', delete_tree delete),
      (''PUT'', put_tree update roles disable)]"

lemma service_routes:
  assumes "en_trees E = service_trees create login all one delete update roles disable"
  shows "en_routes E =
    [\<lparr>rt_method = ''POST'', rt_path = users_path, rt_handlers = create\<rparr>,
     \<lparr>rt_method = ''POST'', rt_path = ''/v1/users/login'', rt_handlers = login\<rparr>,
     \<lparr>rt_method = ''GET'', rt_path = users_path, rt_handlers = all\<rparr>,
     \<lparr>rt_method = ''GET'', rt_path = ''/v1/users/:id'', rt_handlers = one\<rparr>,
     \<lparr>rt_method = ''DELETE'', rt_path = ''/v1/users/:id'', rt_handlers = delete\<rparr>,
     \<lparr>rt_method = ''PUT'', rt_path = ''/v1/users/roles/:id'', rt_handlers = roles\<rparr>,
     \<lparr>rt_method = ''PUT'', rt_path = ''/v1/users/disable/:id'', rt_handlers = disable\<rparr>,
     \<lparr>rt_method = ''PUT'', rt_path = ''/v1/users/:id'', rt_handlers = update\<rparr>]"
  by (simp add: en_routes_def assms service_trees_def post_tree_def get_tree_def delete_tree_def put_tree_def put_child_def)

lemma route_patterns [simp]:
  "pattern_of ''/v1/users/'' = [Lit [], Lit ''v1'', Lit ''users'', Lit []]"
  "pattern_of ''/v1/users/:id'' = [Lit [], Lit ''v1'', Lit ''users'', Par ''id'']"
  "pattern_of ''/v1/users/roles/:id'' = [Lit [], Lit ''v1'', Lit ''users'', Lit ''roles'', Par ''id'']"
  "pattern_of ''/v1/users/disable/:id'' = [Lit [], Lit ''v1'', Lit ''users'', Lit ''disable'', Par ''id'']"
  "pattern_of ''/v1/users/login'' = [Lit [], Lit ''v1'', Lit ''users'', Lit ''login'']"
  by (simp_all add: pattern_of_def seg_of_def)

lemmas match_users = match_below_users match_literal match_param match_literal_param

lemma service_find:
  assumes "en_trees E = service_trees create login all one delete update roles disable"
  shows "\<not> prefix users_path p \<Longrightarrow> find_route E m p = None"
    and "find_route E ''POST'' (users_path @ s) =
      (if s = [] then Some (\<lparr>rt_method = ''POST'', rt_path = users_path, rt_handlers = create\<rparr>, [])
       else if s = ''login'' then Some (\<lparr>rt_method = ''POST'', rt_path = ''/v1/users/login'', rt_handlers = login\<rparr>, [])
       else None)"
    and "find_route E ''GET'' (users_path @ s) =
      (if s = [] then Some (\<lparr>rt_method = ''GET'', rt_path = users_path, rt_handlers = all\<rparr>, [])
       else if CHR ''/'' \<notin> set s then Some (\<lparr>rt_method = ''GET'', rt_path = ''/v1/users/:id'', rt_handlers = one\<rparr>, [(''id'', s)])
       else None)"
    and "find_route E ''DELETE'' (users_path @ s) =
      (if s \<noteq> [] \<and> CHR ''/'' \<notin> set s
       then Some (\<lparr>rt_method = ''DELETE'', rt_path = ''/v1/users/:id'', rt_handlers = delete\<rparr>, [(''id'', s)]) else None)"
    and "find_route E ''PUT'' (users_path @ s) =
      (if strict_prefix ''roles/'' s \<and> CHR ''/'' \<notin> set (drop (length ''roles/'') s)
       then Some (\<lparr>rt_method = ''PUT'', rt_path = ''/v1/users/roles/:id'', rt_handlers = roles\<rparr>, [(''id'', drop (length ''roles/'') s)])
       else if strict_prefix ''disable/'' s \<and> CHR ''/'' \<notin> set (drop (length ''disable/'') s)
       then Some (\<lparr>rt_method = ''PUT'', rt_path = ''/v1/users/disable/:id'', rt_handlers = disable\<rparr>, [(''id'', drop (length ''disable/'') s)])
       else if s \<noteq> [] \<and> CHR ''/'' \<notin> set s
       then Some (\<lparr>rt_method = ''PUT'', rt_path = ''/v1/users/:id'', rt_handlers = update\<rparr>, [(''id'', s)]) else None)"
    and "m \<notin> {''POST'', ''GET'', ''DELETE'', ''PUT''} \<Longrightarrow> find_route E m p = None"
proof -
  note find = find_route_def service_routes [OF assms]
  show "find_route E m p = None" if "\<not> prefix users_path p"
  proof (rule ccontr)
    assume "find_route E m p \<noteq> None"
    then obtain r ps where r: "best_route (en_routes E) m (split_on CHR ''/'' p) = Some (r, ps)"
      by (auto simp: find_route_def)
    show False using best_route_in [OF r] that by (auto simp: service_routes [OF assms] match_users)
  qed
  show "find_route E ''POST'' (users_path @ s) =
      (if s = [] then Some (\<lparr>rt_method = ''POST'', rt_path = users_path, rt_handlers = create\<rparr>, [])
       else if s = ''login'' then Some (\<lparr>rt_method = ''POST'', rt_path = ''/v1/users/login'', rt_handlers = login\<rparr>, [])
       else None)"
    by (simp add: find match_users)
  show "find_route E ''GET'' (users_path @ s) =
      (if s = [] then Some (\<lparr>rt_method = ''GET'', rt_path = users_path, rt_handlers = all\<rparr>, [])
       else if CHR ''/'' \<notin> set s then Some (\<lparr>rt_method = ''GET'', rt_path = ''/v1/users/:id'', rt_handlers = one\<rparr>, [(''id'', s)])
       else None)"
    by (simp add: find match_users)
  show "find_route E ''DELETE'' (users_path @ s) =
      (if s \<noteq> [] \<and> CHR ''/'' \<notin> set s
       then Some (\<lparr>rt_method = ''DELETE'', rt_path = ''/v1/users/:id'', rt_handlers = delete\<rparr>, [(''id'', s)]) else None)"
    by (simp add: find match_users)
  show "find_route E ''PUT'' (users_path @ s) =
      (if strict_prefix ''roles/'' s \<and> CHR ''/'' \<notin> set (drop (length ''roles/'') s)
       then Some (\<lparr>rt_method = ''PUT'', rt_path = ''/v1/users/roles/:id'', rt_handlers = roles\<rparr>, [(''id'', drop (length ''roles/'') s)])
       else if strict_prefix ''disable/'' s \<and> CHR ''/'' \<notin> set (drop (length ''disable/'') s)
       then Some (\<lparr>rt_method = ''PUT'', rt_path = ''/v1/users/disable/:id'', rt_handlers = disable\<rparr>, [(''id'', drop (length ''disable/'') s)])
       else if s \<noteq> [] \<and> CHR ''/'' \<notin> set s
       then Some (\<lparr>rt_method = ''PUT'', rt_path = ''/v1/users/:id'', rt_handlers = update\<rparr>, [(''id'', s)]) else None)"
    by (simp add: find match_users)
  show "find_route E m p = None" if "m \<notin> {''POST'', ''GET'', ''DELETE'', ''PUT''}"
  proof (rule ccontr)
    assume "find_route E m p \<noteq> None"
    then obtain r ps where "find_route E m p = Some (r, ps)" by auto
    from find_route_in [OF this] show False using that by (auto simp: service_routes [OF assms])
  qed
qed

text \<open>What is found is the best route with its parameters, and nothing is missed.\<close>

definition as_route :: "string \<Rightarrow> ('v, 'g) handler list node_value \<Rightarrow> (('v, 'g) route \<times> (string \<times> string) list) option" where
  "as_route m v = map_option (\<lambda>hs. (\<lparr>rt_method = m, rt_path = nv_full v, rt_handlers = hs\<rparr>, nv_params v)) (nv_handlers v)"

lemma as_route_simps [simp]:
  "as_route m (found hs ps full) = Some (\<lparr>rt_method = m, rt_path = full, rt_handlers = hs\<rparr>, ps)"
  "as_route m (no_value ps tsr) = None"
  by (simp_all add: as_route_def found_def no_value_def)

lemma nv_tsr_simps [simp]: "nv_tsr (no_value ps tsr) = tsr" "\<not> nv_tsr (found hs ps full)"
  by (simp_all add: no_value_def found_def)

lemma search_is_best:
  assumes "en_trees E = service_trees create login all one delete update roles disable"
  shows "(case map_of (en_trees E) m of
      None \<Rightarrow> find_route E m p = None
    | Some t \<Rightarrow> \<exists>v. get_value t p [] [] 0 = Inr v \<and> find_route E m p = as_route m v)"
proof -
  note find = service_find [OF assms]
  note group = find(2-5) [where s = "[]", unfolded append_Nil2]
  note trees = assms service_trees_def
  consider "m = ''POST''" | "m = ''GET''" | "m = ''DELETE''" | "m = ''PUT''" | "m \<notin> {''POST'', ''GET'', ''DELETE'', ''PUT''}"
    by blast
  then show ?thesis
  proof cases
    case 1
    have "\<exists>v. get_value (post_tree create login) p [] [] 0 = Inr v \<and> find_route E ''POST'' p = as_route ''POST'' v"
    proof (cases rule: users_path_cases [of p])
      case 1
      then show ?thesis unfolding 1 post_tree_search(1) group(1) by simp
    next
      case (2 s)
      then show ?thesis unfolding 2(1) post_tree_search(2) [OF 2(2)] find(2) by auto
    next
      case 3
      then show ?thesis unfolding post_tree_search(3) [OF 3] find(1) [OF 3] by simp
    qed
    then show ?thesis using 1 by (simp add: trees)
  next
    case 2
    have "\<exists>v. get_value (get_tree all one) p [] [] 0 = Inr v \<and> find_route E ''GET'' p = as_route ''GET'' v"
    proof (cases rule: users_path_cases [of p])
      case 1
      then show ?thesis unfolding 1 get_tree_search(1) group(2) by simp
    next
      case (2 s)
      then show ?thesis unfolding 2(1) get_tree_search(2) [OF 2(2)] find(3) param_value_cases by auto
    next
      case 3
      then show ?thesis unfolding get_tree_search(3) [OF 3] find(1) [OF 3] by simp
    qed
    then show ?thesis using 2 by (simp add: trees)
  next
    case 3
    have "\<exists>v. get_value (delete_tree delete) p [] [] 0 = Inr v \<and> find_route E ''DELETE'' p = as_route ''DELETE'' v"
    proof (cases rule: users_path_cases [of p])
      case 1
      then show ?thesis unfolding 1 delete_tree_search(1) group(3) by simp
    next
      case (2 s)
      then show ?thesis unfolding 2(1) delete_tree_search(2) [OF 2(2)] find(4) param_value_cases by auto
    next
      case 3
      then show ?thesis unfolding delete_tree_search(3) [OF 3] find(1) [OF 3] by simp
    qed
    then show ?thesis using 3 by (simp add: trees)
  next
    case 4
    have "\<exists>v. get_value (put_tree update roles disable) p [] [] 0 = Inr v \<and> find_route E ''PUT'' p = as_route ''PUT'' v"
    proof (cases rule: users_path_cases [of p])
      case 1
      then show ?thesis unfolding 1 put_tree_search(1) group(4) by simp
    next
      case (2 s)
      have "CHR ''/'' \<in> set s" if "strict_prefix ''roles/'' s \<or> strict_prefix ''disable/'' s"
        using that by (auto simp: strict_prefix_def prefix_def)
      moreover have "\<not> strict_prefix ''disable/'' s" if "strict_prefix ''roles/'' s"
        using that by (auto simp: strict_prefix_def prefix_def)
      ultimately show ?thesis unfolding 2(1) put_tree_search(2) [OF 2(2)] find(5) param_value_cases using 2(2) by auto
    next
      case 3
      then show ?thesis unfolding put_tree_search(3) [OF 3] find(1) [OF 3] by simp
    qed
    then show ?thesis using 4 by (simp add: trees)
  next
    case 5
    then show ?thesis using find(6) by (auto simp: trees)
  qed
qed

end
