(* ===== verification/RouteRedirects.thy ===== *)
theory RouteRedirects
  imports RouteTrees
begin

text \<open>
  The redirection: a path without a route is recommended to be changed exactly when the path with or
  without its last slash has one, and besides for an empty parameter before a last slash.
\<close>

lemma other_slash_below:
  "s \<noteq> [] \<Longrightarrow> other_slash (users_path @ s) = users_path @ (if last s = CHR ''/'' then butlast s else s @ ''/'')"
  by (simp add: other_slash_def butlast_append)

lemma other_slash_group: "other_slash users_path = ''/v1/users''"
  by (simp add: other_slash_def)

lemma other_slash_outside:
  assumes "\<not> prefix users_path p" "prefix users_path (other_slash p)"
  shows "p = ''/v1/users''"
proof -
  have "\<not> prefix users_path (butlast p)" 
    using assms(1) prefix_order.trans [OF _ prefixeq_butlast] by blast
  then have "prefix users_path (p @ ''/'')" using assms(2) by (auto simp: other_slash_def split: if_splits)
  then have "users_path = p @ ''/''" using assms(1) prefix_snoc [of users_path p "CHR ''/''"] by blast
  then have "butlast users_path = butlast (p @ ''/'')" by (rule arg_cong)
  then show ?thesis unfolding butlast_snoc by simp
qed

lemma ends_slash_iff: "(\<exists>v. s = v @ [c] \<and> c \<notin> set v) \<longleftrightarrow> s \<noteq> [] \<and> last s = c \<and> c \<notin> set (butlast s)"
  by (metis append_butlast_last_id butlast_snoc last_snoc snoc_eq_iff_butlast)

lemma param_value_tsr:
  "nv_tsr (param_value h full s) \<longleftrightarrow> s \<noteq> [] \<and> last s = CHR ''/'' \<and> CHR ''/'' \<notin> set (butlast s)"
  "nv_handlers (param_value h full s) = None \<longleftrightarrow> CHR ''/'' \<in> set s"
proof -
  have "s = []" if "last s = CHR ''/''" "CHR ''/'' \<notin> set s" using that by (metis last_in_set)
  then show "nv_tsr (param_value h full s) \<longleftrightarrow> s \<noteq> [] \<and> last s = CHR ''/'' \<and> CHR ''/'' \<notin> set (butlast s)"
    by (auto simp: param_value_cases ends_slash_iff)
  show "nv_handlers (param_value h full s) = None \<longleftrightarrow> CHR ''/'' \<in> set s"
    by (simp add: param_value_cases found_def no_value_def)
qed

definition double_slash :: "string \<Rightarrow> string \<Rightarrow> bool" where
  "double_slash m p \<longleftrightarrow>
     (m \<in> {''DELETE'', ''PUT''} \<and> p = ''/v1/users//'') \<or>
     (m = ''PUT'' \<and> p \<in> {''/v1/users/roles//'', ''/v1/users/disable//''})"

text \<open>The paths without a route for which another one is recommended.\<close>

definition recommended :: "('v, 'g) engine \<Rightarrow> string \<Rightarrow> string \<Rightarrow> bool" where
  "recommended E m p \<longleftrightarrow> find_route E m (other_slash p) \<noteq> None \<or> double_slash m p"

lemma find_other:
  assumes "en_trees E = service_trees create login all one delete update roles disable" "s \<noteq> []" "CHR ''/'' \<in> set s"
  shows "find_route E ''GET'' (other_slash (users_path @ s)) \<noteq> None \<longleftrightarrow> last s = CHR ''/'' \<and> CHR ''/'' \<notin> set (butlast s)"
    and "find_route E ''DELETE'' (other_slash (users_path @ s)) \<noteq> None \<longleftrightarrow>
      last s = CHR ''/'' \<and> CHR ''/'' \<notin> set (butlast s) \<and> s \<noteq> ''/''"
    and "find_route E ''POST'' (other_slash (users_path @ s)) \<noteq> None \<longleftrightarrow> s = ''/'' \<or> s = ''login/''"
proof -
  note find = service_find [OF assms(1)]
  have one: "butlast s = [] \<longleftrightarrow> s = ''/''" if "last s = CHR ''/''"
    using that assms(2) by (metis append_butlast_last_id append_Nil butlast.simps(2))
  show "find_route E ''GET'' (other_slash (users_path @ s)) \<noteq> None \<longleftrightarrow> last s = CHR ''/'' \<and> CHR ''/'' \<notin> set (butlast s)"
    unfolding other_slash_below [OF assms(2)] find(3) by auto
  show "find_route E ''DELETE'' (other_slash (users_path @ s)) \<noteq> None \<longleftrightarrow>
      last s = CHR ''/'' \<and> CHR ''/'' \<notin> set (butlast s) \<and> s \<noteq> ''/''"
    unfolding other_slash_below [OF assms(2)] find(4) using one by auto
  have login: "butlast s = ''login'' \<longleftrightarrow> s = ''login/''" if "last s = CHR ''/''"
    using append_butlast_last_id [OF assms(2)] that by auto
  have "s @ ''/'' \<noteq> ''login''" by (auto dest: arg_cong [where f = last])
  then show "find_route E ''POST'' (other_slash (users_path @ s)) \<noteq> None \<longleftrightarrow> s = ''/'' \<or> s = ''login/''"
    unfolding other_slash_below [OF assms(2)] find(2) using one login by auto
qed

lemma choice_first:
  "\<not> B \<Longrightarrow> C \<Longrightarrow>
     (if A then Some x else if B \<and> Q then Some y else if R \<and> \<not> C then Some z else None) \<noteq> None \<longleftrightarrow> A"
  by simp

lemma choice_second:
  "\<not> A \<Longrightarrow> C \<Longrightarrow>
     (if A \<and> P then Some x else if B then Some y else if R \<and> \<not> C then Some z else None) \<noteq> None \<longleftrightarrow> B"
  by simp

lemma two_slashes: "CHR ''/'' \<in> set s \<Longrightarrow> CHR ''/'' \<notin> set l \<Longrightarrow> s @ ''/'' \<noteq> l @ ''/''"
  by auto

lemma find_other_put:
  assumes "en_trees E = service_trees create login all one delete update roles disable"
  shows "lit \<in> {''roles'', ''disable''} \<Longrightarrow> r \<noteq> [] \<Longrightarrow>
      find_route E ''PUT'' (other_slash (users_path @ lit @ ''/'' @ r)) \<noteq> None \<longleftrightarrow>
        last r = CHR ''/'' \<and> CHR ''/'' \<notin> set (butlast r) \<and> r \<noteq> ''/''"
    and "CHR ''/'' \<in> set s \<Longrightarrow> \<not> strict_prefix ''roles/'' s \<Longrightarrow> \<not> strict_prefix ''disable/'' s \<Longrightarrow>
      find_route E ''PUT'' (other_slash (users_path @ s)) \<noteq> None \<longleftrightarrow>
        last s = CHR ''/'' \<and> CHR ''/'' \<notin> set (butlast s) \<and> s \<noteq> ''/''"
proof -
  note find = service_find [OF assms(1)]
  have one: "butlast r = [] \<longleftrightarrow> r = ''/''" if "last r = CHR ''/''" "r \<noteq> []" for r
    using that by (metis append_butlast_last_id append_Nil butlast.simps(2))
  have below: "find_route E ''PUT'' (users_path @ lit @ ''/'' @ t) \<noteq> None \<longleftrightarrow> t \<noteq> [] \<and> CHR ''/'' \<notin> set t"
    if lit: "lit \<in> {''roles'', ''disable''}" for lit t
  proof -
    have slash: "CHR ''/'' \<in> set (lit @ ''/'' @ t)" by simp
    have fits: "strict_prefix ''roles/'' (''roles'' @ ''/'' @ t) \<longleftrightarrow> t \<noteq> []" "strict_prefix ''disable/'' (''disable'' @ ''/'' @ t) \<longleftrightarrow> t \<noteq> []"
      "\<not> strict_prefix ''disable/'' (''roles'' @ ''/'' @ t)" "\<not> strict_prefix ''roles/'' (''disable'' @ ''/'' @ t)"
      "drop (length ''roles/'') (''roles'' @ ''/'' @ t) = t" "drop (length ''disable/'') (''disable'' @ ''/'' @ t) = t"
      by (auto simp: strict_prefix_def)
    from lit consider "lit = ''roles''" | "lit = ''disable''" by blast
    then show ?thesis
    proof cases
      case 1
      show ?thesis unfolding 1 find(5) fits(1,5) by (rule choice_first [OF fits(3) slash [unfolded 1]])
    next
      case 2
      show ?thesis unfolding 2 find(5) fits(2,6) by (rule choice_second [OF fits(4) slash [unfolded 2]])
    qed
  qed
  show "find_route E ''PUT'' (other_slash (users_path @ lit @ ''/'' @ r)) \<noteq> None \<longleftrightarrow>
        last r = CHR ''/'' \<and> CHR ''/'' \<notin> set (butlast r) \<and> r \<noteq> ''/''" if lit: "lit \<in> {''roles'', ''disable''}" and r: "r \<noteq> []"
  proof -
    have eq: "other_slash (users_path @ lit @ ''/'' @ r) =
        users_path @ lit @ ''/'' @ (if last r = CHR ''/'' then butlast r else r @ ''/'')"
    proof -
      have ne: "lit @ ''/'' @ r \<noteq> []" and l: "last (lit @ ''/'' @ r) = last r" and b: "butlast (lit @ ''/'' @ r) = lit @ ''/'' @ butlast r"
        using r by (simp_all add: butlast_append)
      show ?thesis unfolding other_slash_below [OF ne] l b by (cases "last r = CHR ''/''") (simp_all only: if_True if_False append_assoc refl)
    qed
    show ?thesis
    proof (cases "last r = CHR ''/''")
      case True
      then show ?thesis using one [OF True r] unfolding below [OF lit] eq if_P [OF True] by blast
    next
      case False
      have "CHR ''/'' \<in> set (r @ ''/'')" by simp
      then have "find_route E ''PUT'' (users_path @ lit @ ''/'' @ r @ ''/'') = None" using below [OF lit, of "r @ ''/''"] by blast
      then show ?thesis using False unfolding eq if_not_P [OF False] by blast
    qed
  qed
  show "find_route E ''PUT'' (other_slash (users_path @ s)) \<noteq> None \<longleftrightarrow>
        last s = CHR ''/'' \<and> CHR ''/'' \<notin> set (butlast s) \<and> s \<noteq> ''/''"
    if s: "CHR ''/'' \<in> set s" and no: "\<not> strict_prefix ''roles/'' s" "\<not> strict_prefix ''disable/'' s"
  proof -
    have ne: "s \<noteq> []" using s by auto
    show ?thesis
    proof (cases "last s = CHR ''/''")
      case True
      have "\<not> strict_prefix l (butlast s)" if "\<not> strict_prefix l s" for l
        using that prefixeq_butlast [of s] by (metis prefix_order.less_le_trans)
      then have "\<not> strict_prefix ''roles/'' (butlast s)" "\<not> strict_prefix ''disable/'' (butlast s)" using no by blast+
      then show ?thesis using True one [OF True ne] unfolding other_slash_below [OF ne] find(5) by auto
    next
      case False
      have "\<not> strict_prefix l (s @ ''/'')" if "\<not> strict_prefix l s" "last l = CHR ''/''" "s @ ''/'' \<noteq> l" for l
        using that False prefix_snoc [of l s "CHR ''/''"] by (auto simp: strict_prefix_def)
      moreover have "s @ ''/'' \<noteq> ''roles/''" "s @ ''/'' \<noteq> ''disable/''"
        using two_slashes [OF s, of "''roles''"] two_slashes [OF s, of "''disable''"] by simp_all
      ultimately have "\<not> strict_prefix ''roles/'' (s @ ''/'')" "\<not> strict_prefix ''disable/'' (s @ ''/'')" using no by simp_all
      then show ?thesis using False unfolding other_slash_below [OF ne] find(5) by auto
    qed
  qed
qed

lemma other_post:
  assumes "en_trees E = service_trees create login all one delete update roles disable" "s \<noteq> []" "s \<noteq> ''login''"
  shows "find_route E ''POST'' (other_slash (users_path @ s)) \<noteq> None \<longleftrightarrow> s = ''/'' \<or> s = ''login/''"
proof (cases "CHR ''/'' \<in> set s")
  case True
  then show ?thesis using find_other(3) [OF assms(1,2)] by blast
next
  case False
  then have "last s \<noteq> CHR ''/''" using assms(2) last_in_set by metis
  moreover have "s @ ''/'' \<noteq> ''login''" "s @ ''/'' \<noteq> []" by (auto dest: arg_cong [where f = last])
  ultimately have "find_route E ''POST'' (other_slash (users_path @ s)) = None"
    unfolding other_slash_below [OF assms(2)] service_find(2) [OF assms(1)] by simp
  then show ?thesis using False by auto
qed

lemma double_slash_post: "\<not> double_slash ''POST'' p"
  and double_slash_get: "\<not> double_slash ''GET'' p"
  by (simp_all add: double_slash_def)

lemma double_slash_delete: "double_slash ''DELETE'' (users_path @ s) \<longleftrightarrow> s = ''/''"
  by (simp add: double_slash_def)

lemma double_slash_put_lit:
  "l \<in> {''roles'', ''disable''} \<Longrightarrow> double_slash ''PUT'' (users_path @ l @ ''/'' @ r) \<longleftrightarrow> r = ''/''"
  by (auto simp: double_slash_def)

lemma double_slash_put:
  "\<not> strict_prefix ''roles/'' s \<Longrightarrow> \<not> strict_prefix ''disable/'' s \<Longrightarrow>
     double_slash ''PUT'' (users_path @ s) \<longleftrightarrow> s = ''/''"
  by (auto simp: double_slash_def)

lemma redirect_is_slash:
  assumes "en_trees E = service_trees create login all one delete update roles disable"
    and "map_of (en_trees E) m = Some t" "get_value t p [] [] 0 = Inr v" "find_route E m p = None"
  shows "nv_tsr v \<longleftrightarrow> p = ''/'' \<or> find_route E m (other_slash p) \<noteq> None \<or> double_slash m p"
proof -
  note find = service_find [OF assms(1)]
  note group = find(2-5) [where s = "[]", unfolded append_Nil2]
  have outside: "find_route E m (other_slash p) \<noteq> None \<longleftrightarrow> p = ''/v1/users'' \<and> find_route E m users_path \<noteq> None"
    if "\<not> prefix users_path p" for m
  proof (cases "p = ''/v1/users''")
    case True
    then show ?thesis by (simp add: other_slash_def)
  next
    case False
    then have "\<not> prefix users_path (other_slash p)" using other_slash_outside [OF that] by blast
    then have "find_route E m (other_slash p) = None" by (rule find(1))
    then show ?thesis using False by simp
  qed
  have at_group: "find_route E m (other_slash users_path) = None" for m
    unfolding other_slash_group by (rule find(1)) simp
  have dbl: "double_slash m p \<Longrightarrow> prefix users_path p" "\<not> double_slash m users_path" for m p by (auto simp: double_slash_def)
  have trees: "m = ''POST'' \<and> t = post_tree create login \<or> m = ''GET'' \<and> t = get_tree all one \<or>
      m = ''DELETE'' \<and> t = delete_tree delete \<or> m = ''PUT'' \<and> t = put_tree update roles disable"
    using assms(2) by (auto simp: assms(1) service_trees_def split: if_splits)
  show ?thesis
  proof (cases rule: users_path_cases [of p])
    case 1
    then have none: "find_route E m users_path = None" using assms(4) by simp
    have "get_value t users_path [] [] 0 = Inr (no_value [] False)"
      using trees
    proof (elim disjE conjE)
      assume "m = ''POST''"
      then show ?thesis using none group(1) by simp
    next
      assume "m = ''GET''"
      then show ?thesis using none group(2) by simp
    next
      assume "t = delete_tree delete"
      then show ?thesis by (simp only: delete_tree_search(1))
    next
      assume "t = put_tree update roles disable"
      then show ?thesis by (simp only: put_tree_search(1))
    qed
    then have "v = no_value [] False" using assms(3) unfolding 1 by simp
    then show ?thesis using at_group dbl(2) unfolding 1 by simp
  next
    case 3
    have p: "\<not> double_slash m p" using dbl(1) 3 by blast
    from trees show ?thesis
    proof (elim disjE conjE)
      assume m: "m = ''POST''" "t = post_tree create login"
      then have "v = no_value [] (p = ''/'' \<or> p = ''/v1/users'')" using assms(3) post_tree_search(3) [OF 3, of create login] m(2) by simp
      then show ?thesis using p m(1) unfolding outside [OF 3] m(1) group(1) by simp
    next
      assume m: "m = ''GET''" "t = get_tree all one"
      then have "v = no_value [] (p = ''/'' \<or> p = ''/v1/users'')" using assms(3) get_tree_search(3) [OF 3, of all one] m(2) by simp
      then show ?thesis using p m(1) unfolding outside [OF 3] m(1) group(2) by simp
    next
      assume m: "m = ''DELETE''" "t = delete_tree delete"
      then have "v = no_value [] (p = ''/'')" using assms(3) delete_tree_search(3) [OF 3, of delete] m(2) by simp
      then show ?thesis using p m(1) unfolding outside [OF 3] m(1) group(3) by simp
    next
      assume m: "m = ''PUT''" "t = put_tree update roles disable"
      then have "v = no_value [] (p = ''/'')" using assms(3) put_tree_search(3) [OF 3, of update roles disable] m(2) by simp
      then show ?thesis using p m(1) unfolding outside [OF 3] m(1) group(4) by simp
    qed
  next
    case (2 s)
    have not_root: "p \<noteq> ''/''" using 2(1) by simp
    from trees show ?thesis
    proof (elim disjE conjE)
      assume m: "m = ''POST''" "t = post_tree create login"
      then have s: "s \<noteq> ''login''" using assms(4) 2 unfolding 2(1) m(1) find(2) by auto
      then have "v = no_value [] (s = ''/'' \<or> s = ''login/'')"
        using assms(3) post_tree_search(2) [OF 2(2), of create login] unfolding 2(1) m(2) by simp
      moreover have "find_route E ''POST'' (other_slash p) \<noteq> None \<longleftrightarrow> s = ''/'' \<or> s = ''login/''"
        unfolding 2(1) by (rule other_post [OF assms(1) 2(2) s])
      ultimately show ?thesis using not_root m(1) by (simp add: double_slash_post)
    next
      assume m: "m = ''GET''" "t = get_tree all one"
      have slash: "CHR ''/'' \<in> set s" using assms(4) 2(2) unfolding 2(1) m(1) find(3) by (auto split: if_splits)
      have "v = param_value one ''/v1/users/:id'' s"
        using assms(3) get_tree_search(2) [OF 2(2), of all one] unfolding 2(1) m(2) by simp
      then show ?thesis using not_root unfolding m(1) 2(1) find_other(1) [OF assms(1) 2(2) slash]
        by (simp add: param_value_tsr(1) 2(2) double_slash_get)
    next
      assume m: "m = ''DELETE''" "t = delete_tree delete"
      have slash: "CHR ''/'' \<in> set s" using assms(4) 2(2) unfolding 2(1) m(1) find(4) by (auto split: if_splits)
      have "v = param_value delete ''/v1/users/:id'' s"
        using assms(3) delete_tree_search(2) [OF 2(2), of delete] unfolding 2(1) m(2) by simp
      then show ?thesis using not_root unfolding m(1) 2(1) find_other(2) [OF assms(1) 2(2) slash] double_slash_delete
        by (auto simp: param_value_tsr(1) 2(2))
    next
      assume m: "m = ''PUT''" "t = put_tree update roles disable"
      note v = put_tree_search(2) [OF 2(2), of update roles disable]
      have lit: "nv_tsr v \<longleftrightarrow> find_route E ''PUT'' (other_slash p) \<noteq> None \<or> double_slash ''PUT'' p"
        if l: "l \<in> {''roles'', ''disable''}" "s = l @ ''/'' @ r" "r \<noteq> []" "v = param_value h full r" for l r h full
        unfolding 2(1) l(2,4) find_other_put(1) [OF assms(1) l(1,3)] double_slash_put_lit [OF l(1)]
        by (auto simp: param_value_tsr(1) l(3))
      consider (roles) "strict_prefix ''roles/'' s" | (disable) "\<not> strict_prefix ''roles/'' s" "strict_prefix ''disable/'' s"
        | (other) "\<not> strict_prefix ''roles/'' s" "\<not> strict_prefix ''disable/'' s" by blast
      then show ?thesis
      proof cases
        case roles
        then obtain r where r: "s = ''roles'' @ ''/'' @ r" "r \<noteq> []" by (auto simp: strict_prefix_def prefix_def)
        have "v = param_value roles ''/v1/users/roles/:id'' (drop (length ''roles/'') s)"
          using assms(3) v roles unfolding 2(1) m(2) by simp
        then have "v = param_value roles ''/v1/users/roles/:id'' r" unfolding r(1) by simp
        then show ?thesis using lit [of "''roles''" r roles] r m(1) not_root by blast
      next
        case disable
        then obtain r where r: "s = ''disable'' @ ''/'' @ r" "r \<noteq> []" by (auto simp: strict_prefix_def prefix_def)
        have "v = param_value disable ''/v1/users/disable/:id'' (drop (length ''disable/'') s)"
          using assms(3) v disable unfolding 2(1) m(2) by simp
        then have "v = param_value disable ''/v1/users/disable/:id'' r" unfolding r(1) by simp
        then show ?thesis using lit [of "''disable''" r disable] r m(1) not_root by blast
      next
        case other
        have slash: "CHR ''/'' \<in> set s"
        proof (rule ccontr)
          assume "CHR ''/'' \<notin> set s"
          then show False using assms(4) 2(2) other unfolding 2(1) m(1) find(5) by simp
        qed
        have "v = param_value update ''/v1/users/:id'' s" using assms(3) v other unfolding 2(1) m(2) by simp
        then show ?thesis using not_root unfolding m(1) 2(1) find_other_put(2) [OF assms(1) slash other]
            double_slash_put [OF other] by (auto simp: param_value_tsr(1) 2(2))
      qed
    qed
  qed
qed

end
