(* ===== verification/Base64.thy ===== *)
theory Base64
  imports GoErrors
begin

text \<open>
  \<^verbatim>\<open>base64.RawURLEncoding\<close> of Go's standard library, as \<^verbatim>\<open>jwt.EncodeSegment\<close> and
  \<^verbatim>\<open>jwt.DecodeSegment\<close> use it (\<^verbatim>\<open>vendor/github.com/golang-jwt/jwt/v4/token.go\<close>): no padding, not strict,
  newlines skipped.
\<close>

definition b64_char :: "nat \<Rightarrow> char" where
  "b64_char n =
     char_of (if n < 26 then 65 + n else if n < 52 then 71 + n else if n < 62 then n - 4
              else if n = 62 then 45 else 95)"

definition b64_val :: "char \<Rightarrow> nat option" where
  "b64_val c =
     (let b = byte_of c in
      if 65 \<le> b \<and> b \<le> 90 then Some (b - 65)
      else if 97 \<le> b \<and> b \<le> 122 then Some (b - 71)
      else if 48 \<le> b \<and> b \<le> 57 then Some (b + 4)
      else if b = 45 then Some 62
      else if b = 95 then Some 63
      else None)"

fun b64_encode :: "string \<Rightarrow> string" where
  "b64_encode [] = []"
| "b64_encode [a] = (let x = byte_of a in [b64_char (x div 4), b64_char (x mod 4 * 16)])"
| "b64_encode [a, b] =
     (let x = byte_of a; y = byte_of b
      in [b64_char (x div 4), b64_char (x mod 4 * 16 + y div 16), b64_char (y mod 16 * 4)])"
| "b64_encode (a # b # c # s) =
     (let x = byte_of a; y = byte_of b; z = byte_of c
      in [b64_char (x div 4), b64_char (x mod 4 * 16 + y div 16), b64_char (y mod 16 * 4 + z div 64),
          b64_char (z mod 64)] @ b64_encode s)"

fun b64_vals :: "nat \<Rightarrow> string \<Rightarrow> nat list res" where
  "b64_vals i [] = Ok []"
| "b64_vals i (c # cs) =
     (if c = CHR 0x0A \<or> c = CHR 0x0D then b64_vals (Suc i) cs
      else case b64_val c of
             None \<Rightarrow> Err (ErrPlain (''illegal base64 data at input byte '' @ itoa (int i)))
           | Some v \<Rightarrow> (case b64_vals (Suc i) cs of Err e \<Rightarrow> Err e | Ok vs \<Rightarrow> Ok (v # vs)))"

fun b64_bytes :: "nat \<Rightarrow> nat list \<Rightarrow> string res" where
  "b64_bytes n [] = Ok []"
| "b64_bytes n [a] = Err (ErrPlain (''illegal base64 data at input byte '' @ itoa (int n - 1)))"
| "b64_bytes n [a, b] = Ok [char_of (a * 4 + b div 16)]"
| "b64_bytes n [a, b, c] = Ok [char_of (a * 4 + b div 16), char_of (b mod 16 * 16 + c div 4)]"
| "b64_bytes n (a # b # c # d # vs) =
     (case b64_bytes n vs of
        Err e \<Rightarrow> Err e
      | Ok s \<Rightarrow> Ok ([char_of (a * 4 + b div 16), char_of (b mod 16 * 16 + c div 4), char_of (c mod 4 * 64 + d)] @ s))"

definition b64_decode :: "string \<Rightarrow> string res" where
  "b64_decode s = (case b64_vals 0 s of Err e \<Rightarrow> Err e | Ok vs \<Rightarrow> b64_bytes (length s) vs)"

section \<open>Round trip\<close>

definition b64_digits :: "nat list \<Rightarrow> bool" where
  "b64_digits vs \<longleftrightarrow> list_all (\<lambda>v. v < 64) vs"

lemma byte_b64_char:
  "n < 64 \<Longrightarrow> byte_of (b64_char n) =
     (if n < 26 then 65 + n else if n < 52 then 71 + n else if n < 62 then n - 4
      else if n = 62 then 45 else 95)"
  by (simp add: b64_char_def)

lemma b64_char_val:
  assumes "n < 64"
  shows "b64_val (b64_char n) = Some n" "b64_char n \<noteq> CHR 0x0A" "b64_char n \<noteq> CHR 0x0D"
    "b64_char n \<noteq> CHR ''.''"
proof -
  show "b64_val (b64_char n) = Some n"
    using assms unfolding b64_val_def Let_def byte_b64_char [OF assms] by auto
  have "byte_of (b64_char n) \<notin> {10, 13, 46}"
    using assms by (auto simp: byte_b64_char)
  then show "b64_char n \<noteq> CHR 0x0A" "b64_char n \<noteq> CHR 0x0D" "b64_char n \<noteq> CHR ''.''"
    by auto
qed

lemma b64_vals_chars: "b64_digits vs \<Longrightarrow> b64_vals i (map b64_char vs) = Ok vs"
  by (induction vs arbitrary: i) (auto simp: b64_digits_def b64_char_val)

fun sextets :: "string \<Rightarrow> nat list" where
  "sextets [] = []"
| "sextets [a] = [byte_of a div 4, byte_of a mod 4 * 16]"
| "sextets [a, b] = [byte_of a div 4, byte_of a mod 4 * 16 + byte_of b div 16, byte_of b mod 16 * 4]"
| "sextets (a # b # c # s) =
     [byte_of a div 4, byte_of a mod 4 * 16 + byte_of b div 16, byte_of b mod 16 * 4 + byte_of c div 64,
      byte_of c mod 64] @ sextets s"

lemma byte_of_lt: "byte_of c < 256"
  by (rule nat_of_char_less_256)

lemma b64_encode_sextets: "b64_encode s = map b64_char (sextets s)"
  by (induction s rule: sextets.induct) (simp_all add: Let_def)

lemma sextet_lt:
  fixes x y :: nat
  assumes "x < 256" "y < 256"
  shows "x div 4 < 64" "x mod 4 * 16 < 64" "x mod 4 * 16 + y div 16 < 64" "x mod 16 * 4 < 64"
    "x mod 16 * 4 + y div 64 < 64" "x mod 64 < 64"
proof -
  have "x mod 4 < 4" "x mod 16 < 16" "y div 16 < 16" "y div 64 < 4" using assms by simp_all
  then show "x mod 4 * 16 < 64" "x mod 4 * 16 + y div 16 < 64" "x mod 16 * 4 < 64"
      "x mod 16 * 4 + y div 64 < 64"
    by linarith+
  show "x div 4 < 64" "x mod 64 < 64" using assms by simp_all
qed

lemma sextets_digits: "b64_digits (sextets s)"
proof (induction s rule: sextets.induct)
  case (4 a b c s)
  then show ?case
    using sextet_lt [OF byte_of_lt [of a] byte_of_lt [of b]] sextet_lt [OF byte_of_lt [of b] byte_of_lt [of c]]
      sextet_lt [OF byte_of_lt [of c] byte_of_lt [of c]]
    unfolding b64_digits_def by (simp only: sextets.simps list_all_append list.pred_inject simp_thms)
next
  case (3 a b)
  show ?case
    using sextet_lt [OF byte_of_lt [of a] byte_of_lt [of b]] sextet_lt [OF byte_of_lt [of b] byte_of_lt [of b]]
    unfolding b64_digits_def by (simp only: sextets.simps list.pred_inject simp_thms)
next
  case (2 a)
  show ?case
    using sextet_lt [OF byte_of_lt [of a] byte_of_lt [of a]]
    unfolding b64_digits_def by (simp only: sextets.simps list.pred_inject simp_thms)
qed (simp add: b64_digits_def)

lemma div_mod_sum:
  fixes p q m :: nat
  assumes "q < m"
  shows "(p * m + q) div m = p" "(p * m + q) mod m = q"
  using assms by simp_all

lemma sextet_bytes:
  fixes x y z :: nat
  assumes "x < 256" "y < 256" "z < 256"
  shows "x div 4 * 4 + (x mod 4 * 16 + y div 16) div 16 = x"
    and "(x mod 4 * 16 + y div 16) mod 16 * 16 + (y mod 16 * 4 + z div 64) div 4 = y"
    and "(y mod 16 * 4 + z div 64) mod 4 * 64 + z mod 64 = z"
proof -
  have y: "y div 16 < 16" and z: "z div 64 < 4" using assms by simp_all
  show "x div 4 * 4 + (x mod 4 * 16 + y div 16) div 16 = x"
    unfolding div_mod_sum(1) [OF y] by (rule div_mult_mod_eq)
  show "(x mod 4 * 16 + y div 16) mod 16 * 16 + (y mod 16 * 4 + z div 64) div 4 = y"
    unfolding div_mod_sum(2) [OF y] div_mod_sum(1) [OF z] by (rule div_mult_mod_eq)
  show "(y mod 16 * 4 + z div 64) mod 4 * 64 + z mod 64 = z"
    unfolding div_mod_sum(2) [OF z] by (rule div_mult_mod_eq)
qed

lemma b64_bytes_sextets: "b64_bytes n (sextets s) = Ok s"
proof (induction s rule: sextets.induct)
  case (2 a)
  have "byte_of a div 4 * 4 + byte_of a mod 4 * 16 div 16 = byte_of a" by simp
  then show ?case by (simp only: sextets.simps b64_bytes.simps char_of_char)
next
  case (3 a b)
  note s = sextet_bytes [OF byte_of_lt [of a] byte_of_lt [of b], of 0]
  have "b64_bytes n (sextets [a, b]) = Ok [char_of (byte_of a), char_of (byte_of b)]"
    using s by (simp only: sextets.simps b64_bytes.simps) simp
  then show ?case by simp
next
  case (4 a b c s)
  note s = sextet_bytes [OF byte_of_lt [of a] byte_of_lt [of b] byte_of_lt [of c]]
  show ?case
    unfolding sextets.simps append.simps b64_bytes.simps s 4 by simp
qed simp

lemma b64_decode_encode [simp]: "b64_decode (b64_encode s) = Ok s"
  by (simp add: b64_decode_def b64_encode_sextets b64_vals_chars sextets_digits b64_bytes_sextets)

lemma b64_encode_no_dot: "CHR ''.'' \<notin> set (b64_encode s)"
proof -
  have "\<forall>v \<in> set (sextets s). b64_char v \<noteq> CHR ''.''"
    using sextets_digits [of s] b64_char_val(4) unfolding b64_digits_def list_all_iff by blast
  then show ?thesis unfolding b64_encode_sextets by (auto dest: sym)
qed

lemma b64_encode_inj: "b64_encode s = b64_encode t \<Longrightarrow> s = t"
  by (metis b64_decode_encode Inr_inject)

end
