(* ===== verification/JsonDecode.thy ===== *)
theory JsonDecode
  imports Gin
begin

text \<open>
  How \<^verbatim>\<open>encoding/json\<close> stores a value into a struct. The members are taken in order; each goes to the
  field with its name, or else to one whose name is equal under case folding (of ASCII letters here),
  and is otherwise ignored. A value of the wrong type leaves its field alone; decoding goes on, and
  the first such error is returned at the end. \<open>null\<close> leaves strings and booleans alone and makes a
  slice or a pointer nil. A \<open>null\<close> inside an array is the zero value; the code keeps an element that an
  earlier member of the same name has left there, which is not modelled.
\<close>

type_synonym 'r field_dec = "json \<Rightarrow> 'r \<Rightarrow> 'r \<times> go_err option"

definition find_field :: "(string \<times> 'r field_dec) list \<Rightarrow> string \<Rightarrow> 'r field_dec option" where
  "find_field fs key =
     (case map_of fs key of
        Some d \<Rightarrow> Some d
      | None \<Rightarrow> map_option snd (find (\<lambda>p. equal_fold key (fst p)) fs))"

fun decode_members ::
  "(string \<times> 'r field_dec) list \<Rightarrow> (string \<times> json) list \<Rightarrow> 'r \<Rightarrow> go_err option \<Rightarrow> 'r \<times> go_err option" where
  "decode_members fs [] r e = (r, e)"
| "decode_members fs ((k, j) # ms) r e =
     (case find_field fs k of
        None \<Rightarrow> decode_members fs ms r e
      | Some d \<Rightarrow>
          (case d j r of
             (r, e') \<Rightarrow> decode_members fs ms r (case e of None \<Rightarrow> e' | Some x \<Rightarrow> Some x)))"

fun json_kind :: "json \<Rightarrow> string" where
  "json_kind JNull = ''null''"
| "json_kind (JBool b) = ''bool''"
| "json_kind (JNum n) = ''number''"
| "json_kind (JStr s) = ''string''"
| "json_kind (JArr js) = ''array''"
| "json_kind (JObj ms) = ''object''"

definition type_error :: "json \<Rightarrow> string \<Rightarrow> string \<Rightarrow> go_err" where
  "type_error j field ty = ErrPlain (''json: cannot unmarshal '' @ json_kind j @
     '' into Go struct field '' @ field @ '' of type '' @ ty)"

definition decode_struct ::
  "string \<Rightarrow> (string \<times> 'r field_dec) list \<Rightarrow> json \<Rightarrow> 'r \<Rightarrow> 'r \<times> go_err option" where
  "decode_struct name fs j r =
     (case j of
        JNull \<Rightarrow> (r, None)
      | JObj ms \<Rightarrow> decode_members fs ms r None
      | _ \<Rightarrow> (r, Some (ErrPlain (''json: cannot unmarshal '' @ json_kind j @
               '' into Go value of type '' @ name))))"

text \<open>The fields: a string, a \<^verbatim>\<open>*string\<close>, a \<^verbatim>\<open>*bool\<close>, a \<^verbatim>\<open>[]string\<close>.\<close>

definition dec_string :: "string \<Rightarrow> (string \<Rightarrow> 'r \<Rightarrow> 'r) \<Rightarrow> 'r field_dec" where
  "dec_string name upd j r =
     (case j of JStr s \<Rightarrow> (upd s r, None) | JNull \<Rightarrow> (r, None) | _ \<Rightarrow> (r, Some (type_error j name ''string'')))"

definition dec_string_ptr :: "string \<Rightarrow> (string option \<Rightarrow> 'r \<Rightarrow> 'r) \<Rightarrow> 'r field_dec" where
  "dec_string_ptr name upd j r =
     (case j of
        JStr s \<Rightarrow> (upd (Some s) r, None)
      | JNull \<Rightarrow> (upd None r, None)
      | _ \<Rightarrow> (r, Some (type_error j name ''string'')))"

definition dec_bool_ptr :: "string \<Rightarrow> (bool option \<Rightarrow> 'r \<Rightarrow> 'r) \<Rightarrow> 'r field_dec" where
  "dec_bool_ptr name upd j r =
     (case j of
        JBool b \<Rightarrow> (upd (Some b) r, None)
      | JNull \<Rightarrow> (upd None r, None)
      | _ \<Rightarrow> (r, Some (type_error j name ''bool'')))"

text \<open>A \<open>null\<close> element and an element of the wrong type become the empty string.\<close>

fun string_elems :: "string \<Rightarrow> json list \<Rightarrow> string list \<times> go_err option" where
  "string_elems name [] = ([], None)"
| "string_elems name (j # js) =
     (case string_elems name js of
        (ss, e) \<Rightarrow>
          (case j of
             JStr s \<Rightarrow> (s # ss, e)
           | JNull \<Rightarrow> ([] # ss, e)
           | _ \<Rightarrow> ([] # ss, Some (type_error j name ''string''))))"

definition dec_string_slice :: "string \<Rightarrow> (string list option \<Rightarrow> 'r \<Rightarrow> 'r) \<Rightarrow> 'r field_dec" where
  "dec_string_slice name upd j r =
     (case j of
        JArr js \<Rightarrow> (case string_elems name js of (ss, e) \<Rightarrow> (upd (Some ss) r, e))
      | JNull \<Rightarrow> (upd None r, None)
      | _ \<Rightarrow> (r, Some (type_error j name ''[]string'')))"

lemma find_field_simps [simp]:
  "find_field ((k, d) # fs) k = Some d"
  "map_of fs key = Some d \<Longrightarrow> find_field fs key = Some d"
  by (simp_all add: find_field_def)

lemma string_elems_strings [simp]: "string_elems name (map JStr ss) = (ss, None)"
  by (induction ss) auto

end
