(* ===== verification/Interleaving.thy ===== *)
theory Interleaving
  imports Prelude
begin

text \<open>
  Operations on a state that goroutines share, as sequences of atomic sections: what is done under one lock, or
  by one operation of \<^verbatim>\<open>sync/atomic\<close>. Between two sections of an operation others may do theirs. An operation
  that runs alone is \<open>run_prog\<close>; a pool of them takes turns, \<open>prog_turn\<close>.
\<close>

section \<open>Sequences of atomic sections\<close>

text \<open>A section replaces the state and goes on with what it has seen of the old one.\<close>

datatype ('s, 'r) prog = Return 'r | Atomic "'s \<Rightarrow> 's" "'s \<Rightarrow> ('s, 'r) prog"

primrec run_prog :: "('s, 'r) prog \<Rightarrow> 's \<Rightarrow> 'r \<times> 's" where
  "run_prog (Return r) = (\<lambda>s. (r, s))"
| "run_prog (Atomic u k) = (\<lambda>s. run_prog (k s) (u s))"

fun prog_step :: "('s, 'r) prog \<Rightarrow> 's \<Rightarrow> ('s, 'r) prog \<times> 's" where
  "prog_step (Return r) s = (Return r, s)"
| "prog_step (Atomic u k) s = (k s, u s)"

text \<open>Any operation of the pool does its next section.\<close>

inductive prog_turn :: "'s \<times> ('s, 'r) prog list \<Rightarrow> 's \<times> ('s, 'r) prog list \<Rightarrow> bool" where
  turn: "i < length ps \<Longrightarrow> prog_step (ps ! i) s = (p, s') \<Longrightarrow> prog_turn (s, ps) (s', ps[i := p])"

inductive_cases prog_turnE: "prog_turn (s, ps) t"

lemma run_map_prog [simp]: "run_prog (map_prog f p) s = map_prod f id (run_prog p s)"
  by (induction p arbitrary: s) simp_all

lemma prog_turn_at:
  "i < length ps \<Longrightarrow> ps ! i = Atomic u k \<Longrightarrow> prog_turn (s, ps) (u s, ps[i := k s])"
  by (rule prog_turn.turn) simp_all

text \<open>An operation of the pool may run to its end while the others wait.\<close>

lemma run_in_pool:
  assumes "i < length ps" "run_prog p s = (r, s')"
  shows "prog_turn\<^sup>*\<^sup>* (s, ps[i := p]) (s', ps[i := Return r])"
  using assms(2)
proof (induction p arbitrary: s)
  case (Return x)
  then show ?case by simp
next
  case (Atomic u k)
  have "prog_turn (s, ps[i := Atomic u k]) (u s, ps[i := k s])"
    using prog_turn_at [of i "ps[i := Atomic u k]" u k s] assms(1) by simp
  moreover have "prog_turn\<^sup>*\<^sup>* (u s, ps[i := k s]) (s', ps[i := Return r])"
    using Atomic.prems by (intro Atomic.IH [of "k s"]) simp_all
  ultimately show ?case by (rule converse_rtranclp_into_rtranclp)
qed

section \<open>Invariants\<close>

text \<open>
  \<open>keeps good grows Q p s\<close>: from any state that others may have made of \<open>s\<close>, every section of \<open>p\<close> keeps the
  invariant and goes forward in the order, and a result satisfies \<open>Q\<close> in the state in which it is given.
\<close>

primrec keeps ::
  "('s \<Rightarrow> bool) \<Rightarrow> ('s \<Rightarrow> 's \<Rightarrow> bool) \<Rightarrow> ('s \<Rightarrow> 'r \<Rightarrow> bool) \<Rightarrow> ('s, 'r) prog \<Rightarrow> 's \<Rightarrow> bool" where
  "keeps good grows Q (Return r) = (\<lambda>s. Q s r)"
| "keeps good grows Q (Atomic u k) =
     (\<lambda>s0. \<forall>s. good s \<longrightarrow> grows s0 s \<longrightarrow> good (u s) \<and> grows s (u s) \<and> keeps good grows Q (k s) (u s))"

locale shared_state =
  fixes good :: "'s \<Rightarrow> bool" and grows :: "'s \<Rightarrow> 's \<Rightarrow> bool"
  assumes grows_refl: "grows s s"
    and grows_trans: "grows s t \<Longrightarrow> grows t u \<Longrightarrow> grows s u"
begin

lemma keeps_later:
  assumes "\<And>s t r. grows s t \<Longrightarrow> Q s r \<Longrightarrow> Q t r" "keeps good grows Q p s" "grows s t"
  shows "keeps good grows Q p t"
  using assms by (cases p) (auto intro: grows_trans)

lemma keeps_step:
  assumes "keeps good grows Q p s" "good s" "prog_step p s = (p', s')"
  shows "good s' \<and> grows s s' \<and> keeps good grows Q p' s'"
  using assms by (cases p) (auto intro: grows_refl)

text \<open>Each operation of the pool has a promise of its own.\<close>

lemma turns_keep:
  assumes "prog_turn\<^sup>*\<^sup>* (s, ps) (s', ps')" "good s"
    and "\<And>i s t r. grows s t \<Longrightarrow> Q i s r \<Longrightarrow> Q i t r"
    and "\<forall>i < length ps. keeps good grows (Q i) (ps ! i) s"
  shows "good s' \<and> length ps' = length ps \<and> (\<forall>i < length ps'. keeps good grows (Q i) (ps' ! i) s')"
  using assms(1)
proof (induction "(s', ps')" arbitrary: s' ps' rule: rtranclp_induct)
  case base
  then show ?case using assms(2,4) by simp
next
  case (step st)
  obtain s1 ps1 where st: "st = (s1, ps1)" by (cases st)
  note IH = step(3) [OF st]
  from step(2) show ?case
    unfolding st
  proof (rule prog_turnE)
    fix i p s2
    assume t: "(s', ps') = (s2, ps1[i := p])" "i < length ps1" "prog_step (ps1 ! i) s1 = (p, s2)"
    have i: "good s2 \<and> grows s1 s2 \<and> keeps good grows (Q i) p s2"
      using keeps_step [OF _ _ t(3)] IH t(2) by blast
    have "keeps good grows (Q j) (ps1[i := p] ! j) s2" if "j < length ps1" for j
    proof (cases "i = j")
      case False
      have "keeps good grows (Q j) (ps1 ! j) s2"
        by (rule keeps_later [where s = s1, OF assms(3)]) (use i IH that in auto)
      then show ?thesis using False by simp
    qed (use i that in simp)
    then show ?case using t IH i by simp
  qed
qed

end

end
