(* ===== verification/Keystore.thy ===== *)
theory Keystore
  imports GoErrors Interleaving
begin

text \<open>
  \<^verbatim>\<open>pkg/keystore/keystore.go\<close>: the in-memory store of RSA keys. Loading walks a file system as
  \<^verbatim>\<open>fs.WalkDir\<close> does; what \<^verbatim>\<open>encoding/pem\<close> and \<^verbatim>\<open>crypto/x509\<close> make of the bytes of a file is in \<open>crypto\<close>.
  An RSA key is its encoding.
\<close>

type_synonym rsa_private = string
type_synonym rsa_public = string

datatype parsed_key = RsaKey rsa_private | OtherKey

record crypto =
  pem_decode :: "string \<Rightarrow> (string \<times> string) option"
  parse_pkcs1 :: "string \<Rightarrow> rsa_private res"
  parse_pkcs8 :: "string \<Rightarrow> parsed_key res"
  public_of :: "rsa_private \<Rightarrow> rsa_public"

section \<open>The store\<close>

record rsa_key =
  k_private :: rsa_private
  k_public :: rsa_public

record keystore =
  ks_store :: "(string \<times> rsa_key) list"
  ks_active :: string

definition ks_new :: keystore where
  "ks_new = \<lparr>ks_store = [], ks_active = []\<rparr>"

definition ks_private_key :: "keystore \<Rightarrow> string \<Rightarrow> rsa_private res" where
  "ks_private_key ks kid =
     (case map_of (ks_store ks) kid of None \<Rightarrow> Err ErrKeyNotFound | Some k \<Rightarrow> Ok (k_private k))"

definition ks_public_key :: "keystore \<Rightarrow> string \<Rightarrow> rsa_public res" where
  "ks_public_key ks kid =
     (case map_of (ks_store ks) kid of None \<Rightarrow> Err ErrKeyNotFound | Some k \<Rightarrow> Ok (k_public k))"

text \<open>\<^verbatim>\<open>SetActiveKey\<close> looks the key up under one lock and makes it active under another.\<close>

definition set_active_prog :: "string \<Rightarrow> (keystore, go_err option) prog" where
  "set_active_prog kid =
     Atomic id (\<lambda>ks.
       let found = (case map_of (ks_store ks) kid of None \<Rightarrow> False | Some k \<Rightarrow> True)
       in if \<not> found then Return (Some (ErrPlain (''key['' @ kid @ ''] not found in keystore'')))
          else Atomic (\<lambda>ks. ks\<lparr>ks_active := kid\<rparr>) (\<lambda>ks. Return None))"

definition ks_set_active_key :: "keystore \<Rightarrow> string \<Rightarrow> go_err option \<times> keystore" where
  "ks_set_active_key ks kid = run_prog (set_active_prog kid) ks"

lemma set_active_alone:
  "ks_set_active_key ks kid =
     (case map_of (ks_store ks) kid of
        None \<Rightarrow> (Some (ErrPlain (''key['' @ kid @ ''] not found in keystore'')), ks)
      | Some k \<Rightarrow> (None, ks\<lparr>ks_active := kid\<rparr>))"
  by (simp add: ks_set_active_key_def set_active_prog_def split: option.split)

definition ks_get_active_kid :: "keystore \<Rightarrow> string" where
  "ks_get_active_kid ks = ks_active ks"

section \<open>Loading from a file system\<close>

text \<open>
  A file with the error of \<^verbatim>\<open>Open\<close> and what reading it gives (a symbolic link is no directory to the
  walk either); a directory with the error of \<^verbatim>\<open>ReadDir\<close> and its entries by name.
\<close>

datatype fsnode =
    FFile "go_err option" "string res"
  | FDir "go_err option" "(string \<times> fsnode) list"

definition is_dir :: "fsnode \<Rightarrow> bool" where
  "is_dir n \<longleftrightarrow> (case n of FDir e es \<Rightarrow> True | FFile e c \<Rightarrow> False)"

definition max_pem_size :: nat where
  "max_pem_size = 1024 * 1024"

text \<open>\<^verbatim>\<open>filepath.Ext\<close>: what follows the last dot of the last element, with the dot.\<close>

definition path_ext :: "string \<Rightarrow> string" where
  "path_ext p =
     (let b = last (split_on CHR ''/'' p)
      in if CHR ''.'' \<in> set b then CHR ''.'' # last (split_on CHR ''.'' b) else [])"

definition path_join :: "string \<Rightarrow> string \<Rightarrow> string" where
  "path_join dir name = (if dir = ''.'' then name else dir @ ''/'' @ name)"

definition key_id :: "string \<Rightarrow> string" where
  "key_id p = trim_space (trim_suffix (filepath_base p) ''.pem'')"

definition load_key :: "crypto \<Rightarrow> string \<Rightarrow> rsa_private res" where
  "load_key X pem_bytes =
     (case pem_decode X pem_bytes of
        None \<Rightarrow> Err (ErrPlain ''invalid pem bytes: key must be either in PKCS1 or PKCS8'')
      | Some (ty, bytes) \<Rightarrow>
          if ty \<noteq> ''PRIVATE KEY''
          then Err (ErrPlain ''invalid pem bytes: key must be either in PKCS1 or PKCS8'')
          else case parse_pkcs1 X bytes of
                 Ok k \<Rightarrow> Ok k
               | Err _ \<Rightarrow>
                   (case parse_pkcs8 X bytes of
                      Err e \<Rightarrow> Err (ErrWrap ''failed to parse private key as PKCS1 or PKCS8'' e)
                    | Ok (RsaKey k) \<Rightarrow> Ok k
                    | Ok OtherKey \<Rightarrow> Err (ErrPlain ''key is not a valid rsa private key'')))"

datatype walk_res = WNil | WSkipDir | WErr go_err

text \<open>The function that the walk calls on every path, with the error the walk hands to it.\<close>

definition walker ::
  "crypto \<Rightarrow> string \<Rightarrow> string \<Rightarrow> fsnode \<Rightarrow> go_err option \<Rightarrow> keystore \<Rightarrow> walk_res \<times> keystore" where
  "walker X path name d err ks =
     (case err of
        Some e \<Rightarrow> (WErr (ErrWrap (''opening '' @ path) e), ks)
      | None \<Rightarrow>
          (case d of
             FDir _ _ \<Rightarrow> if has_prefix name ''..'' then (WSkipDir, ks) else (WNil, ks)
           | FFile open_err content \<Rightarrow>
               if path_ext path \<noteq> ''.pem'' then (WNil, ks)
               else case open_err of
                 Some e \<Rightarrow> (WErr (ErrWrap (''openning file '' @ path) e), ks)
               | None \<Rightarrow>
                   (case content of
                      Err e \<Rightarrow> (WErr (ErrWrap ''readAll'' e), ks)
                    | Ok bs \<Rightarrow>
                        (case load_key X (take max_pem_size bs) of
                           Err e \<Rightarrow> (WErr e, ks)
                         | Ok k \<Rightarrow>
                             (WNil, ks\<lparr>ks_store := AList.update (key_id path)
                                \<lparr>k_private = k, k_public = public_of X k\<rparr> (ks_store ks)\<rparr>)))))"

text \<open>\<^verbatim>\<open>fs.walkDir\<close>.\<close>

fun walk_dir :: "crypto \<Rightarrow> string \<Rightarrow> string \<Rightarrow> fsnode \<Rightarrow> keystore \<Rightarrow> walk_res \<times> keystore"
  and walk_entries :: "crypto \<Rightarrow> string \<Rightarrow> (string \<times> fsnode) list \<Rightarrow> keystore \<Rightarrow> walk_res \<times> keystore" where
  "walk_dir X path name (FFile oe c) ks = walker X path name (FFile oe c) None ks"
| "walk_dir X path name (FDir re es) ks =
     (case walker X path name (FDir re es) None ks of
        (WSkipDir, ks) \<Rightarrow> (WNil, ks)
      | (WErr e, ks) \<Rightarrow> (WErr e, ks)
      | (WNil, ks) \<Rightarrow>
          (case re of
             None \<Rightarrow> walk_entries X path es ks
           | Some e \<Rightarrow>
               (case walker X path name (FDir re es) (Some e) ks of
                  (WNil, ks) \<Rightarrow> walk_entries X path es ks
                | (WSkipDir, ks) \<Rightarrow> (WNil, ks)
                | (WErr e, ks) \<Rightarrow> (WErr e, ks))))"
| "walk_entries X path [] ks = (WNil, ks)"
| "walk_entries X path ((name, n) # es) ks =
     (case walk_dir X (path_join path name) name n ks of
        (WNil, ks) \<Rightarrow> walk_entries X path es ks
      | (WSkipDir, ks) \<Rightarrow> (WNil, ks)
      | (WErr e, ks) \<Rightarrow> (WErr e, ks))"

text \<open>The root is what \<^verbatim>\<open>Stat\<close> of \<^verbatim>\<open>"."\<close> finds.\<close>

definition ks_load_from_file_system ::
  "crypto \<Rightarrow> keystore \<Rightarrow> fsnode res \<Rightarrow> nat res \<times> keystore" where
  "ks_load_from_file_system X ks root =
     (case root of
        Err e \<Rightarrow> (Err (ErrWrap ''walkDir'' (ErrWrap ''opening .'' e)), ks)
      | Ok n \<Rightarrow>
          (case walk_dir X ''.'' ''.'' n ks of
             (WErr e, ks) \<Rightarrow> (Err (ErrWrap ''walkDir'' e), ks)
           | (_, ks) \<Rightarrow> (Ok (length (ks_store ks)), ks)))"

section \<open>What a load leaves in the store\<close>

text \<open>The key files that a walk visits: path and private key, in the order of the walk.\<close>

fun key_files :: "crypto \<Rightarrow> string \<Rightarrow> string \<Rightarrow> fsnode \<Rightarrow> (string \<times> rsa_private res) list"
  and entry_files :: "crypto \<Rightarrow> string \<Rightarrow> (string \<times> fsnode) list \<Rightarrow> (string \<times> rsa_private res) list" where
  "key_files X path name (FFile oe c) =
     (if path_ext path \<noteq> ''.pem'' then []
      else [(path, case oe of Some e \<Rightarrow> Err (ErrWrap (''openning file '' @ path) e)
                   | None \<Rightarrow> (case c of Err e \<Rightarrow> Err (ErrWrap ''readAll'' e)
                              | Ok bs \<Rightarrow> load_key X (take max_pem_size bs)))])"
| "key_files X path name (FDir re es) =
     (if has_prefix name ''..'' then []
      else case re of Some e \<Rightarrow> [(path, Err (ErrWrap (''opening '' @ path) e))]
           | None \<Rightarrow> entry_files X path es)"
| "entry_files X path [] = []"
| "entry_files X path ((name, n) # es) = key_files X (path_join path name) name n @ entry_files X path es"

definition add_key :: "crypto \<Rightarrow> (string \<times> rsa_private) \<Rightarrow> keystore \<Rightarrow> keystore" where
  "add_key X pk ks = ks\<lparr>ks_store := AList.update (key_id (fst pk))
     \<lparr>k_private = snd pk, k_public = public_of X (snd pk)\<rparr> (ks_store ks)\<rparr>"

fun add_files :: "crypto \<Rightarrow> (string \<times> rsa_private res) list \<Rightarrow> keystore \<Rightarrow> walk_res \<times> keystore" where
  "add_files X [] ks = (WNil, ks)"
| "add_files X ((p, Err e) # fs) ks = (WErr e, ks)"
| "add_files X ((p, Ok k) # fs) ks = add_files X fs (add_key X (p, k) ks)"

lemma add_files_append:
  "add_files X (fs @ gs) ks =
     (case add_files X fs ks of (WErr e, ks) \<Rightarrow> (WErr e, ks) | (_, ks) \<Rightarrow> add_files X gs ks)"
  by (induction X fs ks rule: add_files.induct) auto

lemma add_files_no_skip: "fst (add_files X fs ks) \<noteq> WSkipDir"
  by (induction X fs ks rule: add_files.induct) auto

text \<open>The walk is the reading of the key files in order, up to the first error.\<close>

lemma walk_is_add:
  "walk_dir X path name n ks = add_files X (key_files X path name n) ks"
  "walk_entries X path es ks = add_files X (entry_files X path es) ks"
proof (induction X path name n ks and X path es ks rule: walk_dir_walk_entries.induct)
  case (1 X path name oe c ks)
  then show ?case by (auto simp: walker_def add_key_def split: option.split sum.split)
next
  case (2 X path name re es ks)
  then show ?case by (auto simp: walker_def split: option.split)
next
  case (3 X path ks)
  then show ?case by simp
next
  case (4 X path name n es ks)
  then show ?case
    using add_files_no_skip [of X "key_files X (path_join path name) name n" ks]
    by (auto simp: add_files_append split: prod.splits walk_res.splits)
qed

section \<open>The invariant\<close>

definition wf_keys :: "crypto \<Rightarrow> keystore \<Rightarrow> bool" where
  "wf_keys X ks \<longleftrightarrow> distinct (map fst (ks_store ks)) \<and>
     list_all (\<lambda>(i, k). k_public k = public_of X (k_private k)) (ks_store ks) \<and>
     (ks_active ks = [] \<or> ks_active ks \<in> fst ` set (ks_store ks))"

lemma wf_ks_new [simp]: "wf_keys X ks_new"
  by (simp add: wf_keys_def ks_new_def)

lemma set_update_subset: "set (AList.update i k al) \<subseteq> insert (i, k) (set al)"
  by (induction al) auto

lemma wf_add_key:
  assumes "wf_keys X ks"
  shows "wf_keys X (add_key X pk ks)"
proof -
  let ?k = "\<lparr>k_private = snd pk, k_public = public_of X (snd pk)\<rparr>"
  have "k_public k = public_of X (k_private k)"
    if "(i, k) \<in> set (AList.update (key_id (fst pk)) ?k (ks_store ks))" for i k
    using subsetD [OF set_update_subset that] assms by (auto simp: wf_keys_def list_all_iff)
  then show ?thesis
    using assms by (auto simp: wf_keys_def add_key_def distinct_update dom_update list_all_iff)
qed

lemma wf_add_files: "wf_keys X ks \<Longrightarrow> wf_keys X (snd (add_files X fs ks))"
  by (induction X fs ks rule: add_files.induct) (auto simp: wf_add_key)

lemma load_store:
  "snd (ks_load_from_file_system X ks root) =
     (case root of Err e \<Rightarrow> ks | Ok n \<Rightarrow> snd (add_files X (key_files X ''.'' ''.'' n) ks))"
  by (simp add: ks_load_from_file_system_def walk_is_add split: sum.split prod.split walk_res.split)

lemma load_wf:
  assumes "wf_keys X ks"
  shows "wf_keys X (snd (ks_load_from_file_system X ks root))"
  using assms wf_add_files [OF assms] by (simp add: load_store split: sum.split)

lemma stored_iff: "kid \<in> fst ` set al \<longleftrightarrow> map_of al kid \<noteq> None"
  by (simp add: map_of_eq_None_iff)

lemma set_active_wf:
  assumes "wf_keys X ks"
  shows "wf_keys X (snd (ks_set_active_key ks kid))"
  using assms by (auto simp: wf_keys_def set_active_alone stored_iff split: option.split)

section \<open>The interface of the key loader\<close>

text \<open>\<^verbatim>\<open>keyLoader\<close> of \<^verbatim>\<open>internal/auth/auth.go\<close>: what a token is signed with is what it is verified with.\<close>

record 's key_api =
  kl_private :: "'s \<Rightarrow> string \<Rightarrow> rsa_private res"
  kl_public :: "'s \<Rightarrow> string \<Rightarrow> rsa_public res"

definition keystore_api :: "keystore key_api" where
  "keystore_api = \<lparr>kl_private = ks_private_key, kl_public = ks_public_key\<rparr>"

locale key_loader =
  fixes api :: "'s key_api" and valid :: "crypto \<Rightarrow> 's \<Rightarrow> bool"
  assumes pair: "valid X s \<Longrightarrow> kl_private api s kid = Ok k \<Longrightarrow> kl_public api s kid = Ok (public_of X k)"
    and source: "valid X s \<Longrightarrow> kl_public api s kid = Ok p \<Longrightarrow>
      \<exists>k. kl_private api s kid = Ok k \<and> p = public_of X k"
begin

lemma public_iff:
  "valid X s \<Longrightarrow> kl_public api s kid = Ok p \<longleftrightarrow> (\<exists>k. kl_private api s kid = Ok k \<and> p = public_of X k)"
  using pair source by fastforce

end

interpretation ks_loader: key_loader keystore_api wf_keys
proof
  fix X ks kid k p
  assume wf: "wf_keys X ks"
  have pub: "k_public v = public_of X (k_private v)" if "map_of (ks_store ks) kid = Some v" for v
    using wf map_of_SomeD [OF that] by (auto simp: wf_keys_def list_all_iff)
  show "kl_private keystore_api ks kid = Ok k \<Longrightarrow> kl_public keystore_api ks kid = Ok (public_of X k)"
    using pub by (auto simp: keystore_api_def ks_private_key_def ks_public_key_def split: option.splits)
  show "kl_public keystore_api ks kid = Ok p \<Longrightarrow>
      \<exists>k. kl_private keystore_api ks kid = Ok k \<and> p = public_of X k"
    using pub by (auto simp: keystore_api_def ks_private_key_def ks_public_key_def split: option.splits)
qed

section \<open>Concurrent use\<close>

text \<open>
  The operations take the lock for each access only: a load adds its keys one at a time and counts them at the
  end, the others read or write once. \<open>ks_call\<close> is a call of one of them, \<open>ks_prog\<close> its sections.
\<close>

fun load_files :: "crypto \<Rightarrow> (string \<times> rsa_private res) list \<Rightarrow> (keystore, nat res) prog" where
  "load_files X [] = Atomic id (\<lambda>ks. Return (Ok (length (ks_store ks))))"
| "load_files X ((p, Err e) # fs) = Return (Err (ErrWrap ''walkDir'' e))"
| "load_files X ((p, Ok k) # fs) = Atomic (add_key X (p, k)) (\<lambda>ks. load_files X fs)"

definition load_prog :: "crypto \<Rightarrow> fsnode res \<Rightarrow> (keystore, nat res) prog" where
  "load_prog X root =
     (case root of
        Err e \<Rightarrow> Return (Err (ErrWrap ''walkDir'' (ErrWrap ''opening .'' e)))
      | Ok n \<Rightarrow> load_files X (key_files X ''.'' ''.'' n))"

datatype ks_call = LoadKeys "fsnode res" | SetActive string | PrivateKey string | PublicKey string | GetActive

datatype ks_answer =
    Loaded "nat res" | ActiveSet "go_err option" | PrivateIs "rsa_private res" | PublicIs "rsa_public res" | ActiveIs string

fun ks_prog :: "crypto \<Rightarrow> ks_call \<Rightarrow> (keystore, ks_answer) prog" where
  "ks_prog X (LoadKeys root) = map_prog Loaded (load_prog X root)"
| "ks_prog X (SetActive kid) = map_prog ActiveSet (set_active_prog kid)"
| "ks_prog X (PrivateKey kid) = Atomic id (\<lambda>ks. Return (PrivateIs (ks_private_key ks kid)))"
| "ks_prog X (PublicKey kid) = Atomic id (\<lambda>ks. Return (PublicIs (ks_public_key ks kid)))"
| "ks_prog X GetActive = Atomic id (\<lambda>ks. Return (ActiveIs (ks_get_active_kid ks)))"

text \<open>Alone, the sections are the operation.\<close>

lemma run_load_files:
  "run_prog (load_files X fs) ks =
     (case add_files X fs ks of
        (WErr e, ks) \<Rightarrow> (Err (ErrWrap ''walkDir'' e), ks) | (_, ks) \<Rightarrow> (Ok (length (ks_store ks)), ks))"
  by (induction X fs arbitrary: ks rule: load_files.induct) simp_all

lemma run_ks_prog:
  "run_prog (ks_prog X (LoadKeys root)) ks = map_prod Loaded id (ks_load_from_file_system X ks root)"
  "run_prog (ks_prog X (SetActive kid)) ks = map_prod ActiveSet id (ks_set_active_key ks kid)"
  "run_prog (ks_prog X (PrivateKey kid)) ks = (PrivateIs (ks_private_key ks kid), ks)"
  "run_prog (ks_prog X (PublicKey kid)) ks = (PublicIs (ks_public_key ks kid), ks)"
  "run_prog (ks_prog X GetActive) ks = (ActiveIs (ks_get_active_kid ks), ks)"
proof -
  have "run_prog (load_prog X root) ks = ks_load_from_file_system X ks root"
    by (auto simp: load_prog_def ks_load_from_file_system_def run_load_files walk_is_add split: sum.split prod.split)
  then show "run_prog (ks_prog X (LoadKeys root)) ks = map_prod Loaded id (ks_load_from_file_system X ks root)"
    by simp
qed (simp_all add: ks_set_active_key_def)

text \<open>Keys are added and never removed.\<close>

definition key_ids :: "keystore \<Rightarrow> string set" where
  "key_ids ks = fst ` set (ks_store ks)"

lemma add_key_ids: "fst ` set (ks_store (add_key X pk ks)) = insert (key_id (fst pk)) (fst ` set (ks_store ks))"
  by (simp add: add_key_def dom_update)

lemma key_ids_add: "key_ids (add_key X pk ks) = insert (key_id (fst pk)) (key_ids ks)"
  by (simp add: key_ids_def add_key_ids)

lemma key_ids_iff: "kid \<in> key_ids ks \<longleftrightarrow> map_of (ks_store ks) kid \<noteq> None"
  by (simp add: key_ids_def stored_iff)

lemma key_ids_active [simp]: "key_ids (ks\<lparr>ks_active := kid\<rparr>) = key_ids ks"
  by (simp add: key_ids_def)

lemma wf_active: "wf_keys X ks \<Longrightarrow> kid \<in> key_ids ks \<Longrightarrow> wf_keys X (ks\<lparr>ks_active := kid\<rparr>)"
  by (simp add: wf_keys_def key_ids_def)

interpretation ks_shared: shared_state "wf_keys X" "\<lambda>s t. key_ids s \<subseteq> key_ids t" for X
  by unfold_locales auto

text \<open>What an answer promises from the moment it is given on.\<close>

definition ks_promise :: "ks_call \<Rightarrow> keystore \<Rightarrow> ks_answer \<Rightarrow> bool" where
  "ks_promise call ks r \<longleftrightarrow>
     (\<forall>kid. call = SetActive kid \<longrightarrow> r = ActiveSet None \<longrightarrow> kid \<in> key_ids ks) \<and>
     (\<forall>kid. r = ActiveIs kid \<longrightarrow> kid = [] \<or> kid \<in> key_ids ks)"

abbreviation ks_keeps :: "crypto \<Rightarrow> ks_call \<Rightarrow> (keystore, ks_answer) prog \<Rightarrow> keystore \<Rightarrow> bool" where
  "ks_keeps X call \<equiv> keeps (wf_keys X) (\<lambda>s t. key_ids s \<subseteq> key_ids t) (ks_promise call)"

lemma load_files_keeps: "ks_keeps X (LoadKeys root) (map_prog Loaded (load_files X fs)) ks"
  by (induction X fs arbitrary: ks rule: load_files.induct)
    (auto simp: ks_promise_def key_ids_add wf_add_key)

lemma ks_prog_keeps: "ks_keeps X call (ks_prog X call) ks"
proof (cases call)
  case (LoadKeys root)
  then show ?thesis
    using load_files_keeps by (cases root) (simp_all add: load_prog_def ks_promise_def)
next
  case (SetActive kid)
  have ids: "kid \<in> key_ids t" if "map_of (ks_store s) kid = Some k" "key_ids s \<subseteq> key_ids t" for s t k
    using that key_ids_iff [of kid s] by auto
  then show ?thesis
    using SetActive by (auto simp: set_active_prog_def ks_promise_def intro: wf_active dest: ids split: option.split)
next
  case GetActive
  then show ?thesis by (auto simp: ks_promise_def ks_get_active_kid_def wf_keys_def key_ids_def)
qed (auto simp: ks_promise_def)

text \<open>What holds of the store and of the answers, however the calls interleave.\<close>

lemma ks_calls_keep:
  assumes "prog_turn\<^sup>*\<^sup>* (ks, map (ks_prog X) calls) (ks', ps)" "wf_keys X ks"
  shows "wf_keys X ks'" "length ps = length calls"
    "i < length calls \<Longrightarrow> ps ! i = Return r \<Longrightarrow> ks_promise (calls ! i) ks' r"
proof -
  have later: "ks_promise (calls ! i) t r" if "key_ids s \<subseteq> key_ids t" "ks_promise (calls ! i) s r" for i s t r
    using that by (auto simp: ks_promise_def)
  have all: "wf_keys X ks' \<and> length ps = length (map (ks_prog X) calls) \<and>
      (\<forall>i < length ps. ks_keeps X (calls ! i) (ps ! i) ks')"
    using later by (intro ks_shared.turns_keep [OF assms]) (auto simp: ks_prog_keeps)
  then show "wf_keys X ks'" "length ps = length calls" by simp_all
  show "ks_promise (calls ! i) ks' r" if "i < length calls" "ps ! i = Return r"
    using all that by (metis keeps.simps(1) length_map)
qed

end
