(* ===== verification/Roles.thy ===== *)
theory Roles
  imports GoErrors
begin

text \<open>
  \<^verbatim>\<open>internal/domains/user/bus/roles.go\<close>: the roles of a user, the set of valid roles that
  \<^verbatim>\<open>newRole\<close> registers at package initialisation, the parsing of role names, and \<^verbatim>\<open>RoleSlice\<close>,
  which writes a role list as a PostgreSQL array literal and reads it back.
\<close>

text \<open>The dynamic values that \<^verbatim>\<open>database/sql\<close> hands to a \<^verbatim>\<open>Scanner\<close> and takes from a \<^verbatim>\<open>Valuer\<close>.\<close>

datatype sqlval =
    SvNull
  | SvBytes string
  | SvString string
  | SvBool bool
  | SvInt int
  | SvTime int
  | SvTextArr "string list"

fun go_type_name :: "sqlval \<Rightarrow> string" where
  "go_type_name SvNull = ''<nil>''"
| "go_type_name (SvBytes b) = ''[]uint8''"
| "go_type_name (SvString s) = ''string''"
| "go_type_name (SvBool b) = ''bool''"
| "go_type_name (SvInt i) = ''int64''"
| "go_type_name (SvTime t) = ''time.Time''"
| "go_type_name (SvTextArr t) = ''[]bus.Role''"

record role =
  role_value :: string

definition new_role :: "string \<Rightarrow> (string \<rightharpoonup> role) \<Rightarrow> role \<times> (string \<rightharpoonup> role)" where
  "new_role val valid = (let r = \<lparr>role_value = val\<rparr> in (r, valid(val \<mapsto> r)))"

definition role_admin :: role where
  "role_admin = fst (new_role ''admin'' Map.empty)"

definition role_user :: role where
  "role_user = fst (new_role ''user'' (snd (new_role ''admin'' Map.empty)))"

definition valid_roles :: "string \<rightharpoonup> role" where
  "valid_roles = snd (new_role ''user'' (snd (new_role ''admin'' Map.empty)))"

definition role_string :: "role \<Rightarrow> string" where
  "role_string r = role_value r"

definition role_marshal_text :: "role \<Rightarrow> string res" where
  "role_marshal_text r = Ok (role_value r)"

definition parse_role :: "string \<Rightarrow> role res" where
  "parse_role val = (case valid_roles val of
       None \<Rightarrow> Err (ErrPlain (''invalid role: '' @ val))
     | Some r \<Rightarrow> Ok r)"

definition roles_to_string :: "role list \<Rightarrow> string list" where
  "roles_to_string rs = map role_value rs"

fun parse_many_roles :: "string list \<Rightarrow> role list res" where
  "parse_many_roles [] = Ok []"
| "parse_many_roles (r # rr) =
     (case parse_role r of
        Err e \<Rightarrow> Err e
      | Ok role \<Rightarrow> (case parse_many_roles rr of Err e \<Rightarrow> Err e | Ok res \<Rightarrow> Ok (role # res)))"

section \<open>RoleSlice\<close>

fun parse_elements :: "string list \<Rightarrow> role list res" where
  "parse_elements [] = Ok []"
| "parse_elements (elem # elems) =
     (case parse_role (trim_set {CHR 34} elem) of
        Err e \<Rightarrow> Err (ErrWrap ''invalid role in array'' e)
      | Ok role \<Rightarrow> (case parse_elements elems of Err e \<Rightarrow> Err e | Ok res \<Rightarrow> Ok (role # res)))"

text \<open>The receiver \<^verbatim>\<open>*rs\<close> is passed and returned: a failed scan leaves it as it was.\<close>

definition parse_postgres_array ::
  "role list \<Rightarrow> string \<Rightarrow> go_err option \<times> role list" where
  "parse_postgres_array rs arr =
     (let s = trim_set {CHR ''{'', CHR ''}''} arr in
      if s = [] then (None, [])
      else case parse_elements (split_on CHR '','' s) of
             Err e \<Rightarrow> (Some e, rs)
           | Ok roles \<Rightarrow> (None, roles))"

definition role_slice_scan :: "role list \<Rightarrow> sqlval \<Rightarrow> go_err option \<times> role list" where
  "role_slice_scan rs val =
     (case val of
        SvNull \<Rightarrow> (None, [])
      | SvBytes v \<Rightarrow> parse_postgres_array rs v
      | SvString v \<Rightarrow> parse_postgres_array rs v
      | v \<Rightarrow> (Some (ErrPlain (''unsupported type for role slice: '' @ go_type_name v)), rs))"

definition role_slice_value :: "role list \<Rightarrow> sqlval res" where
  "role_slice_value rs =
     (if length rs = 0 then Ok (SvString ''{}'')
      else let qouted = map role_string rs
           in Ok (SvString (''{'' @ join '','' qouted @ ''}'')))"

section \<open>The valid roles\<close>

definition wf_roles :: "role list \<Rightarrow> bool" where
  "wf_roles rs \<longleftrightarrow> list_all (\<lambda>r. valid_roles (role_value r) = Some r) rs"

lemma role_value_simps [simp]:
  "role_value role_admin = ''admin''" "role_value role_user = ''user''"
  by (simp_all add: role_admin_def role_user_def new_role_def Let_def)

lemma role_eq_iff: "(r :: role) = s \<longleftrightarrow> role_value r = role_value s"
  by (cases r; cases s) auto

lemma valid_roles_eq:
  "valid_roles v = (if v = ''user'' then Some role_user
                    else if v = ''admin'' then Some role_admin else None)"
  by (simp add: valid_roles_def new_role_def role_user_def role_admin_def Let_def)

lemma valid_role_iff: "valid_roles v = Some r \<longleftrightarrow> v \<in> {''admin'', ''user''} \<and> role_value r = v"
  by (auto simp: role_eq_iff valid_roles_eq)

lemma parse_role_Ok: "parse_role v = Ok r \<longleftrightarrow> v \<in> {''admin'', ''user''} \<and> role_value r = v"
  by (auto simp: parse_role_def role_eq_iff valid_roles_eq)

lemma parse_role_value [simp]: "valid_roles (role_value r) = Some r \<Longrightarrow> parse_role (role_value r) = Ok r"
  by (simp add: parse_role_def)

lemma wf_roles_Cons [simp]: "wf_roles (r # rs) \<longleftrightarrow> valid_roles (role_value r) = Some r \<and> wf_roles rs"
  by (simp add: wf_roles_def)

lemma wf_roles_Nil [simp]: "wf_roles []"
  by (simp add: wf_roles_def)

lemma wf_roles_iff: "wf_roles rs \<longleftrightarrow> set rs \<subseteq> {role_admin, role_user}"
  by (auto simp: wf_roles_def list_all_iff role_eq_iff valid_roles_eq split: if_splits)

lemma parse_many_roles_wf: "parse_many_roles ss = Ok rs \<Longrightarrow> wf_roles rs \<and> map role_value rs = ss"
  by (induction ss arbitrary: rs)
    (auto simp: parse_role_Ok valid_role_iff split: sum.splits)

lemma parse_many_roles_Ok_iff:
  "(\<exists>rs. parse_many_roles ss = Ok rs) \<longleftrightarrow> set ss \<subseteq> {''admin'', ''user''}"
proof (induction ss)
  case (Cons s ss)
  then show ?case
    by (cases "parse_role s"; cases "parse_many_roles ss")
      (auto simp: parse_role_def valid_roles_eq split: if_splits)
qed simp

lemma parse_many_roles_error:
  "parse_many_roles ss = Err e \<Longrightarrow> \<exists>s \<in> set ss. s \<notin> {''admin'', ''user''} \<and> e = ErrPlain (''invalid role: '' @ s)"
  by (induction ss) (auto simp: parse_role_def valid_roles_eq split: sum.splits if_splits)

lemma parse_many_roles_to_string:
  "wf_roles rs \<Longrightarrow> parse_many_roles (roles_to_string rs) = Ok rs"
  by (induction rs) (auto simp: roles_to_string_def)

section \<open>The array literal round trip\<close>

lemma role_value_plain:
  "valid_roles (role_value r) = Some r \<Longrightarrow>
     role_value r \<noteq> [] \<and> CHR '','' \<notin> set (role_value r) \<and>
     hd (role_value r) \<notin> {CHR 34, CHR ''{'', CHR ''}''} \<and>
     last (role_value r) \<notin> {CHR 34, CHR ''{'', CHR ''}''}"
  by (auto simp: valid_roles_eq split: if_splits)

lemma parse_elements_values: "wf_roles rs \<Longrightarrow> parse_elements (map role_string rs) = Ok rs"
proof (induction rs)
  case (Cons r rs)
  then have "trim_set {CHR 34} (role_value r) = role_value r"
    using role_value_plain [of r] by (intro trim_set_id) (auto)
  with Cons show ?case by (simp add: role_string_def)
qed simp

lemma join_roles_ends:
  assumes "wf_roles rs" "rs \<noteq> []"
  shows "join '','' (map role_string rs) \<noteq> []"
    and "hd (join '','' (map role_string rs)) \<notin> {CHR ''{'', CHR ''}''}"
    and "last (join '','' (map role_string rs)) \<notin> {CHR ''{'', CHR ''}''}"
  using assms
proof (induction rs rule: induct_list012)
  case (2 r)
  { case 1 then show ?case using role_value_plain [of r] by (auto simp: role_string_def) }
  { case 2 then show ?case using role_value_plain [of r]
      by (auto simp: role_string_def) }
  { case 3 then show ?case using role_value_plain [of r]
      by (auto simp: role_string_def) }
next
  case (3 r s rs)
  { case 1 then show ?case by simp }
  { case 2 then show ?case using role_value_plain [of r]
      by (auto simp: role_string_def) }
  { case 3 then show ?case using "3.IH" by (auto) }
qed auto

lemma parse_postgres_array_value:
  assumes "wf_roles rs" "rs \<noteq> []"
  shows "parse_postgres_array old (''{'' @ join '','' (map role_string rs) @ ''}'') = (None, rs)"
proof -
  let ?j = "join '','' (map role_string rs)"
  note ends = join_roles_ends [OF assms]
  have "trim_set {CHR ''{'', CHR ''}''} (''{'' @ ?j @ ''}'') = ?j"
    using ends by (simp add: trim_set_wrap trim_set_id)
  moreover have "split_on CHR '','' ?j = map role_string rs"
    using assms role_value_plain
    by (intro split_on_join)
      (auto simp: role_string_def wf_roles_def list_all_iff)
  ultimately show ?thesis
    using ends(1) parse_elements_values [OF assms(1)] by (simp add: parse_postgres_array_def)
qed

lemma role_slice_roundtrip_raw:
  assumes "wf_roles rs" "role_slice_value rs = Ok v"
  shows "role_slice_scan old v = (None, rs)"
proof (cases "rs = []")
  case True
  with assms have "v = SvString ''{}''" by (simp add: role_slice_value_def)
  with True show ?thesis
    by (simp add: role_slice_scan_def parse_postgres_array_def trim_set_def)
next
  case False
  with assms have "v = SvString (''{'' @ join '','' (map role_string rs) @ ''}'')"
    by (simp add: role_slice_value_def Let_def)
  then have "role_slice_scan old v =
      parse_postgres_array old (''{'' @ join '','' (map role_string rs) @ ''}'')"
    by (simp only: role_slice_scan_def sqlval.case)
  also have "\<dots> = (None, rs)" by (rule parse_postgres_array_value [OF assms(1) False])
  finally show ?thesis .
qed

lemma parse_elements_wf: "parse_elements es = Ok rs \<Longrightarrow> wf_roles rs"
  by (induction es arbitrary: rs)
    (auto simp: parse_role_Ok valid_role_iff split: sum.splits)

lemma role_slice_scan_wf: "wf_roles rs \<Longrightarrow> role_slice_scan rs v = (e, rs') \<Longrightarrow> wf_roles rs'"
  by (auto simp: role_slice_scan_def parse_postgres_array_def Let_def parse_elements_wf
      split: sqlval.splits sum.splits if_splits)

section \<open>The Valuer and Scanner contract\<close>

text \<open>
  What \<^verbatim>\<open>database/sql\<close> asks of a type that is both a \<^verbatim>\<open>driver.Valuer\<close> and a \<^verbatim>\<open>sql.Scanner\<close>: reading
  back a written value gives the value that was written, whatever the receiver held.
\<close>

locale sql_codec =
  fixes to_sql :: "'a \<Rightarrow> sqlval res"
    and from_sql :: "'a \<Rightarrow> sqlval \<Rightarrow> go_err option \<times> 'a"
    and valid :: "'a \<Rightarrow> bool"
  assumes to_sql_ok: "valid x \<Longrightarrow> \<exists>v. to_sql x = Ok v"
    and from_to_sql: "valid x \<Longrightarrow> to_sql x = Ok v \<Longrightarrow> from_sql old v = (None, x)"
begin

lemma to_sql_inj: "valid x \<Longrightarrow> valid y \<Longrightarrow> to_sql x = to_sql y \<Longrightarrow> x = y"
proof -
  assume xy: "valid x" "valid y" "to_sql x = to_sql y"
  then obtain v where "to_sql x = Ok v" using to_sql_ok by blast
  with xy(3) have "to_sql y = Ok v" by simp
  with xy(1,2) \<open>to_sql x = Ok v\<close> have "from_sql x v = (None, x)" "from_sql x v = (None, y)"
    by (blast intro: from_to_sql)+
  then show "x = y" by simp
qed

end

interpretation roles_codec: sql_codec role_slice_value role_slice_scan wf_roles
  by unfold_locales (auto simp: role_slice_value_def Let_def role_slice_roundtrip_raw)

end
