(* ===== verification/Uuid.thy ===== *)
theory Uuid
  imports GoErrors
begin

text \<open>
  \<^verbatim>\<open>uuid.Parse\<close> and \<^verbatim>\<open>UUID.String\<close> of the vendored \<^verbatim>\<open>github.com/google/uuid\<close>, which decide the
  identity of a user in every route (\<^verbatim>\<open>vendor/github.com/google/uuid/uuid.go\<close>, \<^verbatim>\<open>util.go\<close>). A
  \<^verbatim>\<open>[16]byte\<close> is a list of 16 bytes.
\<close>

type_synonym uuid = "8 word list"

definition wf_uuid :: "uuid \<Rightarrow> bool" where
  "wf_uuid u \<longleftrightarrow> length u = 16"

text \<open>\<^verbatim>\<open>xvalues\<close> (255 for a byte that is no hex digit) and \<^verbatim>\<open>xtob\<close>.\<close>

definition xvalue :: "char \<Rightarrow> 8 word" where
  "xvalue c =
     (let n = (of_char c :: nat) in
      if 48 \<le> n \<and> n \<le> 57 then of_nat (n - 48)
      else if 65 \<le> n \<and> n \<le> 70 then of_nat (n - 55)
      else if 97 \<le> n \<and> n \<le> 102 then of_nat (n - 87)
      else 255)"

definition xtob :: "char \<Rightarrow> char \<Rightarrow> 8 word \<times> bool" where
  "xtob x1 x2 =
     (let b1 = xvalue x1; b2 = xvalue x2
      in (or (push_bit 4 b1) b2, b1 \<noteq> 255 \<and> b2 \<noteq> 255))"

fun parse_pairs :: "string \<Rightarrow> nat list \<Rightarrow> uuid option" where
  "parse_pairs s [] = Some []"
| "parse_pairs s (x # xs) =
     (case xtob (s ! x) (s ! (x + 1)) of
        (v, ok) \<Rightarrow> if \<not> ok then None else map_option (\<lambda>r. v # r) (parse_pairs s xs))"

definition uuid_positions :: "nat list" where
  "uuid_positions = [0, 2, 4, 6, 9, 11, 14, 16, 19, 21, 24, 26, 28, 30, 32, 34]"

definition invalid_format :: go_err where
  "invalid_format = ErrPlain ''invalid UUID format''"

text \<open>The part of \<^verbatim>\<open>Parse\<close> after the \<^verbatim>\<open>switch\<close>; \<open>s\<close> has at least 36 bytes there.\<close>

definition parse_dashed :: "string \<Rightarrow> uuid res" where
  "parse_dashed s =
     (if s ! 8 \<noteq> CHR ''-'' \<or> s ! 13 \<noteq> CHR ''-'' \<or> s ! 18 \<noteq> CHR ''-'' \<or> s ! 23 \<noteq> CHR ''-''
      then Err invalid_format
      else case parse_pairs s uuid_positions of
             None \<Rightarrow> Err invalid_format
           | Some u \<Rightarrow> Ok u)"

definition uuid_parse :: "string \<Rightarrow> uuid res" where
  "uuid_parse s =
     (if length s = 36 then parse_dashed s
      else if length s = 36 + 9 then
        (if \<not> equal_fold (take 9 s) ''urn:uuid:''
         then Err (ErrPlain (''invalid urn prefix: '' @ [CHR 34] @ take 9 s @ [CHR 34]))
         else parse_dashed (drop 9 s))
      else if length s = 36 + 2 then parse_dashed (drop 1 s)
      else if length s = 32 then
        (case parse_pairs s (map (\<lambda>i. i * 2) [0..<16]) of
           None \<Rightarrow> Err invalid_format
         | Some u \<Rightarrow> Ok u)
      else Err (ErrPlain (''invalid UUID length: '' @ itoa (int (length s)))))"

text \<open>\<^verbatim>\<open>encodeHex\<close>: lower-case hex digits, four dashes.\<close>

definition hex_digit :: "8 word \<Rightarrow> char" where
  "hex_digit w = (if w < 10 then char_of (48 + unat w) else char_of (87 + unat w))"

definition hex_byte :: "8 word \<Rightarrow> string" where
  "hex_byte b = [hex_digit (drop_bit 4 b), hex_digit (and b 15)]"

definition hex_encode :: "uuid \<Rightarrow> string" where
  "hex_encode bs = concat (map hex_byte bs)"

definition uuid_string :: "uuid \<Rightarrow> string" where
  "uuid_string u =
     hex_encode (take 4 u) @ ''-'' @ hex_encode (take 2 (drop 4 u)) @ ''-''
     @ hex_encode (take 2 (drop 6 u)) @ ''-'' @ hex_encode (take 2 (drop 8 u)) @ ''-''
     @ hex_encode (drop 10 u)"

text \<open>\<^verbatim>\<open>NewRandomFromReader\<close>: 16 random bytes with the version and the variant set.\<close>

definition uuid_from_random :: "uuid \<Rightarrow> uuid" where
  "uuid_from_random r = r[6 := or (and (r ! 6) 0x0f) 0x40, 8 := or (and (r ! 8) 0x3f) 0x80]"

lemma uuid_from_random_wf [simp]: "wf_uuid r \<Longrightarrow> wf_uuid (uuid_from_random r)"
  by (simp add: uuid_from_random_def wf_uuid_def)

section \<open>Round trip\<close>

lemma nibble_cases: "(w :: 8 word) < 16 \<Longrightarrow> xvalue (hex_digit w) = w"
proof -
  assume w: "w < 16"
  then have n: "unat w < 16" by (simp add: word_less_nat_alt)
  show ?thesis
  proof (cases "w < 10")
    case True
    then have "unat w < 10" by (simp add: word_less_nat_alt)
    then show ?thesis using True by (simp add: xvalue_def hex_digit_def Let_def)
  next
    case False
    then have "10 \<le> unat w" by (simp add: word_less_nat_alt)
    then show ?thesis using False n by (simp add: xvalue_def hex_digit_def Let_def)
  qed
qed

lemma nibbles_join: "or (push_bit 4 (drop_bit 4 b)) (and b 15) = (b :: 8 word)"
proof -
  have 15: "(15 :: 8 word) = mask 4" by (simp add: mask_eq_exp_minus_1)
  show ?thesis
    by (rule bit_eqI) (auto simp: 15 bit_or_iff bit_push_bit_iff bit_drop_bit_eq bit_and_iff bit_mask_iff)
qed

lemma nibbles_lt: "drop_bit 4 (b :: 8 word) < 16" "and (b :: 8 word) 15 < 16"
proof -
  have "unat b < 2 ^ LENGTH(8)" by (rule unsigned_less)
  then have "unat (drop_bit 4 b) < 16"
    by (subst unat_drop_bit_eq) (simp add: drop_bit_eq_div)
  then show "drop_bit 4 b < 16" by (simp add: word_less_nat_alt)
  show "and b 15 < 16"
    using word_and_le1 [of b 15] by (rule le_less_trans) simp
qed

lemma xtob_hex_byte [simp]:
  "xtob (hex_digit (drop_bit 4 b)) (hex_digit (and b 15)) = (b, True)"
proof -
  have "w \<noteq> 255" if "w < 16" for w :: "8 word"
    using that by auto
  with nibbles_lt [of b] have "drop_bit 4 b \<noteq> 255" "and b 15 \<noteq> 255" by blast+
  with nibbles_lt [of b] show ?thesis
    by (simp add: xtob_def nibble_cases nibbles_join Let_def)
qed

lemma list16: "length xs = 16 \<Longrightarrow> \<exists>a b c d e f g h i j k l m n p q. xs = [a,b,c,d,e,f,g,h,i,j,k,l,m,n,p,q]"
  by (auto simp: numeral_eq_Suc length_Suc_conv)

lemma length_uuid_string: "wf_uuid u \<Longrightarrow> length (uuid_string u) = 36"
  unfolding wf_uuid_def by (drule list16) (auto simp: uuid_string_def hex_encode_def hex_byte_def)

lemma uuid_parse_string: "wf_uuid u \<Longrightarrow> uuid_parse (uuid_string u) = Ok u"
proof -
  assume "wf_uuid u"
  then obtain a b c d e f g h i j k l m n p q
    where u: "u = [a,b,c,d,e,f,g,h,i,j,k,l,m,n,p,q]"
    unfolding wf_uuid_def by (auto dest!: list16)
  show ?thesis
    by (simp add: u uuid_parse_def parse_dashed_def uuid_positions_def uuid_string_def
        hex_encode_def hex_byte_def)
qed

lemma uuid_string_inj: "wf_uuid u \<Longrightarrow> wf_uuid v \<Longrightarrow> uuid_string u = uuid_string v \<Longrightarrow> u = v"
  by (metis uuid_parse_string Inr_inject)

lemma length_parse_pairs: "parse_pairs s xs = Some u \<Longrightarrow> length u = length xs"
  by (induction xs arbitrary: u) (auto split: prod.splits if_splits)

lemma parse_dashed_wf: "parse_dashed s = Ok u \<Longrightarrow> wf_uuid u"
  using length_parse_pairs [of s uuid_positions u]
  by (auto simp: parse_dashed_def wf_uuid_def simp del: parse_pairs.simps split: if_splits option.splits)
    (simp add: uuid_positions_def)

lemma uuid_parse_wf: "uuid_parse s = Ok u \<Longrightarrow> wf_uuid u"
  using length_parse_pairs [of s "map (\<lambda>i. i * 2) [0..<16]" u]
  by (auto simp: uuid_parse_def wf_uuid_def parse_dashed_wf [unfolded wf_uuid_def]
      simp del: parse_pairs.simps split: if_splits option.splits)

lemma uuid_parse_nil [simp]: "uuid_parse [] \<noteq> Ok u"
  by (simp add: uuid_parse_def)

section \<open>Characters\<close>

lemma hex_digit_no_slash: "w < 16 \<Longrightarrow> hex_digit w \<noteq> CHR ''/''"
proof
  assume w: "w < 16" "hex_digit w = CHR ''/''"
  then have n: "unat w < 16" by (simp add: word_less_nat_alt)
  have "(of_char (hex_digit w) :: nat) = (if w < 10 then 48 + unat w else 87 + unat w)"
    using n by (simp add: hex_digit_def)
  moreover have "(of_char (CHR ''/'') :: nat) = 47" by simp
  ultimately show False using w(2) by (simp split: if_splits)
qed

lemma uuid_string_no_slash: "CHR ''/'' \<notin> set (uuid_string u)"
proof -
  have "CHR ''/'' \<notin> set (hex_encode bs)" for bs
    by (induction bs) (use hex_digit_no_slash nibbles_lt in \<open>simp_all add: hex_encode_def hex_byte_def, metis\<close>)
  then show ?thesis by (simp add: uuid_string_def)
qed

end
