(* ===== verification/Varchar.thy ===== *)
theory Varchar
  imports GoStrings
begin

text \<open>
  What PostgreSQL keeps of a text in a column \<^verbatim>\<open>VARCHAR(n)\<close>: a text of at most \<open>n\<close> characters as it is;
  of a longer one the first \<open>n\<close> characters when all that follow are spaces; any other one is refused.
\<close>

primrec take_runes :: "nat \<Rightarrow> string \<Rightarrow> string" where
  "take_runes 0 s = []"
| "take_runes (Suc n) s =
     (if s = [] then [] else take (rune_len s) s @ take_runes n (drop (rune_len s) s))"

primrec drop_runes :: "nat \<Rightarrow> string \<Rightarrow> string" where
  "drop_runes 0 s = s"
| "drop_runes (Suc n) s = (if s = [] then [] else drop_runes n (drop (rune_len s) s))"

definition blank_beyond :: "nat \<Rightarrow> string \<Rightarrow> bool" where
  "blank_beyond n s \<longleftrightarrow> list_all (\<lambda>c. c = CHR '' '') (drop_runes n s)"

lemma runes_Nil [simp]: "take_runes n [] = []" "drop_runes n [] = []"
  by (cases n; simp)+

lemma rune_count_step: "s \<noteq> [] \<Longrightarrow> rune_count s = Suc (rune_count (drop (rune_len s) s))"
  by (subst rune_count.simps) simp

lemma take_drop_runes: "take_runes n s @ drop_runes n s = s"
  by (induction n arbitrary: s) simp_all

lemma short_runes: "rune_count s \<le> n \<Longrightarrow> take_runes n s = s \<and> drop_runes n s = []"
proof (induction n arbitrary: s)
  case 0
  then show ?case by (cases "s = []") (simp_all add: rune_count_step)
next
  case (Suc n)
  show ?case
  proof (cases "s = []")
    case False
    then have "rune_count (drop (rune_len s) s) \<le> n" using Suc.prems by (simp add: rune_count_step)
    then show ?thesis using Suc.IH False by simp
  qed simp
qed

lemma take_runes_short [simp]: "rune_count s \<le> n \<Longrightarrow> take_runes n s = s"
  by (simp add: short_runes)

lemma blank_beyond_short [simp]: "rune_count s \<le> n \<Longrightarrow> blank_beyond n s"
  by (simp add: blank_beyond_def short_runes)

lemma take_runes_eq_Nil [simp]: "0 < n \<Longrightarrow> take_runes n s = [] \<longleftrightarrow> s = []"
  using rune_len_pos [of s] by (cases n) auto

lemma prefix_take_runes: "prefix (take_runes n s) s"
  by (metis prefixI take_drop_runes)

lemma set_take_runes: "set (take_runes n s) \<subseteq> set s"
  by (metis prefix_take_runes set_mono_prefix)

text \<open>A text is cut between two runes, so that the first rune of what is left is that of the text.\<close>

lemma cont_ok_append: "i < length s \<Longrightarrow> cont_ok lo hi (s @ t) i = cont_ok lo hi s i"
  by (simp add: cont_ok_def nth_append)

lemma cont_ok_less: "cont_ok lo hi s i \<Longrightarrow> i < length s"
  by (simp add: cont_ok_def)

lemma cont_ok_beyond: "length s \<le> i \<Longrightarrow> \<not> cont_ok lo hi s i"
  by (simp add: cont_ok_def)

lemma rune_len_append:
  assumes "s \<noteq> []" "rune_len (s @ t) \<le> length s"
  shows "rune_len s = rune_len (s @ t)"
proof -
  have hd: "hd (s @ t) = hd s" using assms(1) by simp
  have "length s \<noteq> 0" using assms(1) by simp
  then consider "length s = 1" | "length s = 2" | "length s = 3" | "4 \<le> length s" by linarith
  then show ?thesis
  proof cases
    case 1
    then have "rune_len s = 1" by (simp add: rune_len_def Let_def cont_ok_beyond)
    then show ?thesis using assms(2) 1 rune_len_pos [of "s @ t"] by linarith
  next
    case 2
    then have "cont_ok lo hi (s @ t) 1 = cont_ok lo hi s 1" for lo hi by (simp add: cont_ok_append)
    then show ?thesis using assms(2) 2
      unfolding rune_len_def Let_def hd by (simp add: cont_ok_beyond split: if_splits)
  next
    case 3
    then have "cont_ok lo hi (s @ t) 1 = cont_ok lo hi s 1" "cont_ok lo hi (s @ t) 2 = cont_ok lo hi s 2" for lo hi
      by (simp_all add: cont_ok_append)
    then show ?thesis using assms(2) 3
      unfolding rune_len_def Let_def hd by (simp add: cont_ok_beyond split: if_splits)
  next
    case 4
    then have "cont_ok lo hi (s @ t) 1 = cont_ok lo hi s 1" "cont_ok lo hi (s @ t) 2 = cont_ok lo hi s 2"
      "cont_ok lo hi (s @ t) 3 = cont_ok lo hi s 3" for lo hi
      by (simp_all add: cont_ok_append)
    then show ?thesis unfolding rune_len_def Let_def hd by simp
  qed
qed

lemma rune_len_le_length: "s \<noteq> [] \<Longrightarrow> rune_len s \<le> length s"
  using cont_ok_less [of 128 191 s 1] cont_ok_less [of 128 191 s 2] cont_ok_less [of 128 191 s 3]
  by (cases s) (auto simp: rune_len_def Let_def Suc_le_eq)

lemma rune_len_take_runes: "s \<noteq> [] \<Longrightarrow> rune_len (take_runes (Suc n) s) = rune_len s"
  using rune_len_append [of "take_runes (Suc n) s" "drop_runes (Suc n) s"] rune_len_le_length [of s]
  by (simp only: take_drop_runes) (simp add: min_def)

lemma drop_take_runes:
  "s \<noteq> [] \<Longrightarrow> drop (rune_len s) (take_runes (Suc n) s) = take_runes n (drop (rune_len s) s)"
  using rune_len_le_length [of s] by (simp add: min_def)

lemma rune_count_take_runes: "rune_count (take_runes n s) \<le> n"
proof (induction n arbitrary: s)
  case (Suc n)
  show ?case
  proof (cases "s = []")
    case False
    then have "take_runes (Suc n) s \<noteq> []" by simp
    then have "rune_count (take_runes (Suc n) s) = Suc (rune_count (take_runes n (drop (rune_len s) s)))"
      using rune_count_step [of "take_runes (Suc n) s"] rune_len_take_runes [OF False] drop_take_runes [OF False]
      by metis
    then show ?thesis using Suc [of "drop (rune_len s) s"] by linarith
  qed simp
qed simp

lemma take_runes_idem [simp]: "take_runes n (take_runes n s) = take_runes n s"
  by (rule take_runes_short) (rule rune_count_take_runes)

end
