(* ===== verification/Users.thy ===== *)
theory Users
  imports Roles Uuid Varchar
begin

text \<open>
  The data of the user domain: \<^verbatim>\<open>internal/domains/user/bus/models.go\<close> and \<^verbatim>\<open>filter.go\<close>, and the row
  struct of \<^verbatim>\<open>internal/domains/user/store/userdb/models.go\<close> with its conversions. A pointer field
  is an \<open>option\<close>. A \<^verbatim>\<open>time.Time\<close> is the instant in nanoseconds since the Unix epoch.
\<close>

type_synonym gotime = int

record mail_address =
  ma_name :: string
  ma_address :: string

record user =
  u_id :: uuid
  u_name :: string
  u_email :: mail_address
  u_roles :: "role list"
  u_password_hash :: string
  u_department :: string
  u_enabled :: bool
  u_created_at :: gotime
  u_updated_at :: gotime

record new_user =
  nu_name :: string
  nu_email :: mail_address
  nu_roles :: "role list"
  nu_department :: string
  nu_password :: string

text \<open>\<^verbatim>\<open>Roles []Role\<close> of an update is a slice that may be nil, which means no change.\<close>

record update_user =
  uu_name :: "string option"
  uu_email :: "mail_address option"
  uu_roles :: "role list option"
  uu_department :: "string option"
  uu_password :: "string option"
  uu_enabled :: "bool option"

record query_filter =
  qf_name :: "string option"
  qf_department :: "string option"
  qf_roles :: "role list option"
  qf_start_created_at :: "gotime option"
  qf_end_created_at :: "gotime option"

section \<open>The row struct\<close>

record null_string =
  ns_string :: string
  ns_valid :: bool

record user_row =
  ur_id :: uuid
  ur_name :: string
  ur_email :: string
  ur_roles :: "role list"
  ur_password_hash :: string
  ur_department :: null_string
  ur_enabled :: bool
  ur_created_at :: gotime
  ur_updated_at :: gotime

definition from_bus_user :: "user \<Rightarrow> user_row" where
  "from_bus_user usr =
     \<lparr>ur_id = u_id usr,
      ur_name = u_name usr,
      ur_email = ma_address (u_email usr),
      ur_roles = u_roles usr,
      ur_password_hash = u_password_hash usr,
      ur_department = \<lparr>ns_string = u_department usr, ns_valid = (u_department usr \<noteq> [])\<rparr>,
      ur_enabled = u_enabled usr,
      ur_created_at = u_created_at usr,
      ur_updated_at = u_updated_at usr\<rparr>"

definition to_user_bus :: "user_row \<Rightarrow> user" where
  "to_user_bus usr =
     (let email = \<lparr>ma_name = ur_name usr, ma_address = ur_email usr\<rparr>
      in \<lparr>u_id = ur_id usr,
          u_name = ur_name usr,
          u_email = email,
          u_roles = ur_roles usr,
          u_password_hash = ur_password_hash usr,
          u_department = ns_string (ur_department usr),
          u_enabled = ur_enabled usr,
          u_created_at = ur_created_at usr,
          u_updated_at = ur_updated_at usr\<rparr>)"

text \<open>
  Time is stored by PostgreSQL with microsecond resolution: \<open>trunc_micro\<close> is
  \<^verbatim>\<open>time.Truncate(time.Microsecond)\<close> and what a stored instant is read back as.
\<close>

definition trunc_micro :: "gotime \<Rightarrow> gotime" where
  "trunc_micro t = t - t mod 1000"

definition trunc_second :: "gotime \<Rightarrow> gotime" where
  "trunc_second t = t - t mod 1000000000"

lemma trunc_micro_idem [simp]: "trunc_micro (trunc_micro t) = trunc_micro t"
  by (simp add: trunc_micro_def minus_mod_eq_mult_div)

lemma trunc_micro_bounds: "trunc_micro t \<le> t" "t < trunc_micro t + 1000"
  unfolding trunc_micro_def using pos_mod_bound [of 1000 t] pos_mod_sign [of 1000 t] by auto

lemma trunc_second_bounds: "trunc_second t \<le> t" "t < trunc_second t + 1000000000"
  unfolding trunc_second_def
  using pos_mod_bound [of 1000000000 t] pos_mod_sign [of 1000000000 t] by auto

text \<open>
  What the store gives back of a user: the display name of the mail address is replaced by the
  user's name (the table has no column for it), the instants lose their nanoseconds, and a text that is
  too long for its column loses the spaces beyond.
\<close>

definition stored_user :: "user \<Rightarrow> user" where
  "stored_user usr = usr
     \<lparr>u_name := take_runes 200 (u_name usr),
      u_email := \<lparr>ma_name = take_runes 200 (u_name usr), ma_address = take_runes 300 (ma_address (u_email usr))\<rparr>,
      u_department := take_runes 100 (u_department usr),
      u_created_at := trunc_micro (u_created_at usr),
      u_updated_at := trunc_micro (u_updated_at usr)\<rparr>"

lemma to_from_bus_user:
  "to_user_bus (from_bus_user usr) =
     usr\<lparr>u_email := \<lparr>ma_name = u_name usr, ma_address = ma_address (u_email usr)\<rparr>\<rparr>"
  by (simp add: to_user_bus_def from_bus_user_def Let_def)

lemma stored_user_simps [simp]:
  "u_id (stored_user u) = u_id u" "u_roles (stored_user u) = u_roles u"
  "u_password_hash (stored_user u) = u_password_hash u" "u_enabled (stored_user u) = u_enabled u"
  "stored_user (stored_user u) = stored_user u"
  by (simp_all add: stored_user_def)

lemma stored_user_texts:
  "u_name (stored_user u) = take_runes 200 (u_name u)"
  "ma_address (u_email (stored_user u)) = take_runes 300 (ma_address (u_email u))"
  "u_department (stored_user u) = take_runes 100 (u_department u)"
  by (simp_all add: stored_user_def)

text \<open>A user that was stored.\<close>

lemma stored_fix:
  assumes "stored_user u = u"
  shows "trunc_micro (u_created_at u) = u_created_at u" "trunc_micro (u_updated_at u) = u_updated_at u"
    "ma_name (u_email u) = u_name u"
proof -
  have "trunc_micro (u_created_at u) = u_created_at (stored_user u)"
    "trunc_micro (u_updated_at u) = u_updated_at (stored_user u)"
    "ma_name (u_email (stored_user u)) = u_name (stored_user u)"
    by (simp_all add: stored_user_def)
  then show "trunc_micro (u_created_at u) = u_created_at u" "trunc_micro (u_updated_at u) = u_updated_at u"
    "ma_name (u_email u) = u_name u"
    by (simp_all only: assms)
qed

end
