(* ===== verification/Jwt.thy ===== *)
theory Jwt
  imports Base64 JsonDecode Keystore Users
begin

text \<open>
  The vendored \<^verbatim>\<open>github.com/golang-jwt/jwt/v4\<close> as the program uses it: signing with RS256, splitting,
  decoding and verifying a token, and the validity of the registered claims. The text of JSON, RSA
  itself and the reading of a decimal number as a floating-point one are in \<open>jwt_env\<close>.
\<close>

record jwt_env =
  jw_crypto :: crypto
  rsa_sign :: "rsa_private \<Rightarrow> string \<Rightarrow> string res"
  rsa_verify :: "rsa_public \<Rightarrow> string \<Rightarrow> string \<Rightarrow> go_err option"
  json_marshal :: "json \<Rightarrow> string"
  json_unmarshal :: "string \<Rightarrow> json res"
  json_decode :: "string \<Rightarrow> json res"
  num_seconds :: "string \<Rightarrow> int option"

section \<open>Claims\<close>

text \<open>Times are instants in nanoseconds. A nil slice of roles is the empty list.\<close>

record claims =
  cl_issuer :: string
  cl_subject :: string
  cl_audience :: "string list"
  cl_expires_at :: "gotime option"
  cl_not_before :: "gotime option"
  cl_issued_at :: "gotime option"
  cl_id :: string
  cl_roles :: "string list"

definition no_claims :: claims where
  "no_claims = \<lparr>cl_issuer = [], cl_subject = [], cl_audience = [], cl_expires_at = None,
     cl_not_before = None, cl_issued_at = None, cl_id = [], cl_roles = []\<rparr>"

definition new_numeric_date :: "gotime \<Rightarrow> gotime" where
  "new_numeric_date t = trunc_second t"

definition json_string_field :: "string \<Rightarrow> string \<Rightarrow> (string \<times> json) list" where
  "json_string_field k s = (if s = [] then [] else [(k, JStr s)])"

definition json_date_field :: "string \<Rightarrow> gotime option \<Rightarrow> (string \<times> json) list" where
  "json_date_field k t =
     (case t of None \<Rightarrow> [] | Some t \<Rightarrow> [(k, JNum (itoa (trunc_second t div 1000000000)))])"

definition claims_to_json :: "claims \<Rightarrow> json" where
  "claims_to_json c = JObj
     (json_string_field ''iss'' (cl_issuer c)
      @ json_string_field ''sub'' (cl_subject c)
      @ (if cl_audience c = [] then [] else [(''aud'', JArr (map JStr (cl_audience c)))])
      @ json_date_field ''exp'' (cl_expires_at c)
      @ json_date_field ''nbf'' (cl_not_before c)
      @ json_date_field ''iat'' (cl_issued_at c)
      @ json_string_field ''jti'' (cl_id c)
      @ [(''roles'', JArr (map JStr (cl_roles c)))])"

text \<open>\<^verbatim>\<open>NumericDate.UnmarshalJSON\<close> and \<^verbatim>\<open>ClaimStrings.UnmarshalJSON\<close>.\<close>

definition numeric_date :: "jwt_env \<Rightarrow> string \<Rightarrow> gotime res" where
  "numeric_date J lit =
     (case num_seconds J lit of
        None \<Rightarrow> Err (ErrPlain (''could not convert json number value to float: '' @ lit))
      | Some s \<Rightarrow> Ok (s * 1000000000))"

definition dec_date :: "jwt_env \<Rightarrow> (gotime option \<Rightarrow> 'r \<Rightarrow> 'r) \<Rightarrow> 'r field_dec" where
  "dec_date J upd j r =
     (let read = (\<lambda>lit. case numeric_date J lit of Err e \<Rightarrow> (r, Some e) | Ok t \<Rightarrow> (upd (Some t) r, None))
      in case j of
           JNull \<Rightarrow> (upd None r, None)
         | JNum lit \<Rightarrow> read lit
         | JStr lit \<Rightarrow> read lit
         | _ \<Rightarrow> (r, Some (ErrPlain ''could not parse NumericData'')))"

fun aud_elems :: "json list \<Rightarrow> string list res" where
  "aud_elems [] = Ok []"
| "aud_elems (JStr s # js) = (case aud_elems js of Err e \<Rightarrow> Err e | Ok ss \<Rightarrow> Ok (s # ss))"
| "aud_elems (j # js) = Err (ErrPlain (''json: unsupported type: '' @ json_kind j))"

definition dec_audience :: "claims field_dec" where
  "dec_audience j r =
     (case j of
        JNull \<Rightarrow> (r, None)
      | JStr s \<Rightarrow> (r\<lparr>cl_audience := [s]\<rparr>, None)
      | JArr js \<Rightarrow> (case aud_elems js of Err e \<Rightarrow> (r, Some e) | Ok ss \<Rightarrow> (r\<lparr>cl_audience := ss\<rparr>, None))
      | _ \<Rightarrow> (r, Some (ErrPlain (''json: unsupported type: '' @ json_kind j))))"

definition claims_fields :: "jwt_env \<Rightarrow> (string \<times> claims field_dec) list" where
  "claims_fields J =
     [(''iss'', dec_string ''Claims.iss'' (\<lambda>s c. c\<lparr>cl_issuer := s\<rparr>)),
      (''sub'', dec_string ''Claims.sub'' (\<lambda>s c. c\<lparr>cl_subject := s\<rparr>)),
      (''aud'', dec_audience),
      (''exp'', dec_date J (\<lambda>t c. c\<lparr>cl_expires_at := t\<rparr>)),
      (''nbf'', dec_date J (\<lambda>t c. c\<lparr>cl_not_before := t\<rparr>)),
      (''iat'', dec_date J (\<lambda>t c. c\<lparr>cl_issued_at := t\<rparr>)),
      (''jti'', dec_string ''Claims.jti'' (\<lambda>s c. c\<lparr>cl_id := s\<rparr>)),
      (''roles'', dec_string_slice ''Claims.roles''
         (\<lambda>ss c. c\<lparr>cl_roles := (case ss of None \<Rightarrow> [] | Some rs \<Rightarrow> rs)\<rparr>))]"

definition claims_of_json :: "jwt_env \<Rightarrow> json \<Rightarrow> claims res" where
  "claims_of_json J j =
     (case decode_struct ''auth.Claims'' (claims_fields J) j no_claims of
        (c, None) \<Rightarrow> Ok c
      | (c, Some e) \<Rightarrow> Err e)"

section \<open>Validity in time\<close>

definition ValidationErrorMalformed :: "32 word" where "ValidationErrorMalformed = 1"
definition ValidationErrorUnverifiable :: "32 word" where "ValidationErrorUnverifiable = 2"
definition ValidationErrorSignatureInvalid :: "32 word" where "ValidationErrorSignatureInvalid = 4"
definition ValidationErrorExpired :: "32 word" where "ValidationErrorExpired = 16"
definition ValidationErrorIssuedAt :: "32 word" where "ValidationErrorIssuedAt = 32"
definition ValidationErrorNotValidYet :: "32 word" where "ValidationErrorNotValidYet = 128"

text \<open>\<^verbatim>\<open>time.Duration.String\<close> of a difference of two instants, which \<^verbatim>\<open>Sub\<close> keeps in 64 bits.\<close>

definition frac_digits :: "nat \<Rightarrow> int \<Rightarrow> string" where
  "frac_digits n v =
     (let ds = itoa v;
          padded = replicate (n - length ds) CHR ''0'' @ ds;
          cut = rev (dropWhile (\<lambda>c. c = CHR ''0'') (rev padded))
      in if cut = [] then [] else CHR ''.'' # cut)"

definition duration_string :: "int \<Rightarrow> string" where
  "duration_string d =
     (let u = \<bar>d\<bar>;
          sign = (if d < 0 then ''-'' else []);
          secs = u div 1000000000
      in if d = 0 then ''0s''
         else sign @
           (if u < 1000 then itoa u @ ''ns''
            else if u < 1000000 then itoa (u div 1000) @ frac_digits 3 (u mod 1000) @ [CHR 0xC2, CHR 0xB5] @ ''s''
            else if u < 1000000000 then itoa (u div 1000000) @ frac_digits 6 (u mod 1000000) @ ''ms''
            else (if secs \<ge> 3600 then itoa (secs div 3600) @ ''h'' else [])
               @ (if secs \<ge> 60 then itoa (secs div 60 mod 60) @ ''m'' else [])
               @ itoa (secs mod 60) @ frac_digits 9 (u mod 1000000000) @ ''s''))"

definition time_sub :: "gotime \<Rightarrow> gotime \<Rightarrow> int" where
  "time_sub t u = max min_int64 (min max_int64 (t - u))"

definition verify_exp :: "gotime option \<Rightarrow> gotime \<Rightarrow> bool \<Rightarrow> bool" where
  "verify_exp e now required = (case e of None \<Rightarrow> \<not> required | Some t \<Rightarrow> now < t)"

definition verify_iat :: "gotime option \<Rightarrow> gotime \<Rightarrow> bool \<Rightarrow> bool" where
  "verify_iat e now required = (case e of None \<Rightarrow> \<not> required | Some t \<Rightarrow> now > t \<or> now = t)"

definition verify_nbf :: "gotime option \<Rightarrow> gotime \<Rightarrow> bool \<Rightarrow> bool" where
  "verify_nbf e now required = (case e of None \<Rightarrow> \<not> required | Some t \<Rightarrow> now > t \<or> now = t)"

definition claims_valid :: "gotime \<Rightarrow> claims \<Rightarrow> go_err option" where
  "claims_valid now c =
     (let (inner, fl) = (None, 0);
          (inner, fl) = (if \<not> verify_exp (cl_expires_at c) now False
             then (Some (ErrPlain (''token is expired by '' @
                     duration_string (time_sub now (case cl_expires_at c of Some t \<Rightarrow> t | None \<Rightarrow> 0)))),
                   or fl ValidationErrorExpired) else (inner, fl));
          (inner, fl) = (if \<not> verify_iat (cl_issued_at c) now False
             then (Some (ErrPlain ''token used before issued''), or fl ValidationErrorIssuedAt) else (inner, fl));
          (inner, fl) = (if \<not> verify_nbf (cl_not_before c) now False
             then (Some (ErrPlain ''token is not valid yet''), or fl ValidationErrorNotValidYet) else (inner, fl))
      in if fl = 0 then None else Some (ErrJwt fl inner []))"

section \<open>Signing\<close>

definition signing_string :: "jwt_env \<Rightarrow> json \<Rightarrow> claims \<Rightarrow> string" where
  "signing_string J header c =
     b64_encode (json_marshal J header) @ ''.'' @ b64_encode (json_marshal J (claims_to_json c))"

definition signed_string :: "jwt_env \<Rightarrow> json \<Rightarrow> claims \<Rightarrow> rsa_private \<Rightarrow> string res" where
  "signed_string J header c k =
     (let sstr = signing_string J header c
      in case rsa_sign J k sstr of
           Err e \<Rightarrow> Err e
         | Ok sig \<Rightarrow> Ok (sstr @ ''.'' @ b64_encode sig))"

section \<open>Parsing\<close>

fun cut :: "char \<Rightarrow> string \<Rightarrow> (string \<times> string) option" where
  "cut d [] = None"
| "cut d (c # cs) = (if c = d then Some ([], cs) else map_option (\<lambda>(a, b). (c # a, b)) (cut d cs))"

definition split_token :: "string \<Rightarrow> (string \<times> string \<times> string) option" where
  "split_token token =
     (case cut CHR ''.'' token of
        None \<Rightarrow> None
      | Some (header, remain) \<Rightarrow>
          (case cut CHR ''.'' remain of
             None \<Rightarrow> None
           | Some (claims, remain) \<Rightarrow>
               (case cut CHR ''.'' remain of
                  Some _ \<Rightarrow> None
                | None \<Rightarrow> Some (header, claims, remain))))"

definition header_of_json :: "json \<Rightarrow> (string \<times> json) list res" where
  "header_of_json j =
     (case j of
        JObj ms \<Rightarrow> Ok (rev ms)
      | JNull \<Rightarrow> Ok []
      | _ \<Rightarrow> Err (ErrPlain (''json: cannot unmarshal '' @ json_kind j @
               '' into Go value of type map[string]interface {}'')))"

definition jwt_error :: "32 word \<Rightarrow> go_err \<Rightarrow> go_err" where
  "jwt_error fl e = ErrJwt fl (Some e) []"

definition new_validation_error :: "string \<Rightarrow> 32 word \<Rightarrow> go_err" where
  "new_validation_error txt fl = ErrJwt fl None txt"

definition signing_methods :: "string list" where
  "signing_methods =
     [''ES256'', ''ES384'', ''ES512'', ''EdDSA'', ''HS256'', ''HS384'', ''HS512'', ''none'',
      ''RS256'', ''RS384'', ''RS512'', ''PS256'', ''PS384'', ''PS512'']"

text \<open>\<^verbatim>\<open>ParseUnverified\<close>: the header, the claims, the algorithm and the three parts.\<close>

definition parse_unverified ::
  "jwt_env \<Rightarrow> string \<Rightarrow> ((string \<times> json) list \<times> claims \<times> string \<times> string \<times> string \<times> string) res" where
  "parse_unverified J token =
     (case split_token token of
        None \<Rightarrow> Err (new_validation_error ''token contains an invalid number of segments'' ValidationErrorMalformed)
      | Some (p0, p1, p2) \<Rightarrow>
     (case b64_decode p0 of
        Err e \<Rightarrow>
          if has_prefix (map lower token) ''bearer ''
          then Err (new_validation_error (''tokenstring should not contain '' @ [CHR 39] @ ''bearer '' @ [CHR 39]) ValidationErrorMalformed)
          else Err (jwt_error ValidationErrorMalformed e)
      | Ok hb \<Rightarrow>
     (case json_unmarshal J hb of Err e \<Rightarrow> Err (jwt_error ValidationErrorMalformed e) | Ok hj \<Rightarrow>
     (case header_of_json hj of Err e \<Rightarrow> Err (jwt_error ValidationErrorMalformed e) | Ok header \<Rightarrow>
     (case b64_decode p1 of Err e \<Rightarrow> Err (jwt_error ValidationErrorMalformed e) | Ok cb \<Rightarrow>
     (case json_decode J cb of Err e \<Rightarrow> Err (jwt_error ValidationErrorMalformed e) | Ok cj \<Rightarrow>
     (case claims_of_json J cj of Err e \<Rightarrow> Err (jwt_error ValidationErrorMalformed e) | Ok c \<Rightarrow>
     (case map_of header ''alg'' of
        Some (JStr alg) \<Rightarrow>
          if alg \<notin> set signing_methods
          then Err (new_validation_error ''signing method (alg) is unavailable.'' ValidationErrorUnverifiable)
          else Ok (header, c, alg, p0, p1, p2)
      | _ \<Rightarrow> Err (new_validation_error ''signing method (alg) is unspecified.'' ValidationErrorUnverifiable)))))))))"

text \<open>
  \<^verbatim>\<open>ParseWithClaims\<close> of a parser that allows RS256 only, so that \<^verbatim>\<open>Method.Verify\<close> is the RSA one;
  \<open>key_func\<close> finds the public key from the header.
\<close>

definition rsa_method_verify :: "jwt_env \<Rightarrow> string \<Rightarrow> string \<Rightarrow> rsa_public \<Rightarrow> go_err option" where
  "rsa_method_verify J sstr signature key =
     (case b64_decode signature of
        Err e \<Rightarrow> Some e
      | Ok sig \<Rightarrow> rsa_verify J key sstr sig)"

definition parse_with_claims ::
  "jwt_env \<Rightarrow> gotime \<Rightarrow> string \<Rightarrow> ((string \<times> json) list \<Rightarrow> rsa_public res) \<Rightarrow> claims res" where
  "parse_with_claims J now token key_func =
     (case parse_unverified J token of
        Err e \<Rightarrow> Err e
      | Ok (header, c, alg, p0, p1, p2) \<Rightarrow>
          if alg \<noteq> ''RS256''
          then Err (new_validation_error (''signing method '' @ alg @ '' is invalid'') ValidationErrorSignatureInvalid)
          else case key_func header of
            Err e \<Rightarrow> Err (jwt_error ValidationErrorUnverifiable e)
          | Ok key \<Rightarrow>
              (case rsa_method_verify J (p0 @ ''.'' @ p1) p2 key of
                 Some e \<Rightarrow> Err (jwt_error ValidationErrorSignatureInvalid e)
               | None \<Rightarrow>
                   (case claims_valid now c of
                      Some e \<Rightarrow> Err e
                    | None \<Rightarrow> Ok c)))"

end
