(* ===== verification/Auth.thy ===== *)
theory Auth
  imports Jwt
begin

text \<open>
  \<^verbatim>\<open>internal/auth/auth.go\<close>: tokens are generated with the private key of a key id and verified with
  the public key that the token's own header names; roles are checked against a set. The user bus and
  the issuer that \<^verbatim>\<open>auth.New\<close> takes are not used by the code, so \<open>auth\<close> has neither.
\<close>

record 's auth =
  au_keys :: "'s key_api"
  au_state :: 's
  au_env :: jwt_env

definition auth_new :: "'s key_api \<Rightarrow> 's \<Rightarrow> jwt_env \<Rightarrow> 'b \<Rightarrow> string \<Rightarrow> 's auth" where
  "auth_new loader st J usr_bus issuer = \<lparr>au_keys = loader, au_state = st, au_env = J\<rparr>"

definition token_header :: "string \<Rightarrow> json" where
  "token_header kid =
     JObj [(''alg'', JStr ''RS256''), (''kid'', JStr kid), (''typ'', JStr ''JWT'')]"

definition generate_token :: "'s auth \<Rightarrow> string \<Rightarrow> claims \<Rightarrow> string res" where
  "generate_token a kid c =
     (case kl_private (au_keys a) (au_state a) kid of
        Err e \<Rightarrow> Err (ErrWrap ''privateKey'' e)
      | Ok private_key \<Rightarrow>
          (case signed_string (au_env a) (token_header kid) c private_key of
             Err e \<Rightarrow> Err (ErrWrap ''signedString'' e)
           | Ok token \<Rightarrow> Ok token))"

text \<open>The key function that \<^verbatim>\<open>VerifyToken\<close> hands to the parser.\<close>

definition verify_key :: "'s auth \<Rightarrow> (string \<times> json) list \<Rightarrow> rsa_public res" where
  "verify_key a header =
     (case map_of header ''kid'' of
        None \<Rightarrow> Err ErrKIDMissing
      | Some (JStr kid) \<Rightarrow>
          (case kl_public (au_keys a) (au_state a) kid of
             Err e \<Rightarrow> Err (ErrWrap (''fetching public key for kid['' @ kid @ '']'') e)
           | Ok pub \<Rightarrow> Ok pub)
      | Some _ \<Rightarrow> Err ErrKIDMalformed)"

definition verify_token :: "'s auth \<Rightarrow> gotime \<Rightarrow> string \<Rightarrow> claims res" where
  "verify_token a now bearer =
     (if \<not> has_prefix bearer ''Bearer ''
      then Err (ErrPlain ''expected authorization header format: Bearer <token>'')
      else (let token = drop 7 bearer in
            case parse_with_claims (au_env a) now token (verify_key a) of
              Err e \<Rightarrow> Err (ErrWrap ''parseWithClaims'' e)
            | Ok c \<Rightarrow> Ok c))"

fun authorized :: "string list \<Rightarrow> string list \<Rightarrow> go_err option" where
  "authorized [] role_set = Some ErrForbidden"
| "authorized (r # rs) role_set = (if r \<in> set role_set then None else authorized rs role_set)"

lemma authorized_iff: "authorized rs role_set = None \<longleftrightarrow> set rs \<inter> set role_set \<noteq> {}"
  by (induction rs) auto

lemma authorized_error: "authorized rs role_set = None \<or> authorized rs role_set = Some ErrForbidden"
  by (induction rs) auto

section \<open>Reading back what was written\<close>

text \<open>The JSON library reads back a value it has written.\<close>

definition json_law :: "jwt_env \<Rightarrow> json \<Rightarrow> bool" where
  "json_law J j \<longleftrightarrow> json_unmarshal J (json_marshal J j) = Ok j \<and> json_decode J (json_marshal J j) = Ok j"

text \<open>
  RSA with PKCS #1 v1.5: a signature verifies under a public key exactly when it is the one that the
  private key makes. An integer below \<open>2 ^ 53\<close> is a floating-point number.
\<close>

definition rsa_law :: "jwt_env \<Rightarrow> bool" where
  "rsa_law J \<longleftrightarrow> (\<forall>k m s. rsa_verify J (public_of (jw_crypto J) k) m s = None \<longleftrightarrow> rsa_sign J k m = Ok s)"

definition num_law :: "jwt_env \<Rightarrow> bool" where
  "num_law J \<longleftrightarrow> (\<forall>n. \<bar>n\<bar> < 9007199254740992 \<longrightarrow> num_seconds J (itoa n) = Some n)"

definition date_ok :: "gotime option \<Rightarrow> bool" where
  "date_ok t \<longleftrightarrow> (case t of None \<Rightarrow> True
     | Some t \<Rightarrow> trunc_second t = t \<and> \<bar>t div 1000000000\<bar> < 9007199254740992)"

definition claims_ok :: "claims \<Rightarrow> bool" where
  "claims_ok c \<longleftrightarrow> date_ok (cl_expires_at c) \<and> date_ok (cl_not_before c) \<and> date_ok (cl_issued_at c)"

lemma decode_members_append:
  "decode_members fs (ms @ ns) r e = (case decode_members fs ms r e of (r, e) \<Rightarrow> decode_members fs ns r e)"
  by (induction ms arbitrary: r e) (auto split: option.split prod.split)

lemma dec_date_field:
  assumes "num_law J" "date_ok t" "find_field fs k = Some (dec_date J upd)"
  shows "decode_members fs (json_date_field k t) r None = (case t of None \<Rightarrow> r | Some t \<Rightarrow> upd (Some t) r, None)"
proof (cases t)
  case (Some x)
  have "x div 1000000000 * 1000000000 = x"
    using assms(2) Some by (simp add: date_ok_def trunc_second_def minus_mod_eq_div_mult)
  then show ?thesis
    using assms Some by (simp add: json_date_field_def dec_date_def numeric_date_def num_law_def date_ok_def Let_def)
qed (simp add: json_date_field_def)

lemma dec_string_field:
  assumes "find_field fs k = Some (dec_string name upd)"
  shows "decode_members fs (json_string_field k s) r None = (if s = [] then r else upd s r, None)"
  using assms by (simp add: json_string_field_def dec_string_def)

lemma aud_elems_strings [simp]: "aud_elems (map JStr ss) = Ok ss"
  by (induction ss) auto

lemma claims_round_trip:
  assumes "num_law J" "claims_ok c"
  shows "claims_of_json J (claims_to_json c) = Ok c"
proof -
  note date = dec_date_field [OF assms(1)]
  have d: "date_ok (cl_expires_at c)" "date_ok (cl_not_before c)" "date_ok (cl_issued_at c)"
    using assms(2) by (simp_all add: claims_ok_def)
  have fs: "find_field (claims_fields J) ''iss'' = Some (dec_string ''Claims.iss'' (\<lambda>s c. c\<lparr>cl_issuer := s\<rparr>))"
    "find_field (claims_fields J) ''sub'' = Some (dec_string ''Claims.sub'' (\<lambda>s c. c\<lparr>cl_subject := s\<rparr>))"
    "find_field (claims_fields J) ''aud'' = Some dec_audience"
    "find_field (claims_fields J) ''exp'' = Some (dec_date J (\<lambda>t c. c\<lparr>cl_expires_at := t\<rparr>))"
    "find_field (claims_fields J) ''nbf'' = Some (dec_date J (\<lambda>t c. c\<lparr>cl_not_before := t\<rparr>))"
    "find_field (claims_fields J) ''iat'' = Some (dec_date J (\<lambda>t c. c\<lparr>cl_issued_at := t\<rparr>))"
    "find_field (claims_fields J) ''jti'' = Some (dec_string ''Claims.jti'' (\<lambda>s c. c\<lparr>cl_id := s\<rparr>))"
    "find_field (claims_fields J) ''roles'' = Some (dec_string_slice ''Claims.roles''
         (\<lambda>ss c. c\<lparr>cl_roles := (case ss of None \<Rightarrow> [] | Some rs \<Rightarrow> rs)\<rparr>))"
    by (simp_all add: claims_fields_def find_field_def)
  have aud: "decode_members (claims_fields J)
      (if cl_audience c = [] then [] else [(''aud'', JArr (map JStr (cl_audience c)))]) r None =
      (if cl_audience c = [] then r else r\<lparr>cl_audience := cl_audience c\<rparr>, None)" for r
    by (simp add: fs dec_audience_def)
  have roles: "decode_members (claims_fields J) [(''roles'', JArr (map JStr (cl_roles c)))] r None =
      (r\<lparr>cl_roles := cl_roles c\<rparr>, None)" for r
    by (simp add: fs dec_string_slice_def)
  have "decode_struct ''auth.Claims'' (claims_fields J) (claims_to_json c) no_claims = (c, None)"
    unfolding claims_to_json_def decode_struct_def json.case
    unfolding decode_members_append prod.case dec_string_field [OF fs(1)] dec_string_field [OF fs(2)]
      dec_string_field [OF fs(7)] aud roles date [OF d(1) fs(4)] date [OF d(2) fs(5)] date [OF d(3) fs(6)]
    by (cases c; cases "cl_expires_at c"; cases "cl_not_before c"; cases "cl_issued_at c")
      (simp_all add: no_claims_def)
  then show ?thesis by (simp add: claims_of_json_def)
qed

section \<open>Splitting\<close>

lemma cut_append: "d \<notin> set a \<Longrightarrow> cut d (a @ d # b) = Some (a, b)"
  by (induction a) auto

lemma cut_None: "cut d s = None \<longleftrightarrow> d \<notin> set s"
  by (induction s) auto

lemma cut_Some: "cut d s = Some (a, b) \<Longrightarrow> s = a @ d # b \<and> d \<notin> set a"
  by (induction s arbitrary: a) (auto split: if_splits)

lemma split_token_iff:
  "split_token t = Some (a, b, c) \<longleftrightarrow>
     t = a @ ''.'' @ b @ ''.'' @ c \<and> CHR ''.'' \<notin> set a \<and> CHR ''.'' \<notin> set b \<and> CHR ''.'' \<notin> set c"
proof
  assume "split_token t = Some (a, b, c)"
  then show "t = a @ ''.'' @ b @ ''.'' @ c \<and> CHR ''.'' \<notin> set a \<and> CHR ''.'' \<notin> set b \<and> CHR ''.'' \<notin> set c"
    by (auto simp: split_token_def cut_None split: option.splits dest!: cut_Some)
next
  assume t: "t = a @ ''.'' @ b @ ''.'' @ c \<and> CHR ''.'' \<notin> set a \<and> CHR ''.'' \<notin> set b \<and> CHR ''.'' \<notin> set c"
  then show "split_token t = Some (a, b, c)"
    using cut_None [of "CHR ''.''" c] by (simp add: split_token_def cut_append)
qed

section \<open>What verification means\<close>

text \<open>The claims are within their time at \<open>now\<close>.\<close>

definition in_time :: "gotime \<Rightarrow> claims \<Rightarrow> bool" where
  "in_time now c \<longleftrightarrow>
     (case cl_expires_at c of None \<Rightarrow> True | Some t \<Rightarrow> now < t) \<and>
     (case cl_issued_at c of None \<Rightarrow> True | Some t \<Rightarrow> t \<le> now) \<and>
     (case cl_not_before c of None \<Rightarrow> True | Some t \<Rightarrow> t \<le> now)"

lemma claims_valid_iff: "claims_valid now c = None \<longleftrightarrow> in_time now c"
  by (cases "cl_expires_at c"; cases "cl_issued_at c"; cases "cl_not_before c")
    (auto simp: claims_valid_def in_time_def verify_exp_def verify_iat_def verify_nbf_def Let_def
      ValidationErrorExpired_def ValidationErrorIssuedAt_def ValidationErrorNotValidYet_def)

text \<open>
  \<open>signed_token a c token\<close>: the token has three parts of which the third is the signature, made with
  a private key of the store under a name that the header gives, of the first two; the header
  asks for RS256 and the payload decodes to \<open>c\<close>.
\<close>

definition signed_token :: "'s auth \<Rightarrow> claims \<Rightarrow> string \<Rightarrow> bool" where
  "signed_token a c token \<longleftrightarrow>
     (\<exists>p0 p1 p2 hb cb hj cj header kid k sig.
        token = p0 @ ''.'' @ p1 @ ''.'' @ p2 \<and>
        b64_decode p0 = Ok hb \<and> json_unmarshal (au_env a) hb = Ok hj \<and> header_of_json hj = Ok header \<and>
        map_of header ''alg'' = Some (JStr ''RS256'') \<and> map_of header ''kid'' = Some (JStr kid) \<and>
        b64_decode p1 = Ok cb \<and> json_decode (au_env a) cb = Ok cj \<and> claims_of_json (au_env a) cj = Ok c \<and>
        kl_private (au_keys a) (au_state a) kid = Ok k \<and>
        b64_decode p2 = Ok sig \<and> rsa_sign (au_env a) k (p0 @ ''.'' @ p1) = Ok sig)"

lemma parse_unverified_Ok:
  "parse_unverified J token = Ok (header, c, alg, p0, p1, p2) \<longleftrightarrow>
     (\<exists>hb cb hj cj. split_token token = Some (p0, p1, p2) \<and>
        b64_decode p0 = Ok hb \<and> json_unmarshal J hb = Ok hj \<and> header_of_json hj = Ok header \<and>
        b64_decode p1 = Ok cb \<and> json_decode J cb = Ok cj \<and> claims_of_json J cj = Ok c \<and>
        map_of header ''alg'' = Some (JStr alg) \<and> alg \<in> set signing_methods)"
proof
  assume l: "parse_unverified J token = Ok (header, c, alg, p0, p1, p2)"
  then obtain q0 q1 q2 where q: "split_token token = Some (q0, q1, q2)"
    by (cases "split_token token") (auto simp: parse_unverified_def)
  from l q obtain hb where hb: "b64_decode q0 = Ok hb"
    by (cases "b64_decode q0") (auto simp: parse_unverified_def split: if_splits)
  from l q hb obtain hj where hj: "json_unmarshal J hb = Ok hj"
    by (cases "json_unmarshal J hb") (auto simp: parse_unverified_def)
  from l q hb hj obtain h where h: "header_of_json hj = Ok h"
    by (cases "header_of_json hj") (auto simp: parse_unverified_def)
  from l q hb hj h obtain cb where cb: "b64_decode q1 = Ok cb"
    by (cases "b64_decode q1") (auto simp: parse_unverified_def)
  from l q hb hj h cb obtain cj where cj: "json_decode J cb = Ok cj"
    by (cases "json_decode J cb") (auto simp: parse_unverified_def)
  from l q hb hj h cb cj obtain c' where c: "claims_of_json J cj = Ok c'"
    by (cases "claims_of_json J cj") (auto simp: parse_unverified_def)
  from l q hb hj h cb cj c show "\<exists>hb cb hj cj. split_token token = Some (p0, p1, p2) \<and>
        b64_decode p0 = Ok hb \<and> json_unmarshal J hb = Ok hj \<and> header_of_json hj = Ok header \<and>
        b64_decode p1 = Ok cb \<and> json_decode J cb = Ok cj \<and> claims_of_json J cj = Ok c \<and>
        map_of header ''alg'' = Some (JStr alg) \<and> alg \<in> set signing_methods"
    by (auto simp: parse_unverified_def split: option.splits json.splits if_splits)
next
  assume "\<exists>hb cb hj cj. split_token token = Some (p0, p1, p2) \<and>
        b64_decode p0 = Ok hb \<and> json_unmarshal J hb = Ok hj \<and> header_of_json hj = Ok header \<and>
        b64_decode p1 = Ok cb \<and> json_decode J cb = Ok cj \<and> claims_of_json J cj = Ok c \<and>
        map_of header ''alg'' = Some (JStr alg) \<and> alg \<in> set signing_methods"
  then show "parse_unverified J token = Ok (header, c, alg, p0, p1, p2)"
    by (auto simp: parse_unverified_def)
qed

lemma verify_key_Ok:
  "verify_key a header = Ok p \<longleftrightarrow>
     (\<exists>kid. map_of header ''kid'' = Some (JStr kid) \<and> kl_public (au_keys a) (au_state a) kid = Ok p)"
  by (auto simp: verify_key_def split: option.splits json.splits sum.splits)

lemma verify_token_Ok:
  "verify_token a now bearer = Ok c \<longleftrightarrow>
     (\<exists>token header p0 p1 p2 key. bearer = ''Bearer '' @ token \<and>
        parse_unverified (au_env a) token = Ok (header, c, ''RS256'', p0, p1, p2) \<and>
        verify_key a header = Ok key \<and> rsa_method_verify (au_env a) (p0 @ ''.'' @ p1) p2 key = None \<and>
        in_time now c)"
proof -
  have "has_prefix bearer ''Bearer '' \<longleftrightarrow> (\<exists>token. bearer = ''Bearer '' @ token)"
    by (metis append_eq_conv_conj append_take_drop_id)
  moreover have "parse_with_claims (au_env a) now token (verify_key a) = Ok c \<longleftrightarrow>
     (\<exists>header p0 p1 p2 key. parse_unverified (au_env a) token = Ok (header, c, ''RS256'', p0, p1, p2) \<and>
        verify_key a header = Ok key \<and> rsa_method_verify (au_env a) (p0 @ ''.'' @ p1) p2 key = None \<and>
        in_time now c)" for token
    by (auto simp: parse_with_claims_def claims_valid_iff [symmetric]
        split: sum.splits prod.splits option.splits if_splits)
  moreover have "verify_token a now bearer = Ok c \<longleftrightarrow>
      has_prefix bearer ''Bearer '' \<and> parse_with_claims (au_env a) now (drop 7 bearer) (verify_key a) = Ok c"
    by (auto simp: verify_token_def split: sum.splits)
  moreover have "drop 7 (''Bearer '' @ token) = token" for token by simp
  ultimately show ?thesis by (metis (no_types, lifting))
qed

context key_loader
begin

text \<open>Who holds none of the private keys cannot make a token that is accepted.\<close>

lemma verify_sound:
  assumes "au_keys a = api" "valid (jw_crypto (au_env a)) (au_state a)" "rsa_law (au_env a)"
    and "verify_token a now bearer = Ok c"
  shows "\<exists>token. bearer = ''Bearer '' @ token \<and> signed_token a c token \<and> in_time now c"
proof -
  obtain token header p0 p1 p2 key where t: "bearer = ''Bearer '' @ token"
    and u: "parse_unverified (au_env a) token = Ok (header, c, ''RS256'', p0, p1, p2)"
    and k: "verify_key a header = Ok key"
    and v: "rsa_method_verify (au_env a) (p0 @ ''.'' @ p1) p2 key = None" and i: "in_time now c"
    using assms(4) unfolding verify_token_Ok by blast
  obtain kid where kid: "map_of header ''kid'' = Some (JStr kid)"
    and pub: "kl_public api (au_state a) kid = Ok key"
    using k assms(1) by (auto simp: verify_key_Ok)
  obtain pk where pk: "kl_private api (au_state a) kid = Ok pk" "key = public_of (jw_crypto (au_env a)) pk"
    using source [OF assms(2) pub] by blast
  obtain sig where sig: "b64_decode p2 = Ok sig" "rsa_verify (au_env a) key (p0 @ ''.'' @ p1) sig = None"
    using v by (auto simp: rsa_method_verify_def split: sum.splits)
  have "rsa_sign (au_env a) pk (p0 @ ''.'' @ p1) = Ok sig"
    using sig(2) assms(3) pk(2) by (simp add: rsa_law_def)
  then have "signed_token a c token"
    using u kid pk(1) sig(1) assms(1) unfolding signed_token_def parse_unverified_Ok split_token_iff by blast
  with t i show ?thesis by blast
qed

lemma verify_generated:
  assumes "au_keys a = api" "valid (jw_crypto (au_env a)) (au_state a)" "rsa_law (au_env a)"
    and "num_law (au_env a)" "claims_ok c" "json_law (au_env a) (token_header kid)"
    and "json_law (au_env a) (claims_to_json c)" "in_time now c"
    and "generate_token a kid c = Ok token"
  shows "verify_token a now (''Bearer '' @ token) = Ok c"
proof -
  let ?J = "au_env a"
  let ?p0 = "b64_encode (json_marshal ?J (token_header kid))"
  let ?p1 = "b64_encode (json_marshal ?J (claims_to_json c))"
  obtain k where k: "kl_private api (au_state a) kid = Ok k"
    using assms(1,9) by (auto simp: generate_token_def split: sum.splits)
  obtain sig where sig: "rsa_sign ?J k (?p0 @ ''.'' @ ?p1) = Ok sig"
    and token: "token = ?p0 @ ''.'' @ ?p1 @ ''.'' @ b64_encode sig"
    using assms(1,9) k
    by (auto simp: generate_token_def signed_string_def signing_string_def Let_def split: sum.splits)
  have sp: "split_token token = Some (?p0, ?p1, b64_encode sig)"
    using token by (simp add: split_token_iff b64_encode_no_dot)
  let ?h = "[(''typ'', JStr ''JWT''), (''kid'', JStr kid), (''alg'', JStr ''RS256'')]"
  have "parse_unverified ?J token = Ok (?h, c, ''RS256'', ?p0, ?p1, b64_encode sig)"
    unfolding parse_unverified_Ok
    using sp assms(6,7) claims_round_trip [OF assms(4,5)]
    by (simp add: json_law_def header_of_json_def token_header_def signing_methods_def)
  moreover have "verify_key a ?h = Ok (public_of (jw_crypto ?J) k)"
    using pair [OF assms(2) k] assms(1) by (simp add: verify_key_def)
  moreover have "rsa_method_verify ?J (?p0 @ ''.'' @ ?p1) (b64_encode sig) (public_of (jw_crypto ?J) k) = None"
    using sig assms(3) by (simp add: rsa_method_verify_def rsa_law_def)
  ultimately show ?thesis
    unfolding verify_token_Ok using assms(8) by blast
qed

end

end
