(* ===== verification/Validation.thy ===== *)
theory Validation
  imports JsonDecode Users
begin

text \<open>
  The struct validation that gin's binding runs: the loop of \<^verbatim>\<open>traverseField\<close> over the tags of a field
  (\<^verbatim>\<open>vendor/github.com/go-playground/validator/v10/validator.go\<close>) and the checks behind the tags that
  the program's models use (\<^verbatim>\<open>baked_in.go\<close>). A check on a value of a kind it does not know panics.
\<close>

text \<open>
  What the checks take from \<^verbatim>\<open>net/mail\<close>, the email pattern, \<^verbatim>\<open>time\<close> (RFC 3339) and the English
  translations.
\<close>

record text_env =
  mail_parse :: "string \<Rightarrow> mail_address res"
  email_regex :: "string \<Rightarrow> bool"
  time_parse :: "string \<Rightarrow> gotime res"
  time_format :: "gotime \<Rightarrow> string"
  translate :: "field_error \<Rightarrow> string"

section \<open>Values and tags\<close>

datatype vval =
    VStr string
  | VStrPtr "string option"
  | VBoolPtr "bool option"
  | VSlice "string list option"

datatype vtag =
    TOmitEmpty
  | TRequired
  | TMin nat
  | TMax nat
  | TGt nat
  | TOneOf "string list"
  | TEmail
  | TEqField string
  | TDatetime string
  | TDive

record vfield =
  vf_name :: string
  vf_alt :: string
  vf_value :: vval
  vf_tags :: "vtag list"

text \<open>
  The tag-name function that \<^verbatim>\<open>internal/mid/errors.go\<close> registers: what the \<^verbatim>\<open>json\<close> tag has before a
  comma. Without one the validator keeps the name of the field.
\<close>

definition json_tag_name :: "string \<Rightarrow> string" where
  "json_tag_name tag = (let name = hd (split_on CHR '','' tag) in if name = ''-'' then [] else name)"

definition alt_name :: "string \<Rightarrow> string \<Rightarrow> string" where
  "alt_name field tag = (let name = json_tag_name tag in if length name = 0 then field else name)"

fun tag_name :: "vtag \<Rightarrow> string" where
  "tag_name TOmitEmpty = ''omitempty''"
| "tag_name TRequired = ''required''"
| "tag_name (TMin n) = ''min''"
| "tag_name (TMax n) = ''max''"
| "tag_name (TGt n) = ''gt''"
| "tag_name (TOneOf vs) = ''oneof''"
| "tag_name TEmail = ''email''"
| "tag_name (TEqField f) = ''eqfield''"
| "tag_name (TDatetime l) = ''datetime''"
| "tag_name TDive = ''dive''"

fun tag_param :: "vtag \<Rightarrow> string" where
  "tag_param (TMin n) = itoa (int n)"
| "tag_param (TMax n) = itoa (int n)"
| "tag_param (TGt n) = itoa (int n)"
| "tag_param (TOneOf vs) = join '' '' vs"
| "tag_param (TEqField f) = f"
| "tag_param (TDatetime l) = l"
| "tag_param _ = []"

text \<open>
  A value behind its pointers (\<^verbatim>\<open>extractTypeInternal\<close>), with its kind; the flag says that a pointer was
  followed (\<^verbatim>\<open>fldIsPointer\<close>).
\<close>

datatype vkind = KString string | KSlice "string list option" | KBool bool | KNilPtr

fun extract_kind :: "vval \<Rightarrow> vkind \<times> bool" where
  "extract_kind (VStr s) = (KString s, False)"
| "extract_kind (VStrPtr (Some s)) = (KString s, True)"
| "extract_kind (VStrPtr None) = (KNilPtr, True)"
| "extract_kind (VBoolPtr (Some b)) = (KBool b, True)"
| "extract_kind (VBoolPtr None) = (KNilPtr, True)"
| "extract_kind (VSlice ss) = (KSlice ss, False)"

section \<open>The checks\<close>

datatype check = Pass | Fail | CheckPanic string

definition of_bool :: "bool \<Rightarrow> check" where
  "of_bool b = (if b then Pass else Fail)"

fun has_value :: "vkind \<Rightarrow> bool \<Rightarrow> bool" where
  "has_value (KSlice ss) ptr = (ss \<noteq> None)"
| "has_value KNilPtr ptr = False"
| "has_value (KString s) ptr = (ptr \<or> s \<noteq> [])"
| "has_value (KBool b) ptr = (ptr \<or> b)"

definition slice_len :: "string list option \<Rightarrow> nat" where
  "slice_len ss = (case ss of None \<Rightarrow> 0 | Some l \<Rightarrow> length l)"

fun kind_type :: "vkind \<Rightarrow> string" where
  "kind_type (KString s) = ''string''"
| "kind_type (KSlice ss) = ''[]string''"
| "kind_type (KBool b) = ''bool''"
| "kind_type KNilPtr = ''ptr''"

definition bad_type :: "vkind \<Rightarrow> check" where
  "bad_type k = CheckPanic (''Bad field type '' @ kind_type k)"

definition is_eq_field :: "(string \<Rightarrow> vval option) \<Rightarrow> string \<Rightarrow> vkind \<Rightarrow> bool" where
  "is_eq_field parent f k =
     (case parent f of
        None \<Rightarrow> False
      | Some v \<Rightarrow>
          (case (k, fst (extract_kind v)) of
             (KString s, KString t) \<Rightarrow> s = t
           | (KBool b, KBool c) \<Rightarrow> b = c
           | (KSlice s, KSlice t) \<Rightarrow> slice_len s = slice_len t
           | _ \<Rightarrow> False))"

definition is_email :: "text_env \<Rightarrow> string \<Rightarrow> bool" where
  "is_email T s = (case mail_parse T s of Err e \<Rightarrow> False | Ok a \<Rightarrow> email_regex T s)"

definition run_check ::
  "text_env \<Rightarrow> (string \<Rightarrow> vval option) \<Rightarrow> vkind \<Rightarrow> bool \<Rightarrow> vtag \<Rightarrow> check" where
  "run_check T parent k ptr t =
     (case t of
        TRequired \<Rightarrow> of_bool (has_value k ptr)
      | TMin n \<Rightarrow> (case k of KString s \<Rightarrow> of_bool (rune_count s \<ge> n)
                          | KSlice ss \<Rightarrow> of_bool (slice_len ss \<ge> n) | _ \<Rightarrow> bad_type k)
      | TMax n \<Rightarrow> (case k of KString s \<Rightarrow> of_bool (rune_count s \<le> n)
                          | KSlice ss \<Rightarrow> of_bool (slice_len ss \<le> n) | _ \<Rightarrow> bad_type k)
      | TGt n \<Rightarrow> (case k of KString s \<Rightarrow> of_bool (rune_count s > n)
                         | KSlice ss \<Rightarrow> of_bool (slice_len ss > n) | _ \<Rightarrow> bad_type k)
      | TOneOf vs \<Rightarrow> (case k of KString s \<Rightarrow> of_bool (s \<in> set vs) | _ \<Rightarrow> bad_type k)
      | TEmail \<Rightarrow> of_bool (case k of KString s \<Rightarrow> is_email T s | _ \<Rightarrow> False)
      | TEqField f \<Rightarrow> of_bool (is_eq_field parent f k)
      | TDatetime l \<Rightarrow>
          (case k of KString s \<Rightarrow> of_bool (case time_parse T s of Ok t \<Rightarrow> True | Err e \<Rightarrow> False)
                   | _ \<Rightarrow> bad_type k)
      | _ \<Rightarrow> Pass)"

section \<open>traverseField\<close>

text \<open>The errors of a field, or the panic that ends the validation.\<close>

datatype verdict = Errs "field_error list" | VPanic string

definition verdict_seq :: "verdict \<Rightarrow> verdict \<Rightarrow> verdict" where
  "verdict_seq v w =
     (case v of VPanic m \<Rightarrow> VPanic m
      | Errs es \<Rightarrow> (case w of VPanic m \<Rightarrow> VPanic m | Errs fs \<Rightarrow> Errs (es @ fs)))"

definition mk_field_error :: "string \<Rightarrow> string \<Rightarrow> vtag \<Rightarrow> field_error" where
  "mk_field_error ns alt t =
     \<lparr>fe_ns = ns @ alt, fe_field = alt, fe_tag = tag_name t, fe_param = tag_param t\<rparr>"

text \<open>
  The loop over the tags of a value that is no nil pointer. \<^verbatim>\<open>dive\<close> applies the remaining tags to each
  element; the elements here are strings, and a second \<^verbatim>\<open>dive\<close> would panic.
\<close>

fun check_elem ::
  "text_env \<Rightarrow> (string \<Rightarrow> vval option) \<Rightarrow> string \<Rightarrow> string \<Rightarrow> string \<Rightarrow> vtag list \<Rightarrow> verdict" where
  "check_elem T parent ns alt s [] = Errs []"
| "check_elem T parent ns alt s (t # ts) =
     (case t of
        TOmitEmpty \<Rightarrow> if s = [] then Errs [] else check_elem T parent ns alt s ts
      | TDive \<Rightarrow> VPanic (''dive error! can'' @ [CHR 39] @ ''t dive on a non slice or map'')
      | _ \<Rightarrow>
          (case run_check T parent (KString s) False t of
             Pass \<Rightarrow> check_elem T parent ns alt s ts
           | Fail \<Rightarrow> Errs [mk_field_error ns alt t]
           | CheckPanic m \<Rightarrow> VPanic m))"

definition elem_alt :: "string \<Rightarrow> nat \<Rightarrow> string" where
  "elem_alt alt i = alt @ ''['' @ itoa (int i) @ '']''"

fun check_elems ::
  "text_env \<Rightarrow> (string \<Rightarrow> vval option) \<Rightarrow> string \<Rightarrow> string \<Rightarrow> nat \<Rightarrow> string list \<Rightarrow> vtag list \<Rightarrow> verdict" where
  "check_elems T parent ns alt i [] ts = Errs []"
| "check_elems T parent ns alt i (s # ss) ts =
     verdict_seq (check_elem T parent ns (elem_alt alt i) s ts)
       (check_elems T parent ns alt (Suc i) ss ts)"

fun check_tags ::
  "text_env \<Rightarrow> (string \<Rightarrow> vval option) \<Rightarrow> string \<Rightarrow> string \<Rightarrow> vkind \<Rightarrow> bool \<Rightarrow> vtag list \<Rightarrow> verdict" where
  "check_tags T parent ns alt k ptr [] = Errs []"
| "check_tags T parent ns alt k ptr (t # ts) =
     (case t of
        TOmitEmpty \<Rightarrow> if has_value k ptr then check_tags T parent ns alt k ptr ts else Errs []
      | TDive \<Rightarrow>
          (case k of
             KSlice ss \<Rightarrow> check_elems T parent ns alt 0 (case ss of None \<Rightarrow> [] | Some l \<Rightarrow> l) ts
           | _ \<Rightarrow> VPanic (''dive error! can'' @ [CHR 39] @ ''t dive on a non slice or map''))
      | _ \<Rightarrow>
          (case run_check T parent k ptr t of
             Pass \<Rightarrow> check_tags T parent ns alt k ptr ts
           | Fail \<Rightarrow> Errs [mk_field_error ns alt t]
           | CheckPanic m \<Rightarrow> VPanic m))"

text \<open>A nil pointer passes without tags or when the first one is \<^verbatim>\<open>omitempty\<close>, and fails otherwise.\<close>

definition traverse_field ::
  "text_env \<Rightarrow> (string \<Rightarrow> vval option) \<Rightarrow> string \<Rightarrow> vfield \<Rightarrow> verdict" where
  "traverse_field T parent ns f =
     (case extract_kind (vf_value f) of
        (KNilPtr, _) \<Rightarrow>
          (case vf_tags f of
             [] \<Rightarrow> Errs []
           | t # _ \<Rightarrow> if t = TOmitEmpty then Errs [] else Errs [mk_field_error ns (vf_alt f) t])
      | (k, ptr) \<Rightarrow> check_tags T parent ns (vf_alt f) k ptr (vf_tags f))"

text \<open>\<^verbatim>\<open>validateStruct\<close>: the fields in order.\<close>

fun traverse_fields ::
  "text_env \<Rightarrow> (string \<Rightarrow> vval option) \<Rightarrow> string \<Rightarrow> vfield list \<Rightarrow> verdict" where
  "traverse_fields T parent ns [] = Errs []"
| "traverse_fields T parent ns (f # fs) =
     verdict_seq (traverse_field T parent ns f) (traverse_fields T parent ns fs)"

definition validate_struct :: "text_env \<Rightarrow> string \<Rightarrow> vfield list \<Rightarrow> verdict" where
  "validate_struct T name fs =
     traverse_fields T (map_of (map (\<lambda>f. (vf_name f, vf_value f)) fs)) (name @ ''.'') fs"

section \<open>Binding\<close>

datatype 'r bound = Bound 'r | BindErr go_err | BindPanic string

definition bind_validated :: "text_env \<Rightarrow> string \<Rightarrow> ('r \<Rightarrow> vfield list) \<Rightarrow> 'r \<Rightarrow> 'r bound" where
  "bind_validated T name rules r =
     (case validate_struct T name (rules r) of
        VPanic m \<Rightarrow> BindPanic m
      | Errs es \<Rightarrow> if es \<noteq> [] then BindErr (ErrValidation es) else Bound r)"

definition should_bind_json ::
  "text_env \<Rightarrow> string \<Rightarrow> (string \<times> 'r field_dec) list \<Rightarrow> ('r \<Rightarrow> vfield list) \<Rightarrow> 'r \<Rightarrow> request \<Rightarrow> 'r bound" where
  "should_bind_json T name fs rules zero rq =
     (case rq_body rq of
        Err e \<Rightarrow> BindErr e
      | Ok j \<Rightarrow>
          (case decode_struct (''handler.'' @ name) fs j zero of
             (r, Some e) \<Rightarrow> BindErr e
           | (r, None) \<Rightarrow> bind_validated T name rules r))"

section \<open>What passes\<close>

lemma verdict_seq_ok [simp]: "verdict_seq v w = Errs [] \<longleftrightarrow> v = Errs [] \<and> w = Errs []"
  by (auto simp: verdict_seq_def split: verdict.splits)

lemma of_bool_simps [simp]: "of_bool b = Pass \<longleftrightarrow> b" "of_bool b = Fail \<longleftrightarrow> \<not> b" "of_bool b \<noteq> CheckPanic m"
  by (simp_all add: of_bool_def)

lemma check_tags_ok_Cons:
  "t \<noteq> TOmitEmpty \<Longrightarrow> t \<noteq> TDive \<Longrightarrow>
     check_tags T p ns alt k ptr (t # ts) = Errs [] \<longleftrightarrow>
       run_check T p k ptr t = Pass \<and> check_tags T p ns alt k ptr ts = Errs []"
  by (cases t) (auto split: check.splits)

lemma check_elem_ok_Cons:
  "t \<noteq> TOmitEmpty \<Longrightarrow> t \<noteq> TDive \<Longrightarrow>
     check_elem T p ns alt s (t # ts) = Errs [] \<longleftrightarrow>
       run_check T p (KString s) False t = Pass \<and> check_elem T p ns alt s ts = Errs []"
  by (cases t) (auto split: check.splits)

lemma check_elems_ok:
  "check_elems T p ns alt i ss ts = Errs [] \<longleftrightarrow>
     (\<forall>j < length ss. check_elem T p ns (elem_alt alt (i + j)) (ss ! j) ts = Errs [])"
proof (induction ss arbitrary: i)
  case (Cons s ss)
  show ?case unfolding check_elems.simps verdict_seq_ok Cons.IH by (auto simp: less_Suc_eq_0_disj)
qed simp

lemma bind_validated_ok:
  "bind_validated T name rules r = Bound r' \<longleftrightarrow> r' = r \<and> validate_struct T name (rules r) = Errs []"
  by (auto simp: bind_validated_def split: verdict.splits if_splits)

end
