(* ===== verification/AppModels.thy ===== *)
theory AppModels
  imports Validation
begin

text \<open>
  \<^verbatim>\<open>internal/domains/user/handler/models.go\<close> and \<^verbatim>\<open>filters.go\<close>: the request and response models with
  their \<^verbatim>\<open>json\<close>, \<^verbatim>\<open>form\<close> and \<^verbatim>\<open>binding\<close> tags, and the conversions to and from the bus. A conversion
  that dereferences a nil pointer panics.
\<close>

datatype 'a conv = Conv 'a | ConvErr go_err | ConvPanic string

definition nil_deref :: string where
  "nil_deref = ''runtime error: invalid memory address or nil pointer dereference''"

section \<open>Responses\<close>

record app_user =
  us_id :: string
  us_name :: string
  us_email :: string
  us_roles :: "string list"
  us_department :: string
  us_enabled :: bool
  us_created_at :: string
  us_updated_at :: string
  us_token :: string

definition to_app_user :: "text_env \<Rightarrow> user \<Rightarrow> app_user" where
  "to_app_user T usr =
     \<lparr>us_id = uuid_string (u_id usr),
      us_name = u_name usr,
      us_email = ma_address (u_email usr),
      us_roles = roles_to_string (u_roles usr),
      us_department = u_department usr,
      us_enabled = u_enabled usr,
      us_created_at = time_format T (u_created_at usr),
      us_updated_at = time_format T (u_updated_at usr),
      us_token = []\<rparr>"

definition app_user_json :: "app_user \<Rightarrow> json" where
  "app_user_json u = JObj
     ([(''id'', JStr (us_id u)),
       (''name'', JStr (us_name u)),
       (''email'', JStr (us_email u)),
       (''roles'', JArr (map JStr (us_roles u))),
       (''department'', JStr (us_department u)),
       (''enabled'', JBool (us_enabled u)),
       (''createdAt'', JStr (us_created_at u)),
       (''updatedAt'', JStr (us_updated_at u))]
      @ (if us_token u = [] then [] else [(''token'', JStr (us_token u))]))"

record query_result =
  qr_users :: "app_user list"
  qr_total :: int
  qr_page :: int
  qr_rows :: int

definition new_query_result :: "app_user list \<Rightarrow> int \<Rightarrow> int \<Rightarrow> int \<Rightarrow> query_result" where
  "new_query_result users cnt p rows =
     \<lparr>qr_users = users, qr_total = cnt, qr_page = p, qr_rows = rows\<rparr>"

definition query_result_json :: "query_result \<Rightarrow> json" where
  "query_result_json q = JObj
     [(''users'', JArr (map app_user_json (qr_users q))),
      (''total'', JNum (itoa (qr_total q))),
      (''page'', JNum (itoa (qr_page q))),
      (''rowsPerPage'', JNum (itoa (qr_rows q)))]"

definition token_json :: "string \<Rightarrow> json" where
  "token_json t = JObj [(''token'', JStr t)]"

section \<open>authenticate\<close>

record authenticate_req =
  ar_email :: string
  ar_password :: string
  ar_password_confirm :: string

definition authenticate_zero :: authenticate_req where
  "authenticate_zero = \<lparr>ar_email = [], ar_password = [], ar_password_confirm = []\<rparr>"

definition authenticate_fields :: "(string \<times> authenticate_req field_dec) list" where
  "authenticate_fields =
     [(''email'', dec_string ''authenticate.email'' (\<lambda>s r. r\<lparr>ar_email := s\<rparr>)),
      (''password'', dec_string ''authenticate.password'' (\<lambda>s r. r\<lparr>ar_password := s\<rparr>)),
      (''passwordConfirm'', dec_string ''authenticate.passwordConfirm'' (\<lambda>s r. r\<lparr>ar_password_confirm := s\<rparr>))]"

definition authenticate_rules :: "authenticate_req \<Rightarrow> vfield list" where
  "authenticate_rules r =
     [\<lparr>vf_name = ''Email'', vf_alt = alt_name ''Email'' ''email'', vf_value = VStr (ar_email r),
       vf_tags = [TRequired, TEmail]\<rparr>,
      \<lparr>vf_name = ''Password'', vf_alt = alt_name ''Password'' ''password'', vf_value = VStr (ar_password r),
       vf_tags = [TRequired, TMin 8, TMax 128]\<rparr>,
      \<lparr>vf_name = ''PasswordConfirm'', vf_alt = alt_name ''PasswordConfirm'' ''passwordConfirm'', vf_value = VStr (ar_password_confirm r),
       vf_tags = [TRequired, TEqField ''Password'']\<rparr>]"

section \<open>newUser\<close>

record new_user_req =
  nr_name :: string
  nr_email :: string
  nr_roles :: "string list option"
  nr_department :: string
  nr_password :: string
  nr_password_confirm :: string

definition new_user_zero :: new_user_req where
  "new_user_zero = \<lparr>nr_name = [], nr_email = [], nr_roles = None, nr_department = [],
     nr_password = [], nr_password_confirm = []\<rparr>"

definition new_user_fields :: "(string \<times> new_user_req field_dec) list" where
  "new_user_fields =
     [(''name'', dec_string ''newUser.name'' (\<lambda>s r. r\<lparr>nr_name := s\<rparr>)),
      (''email'', dec_string ''newUser.email'' (\<lambda>s r. r\<lparr>nr_email := s\<rparr>)),
      (''roles'', dec_string_slice ''newUser.roles'' (\<lambda>s r. r\<lparr>nr_roles := s\<rparr>)),
      (''department'', dec_string ''newUser.department'' (\<lambda>s r. r\<lparr>nr_department := s\<rparr>)),
      (''password'', dec_string ''newUser.password'' (\<lambda>s r. r\<lparr>nr_password := s\<rparr>)),
      (''passwordConfirm'', dec_string ''newUser.passwordConfirm'' (\<lambda>s r. r\<lparr>nr_password_confirm := s\<rparr>))]"

definition new_user_rules :: "new_user_req \<Rightarrow> vfield list" where
  "new_user_rules r =
     [\<lparr>vf_name = ''Name'', vf_alt = alt_name ''Name'' ''name'', vf_value = VStr (nr_name r),
       vf_tags = [TRequired, TMin 4]\<rparr>,
      \<lparr>vf_name = ''Email'', vf_alt = alt_name ''Email'' ''email'', vf_value = VStr (nr_email r),
       vf_tags = [TRequired, TEmail]\<rparr>,
      \<lparr>vf_name = ''Roles'', vf_alt = alt_name ''Roles'' ''roles'', vf_value = VSlice (nr_roles r),
       vf_tags = [TGt 0, TDive, TRequired, TOneOf [''admin'', ''user'']]\<rparr>,
      \<lparr>vf_name = ''Department'', vf_alt = alt_name ''Department'' ''department'', vf_value = VStr (nr_department r),
       vf_tags = [TRequired, TOneOf [''sales'', ''shipping'', ''marketing'']]\<rparr>,
      \<lparr>vf_name = ''Password'', vf_alt = alt_name ''Password'' ''password'', vf_value = VStr (nr_password r),
       vf_tags = [TRequired, TMin 8, TMax 128]\<rparr>,
      \<lparr>vf_name = ''PasswordConfirm'', vf_alt = alt_name ''PasswordConfirm'' ''passwordConfirm'', vf_value = VStr (nr_password_confirm r),
       vf_tags = [TRequired, TEqField ''Password'']\<rparr>]"

definition to_bus_new_user :: "text_env \<Rightarrow> new_user_req \<Rightarrow> new_user res" where
  "to_bus_new_user T nu =
     (case parse_many_roles (case nr_roles nu of None \<Rightarrow> [] | Some rs \<Rightarrow> rs) of
        Err e \<Rightarrow> Err (ErrWrap ''parseManyRoles'' e)
      | Ok roles \<Rightarrow>
          (case mail_parse T (nr_email nu) of
             Err e \<Rightarrow> Err (ErrWrap ''parseAddress'' e)
           | Ok email \<Rightarrow>
               Ok \<lparr>nu_name = nr_name nu, nu_email = email, nu_roles = roles,
                   nu_department = nr_department nu, nu_password = nr_password nu\<rparr>))"

section \<open>updateUser\<close>

record update_user_req =
  up_name :: "string option"
  up_email :: "string option"
  up_department :: "string option"
  up_password :: "string option"
  up_password_confirm :: "string option"
  up_enabled :: "bool option"

definition update_user_zero :: update_user_req where
  "update_user_zero = \<lparr>up_name = None, up_email = None, up_department = None,
     up_password = None, up_password_confirm = None, up_enabled = None\<rparr>"

definition update_user_fields :: "(string \<times> update_user_req field_dec) list" where
  "update_user_fields =
     [(''name'', dec_string_ptr ''updateUser.name'' (\<lambda>s r. r\<lparr>up_name := s\<rparr>)),
      (''email'', dec_string_ptr ''updateUser.email'' (\<lambda>s r. r\<lparr>up_email := s\<rparr>)),
      (''department'', dec_string_ptr ''updateUser.department'' (\<lambda>s r. r\<lparr>up_department := s\<rparr>)),
      (''password'', dec_string_ptr ''updateUser.password'' (\<lambda>s r. r\<lparr>up_password := s\<rparr>)),
      (''passwordConfirm'', dec_string_ptr ''updateUser.passwordConfirm''
         (\<lambda>s r. r\<lparr>up_password_confirm := s\<rparr>)),
      (''enabled'', dec_bool_ptr ''updateUser.enabled'' (\<lambda>b r. r\<lparr>up_enabled := b\<rparr>))]"

definition update_user_rules :: "update_user_req \<Rightarrow> vfield list" where
  "update_user_rules r =
     [\<lparr>vf_name = ''Name'', vf_alt = alt_name ''Name'' ''name'', vf_value = VStrPtr (up_name r),
       vf_tags = [TOmitEmpty, TMin 4]\<rparr>,
      \<lparr>vf_name = ''Email'', vf_alt = alt_name ''Email'' ''email'', vf_value = VStrPtr (up_email r),
       vf_tags = [TOmitEmpty, TEmail]\<rparr>,
      \<lparr>vf_name = ''Deaprtment'', vf_alt = alt_name ''Deaprtment'' ''department'', vf_value = VStrPtr (up_department r),
       vf_tags = [TOmitEmpty, TOneOf [''sales'', ''shipping'', ''marketing'']]\<rparr>,
      \<lparr>vf_name = ''Password'', vf_alt = alt_name ''Password'' ''password'', vf_value = VStrPtr (up_password r),
       vf_tags = [TOmitEmpty, TMin 8, TMax 128]\<rparr>,
      \<lparr>vf_name = ''PasswordConfirm'', vf_alt = alt_name ''PasswordConfirm'' ''passwordConfirm'', vf_value = VStrPtr (up_password_confirm r),
       vf_tags = [TOmitEmpty, TEqField ''Password'']\<rparr>,
      \<lparr>vf_name = ''Enabled'', vf_alt = alt_name ''Enabled'' ''enabled'', vf_value = VBoolPtr (up_enabled r), vf_tags = []\<rparr>]"

definition to_bus_update_user :: "text_env \<Rightarrow> update_user_req \<Rightarrow> update_user conv" where
  "to_bus_update_user T uu =
     (case up_email uu of
        None \<Rightarrow> ConvPanic nil_deref
      | Some m \<Rightarrow>
          (case mail_parse T m of
             Err e \<Rightarrow> ConvErr (ErrWrap ''parseAddress'' e)
           | Ok email \<Rightarrow>
               Conv \<lparr>uu_name = up_name uu, uu_email = Some email, uu_roles = None,
                     uu_department = up_department uu, uu_password = up_password uu,
                     uu_enabled = up_enabled uu\<rparr>))"

section \<open>updateUserRoles\<close>

record update_roles_req =
  rr_roles :: "string list option"

definition update_roles_zero :: update_roles_req where
  "update_roles_zero = \<lparr>rr_roles = None\<rparr>"

definition update_roles_fields :: "(string \<times> update_roles_req field_dec) list" where
  "update_roles_fields =
     [(''roles'', dec_string_slice ''updateUserRoles.roles'' (\<lambda>s r. r\<lparr>rr_roles := s\<rparr>))]"

definition update_roles_rules :: "update_roles_req \<Rightarrow> vfield list" where
  "update_roles_rules r =
     [\<lparr>vf_name = ''Roles'', vf_alt = alt_name ''Roles'' ''roles'', vf_value = VSlice (rr_roles r),
       vf_tags = [TRequired, TOneOf [''user'', ''admin'']]\<rparr>]"

definition to_bus_update_user_roles :: "update_roles_req \<Rightarrow> update_user res" where
  "to_bus_update_user_roles ur =
     (case parse_many_roles (case rr_roles ur of None \<Rightarrow> [] | Some rs \<Rightarrow> rs) of
        Err e \<Rightarrow> Err (ErrWrap ''parseManyRoles'' e)
      | Ok roles \<Rightarrow>
          Ok \<lparr>uu_name = None, uu_email = None, uu_roles = Some roles, uu_department = None,
              uu_password = None, uu_enabled = None\<rparr>)"

section \<open>Filters\<close>

record filters =
  fl_name :: "string option"
  fl_department :: "string option"
  fl_roles :: "string list option"
  fl_start_created_at :: "string option"
  fl_end_created_at :: "string option"

definition rfc3339 :: string where
  "rfc3339 = ''2006-01-02T15:04:05Z07:00''"

definition filters_rules :: "filters \<Rightarrow> vfield list" where
  "filters_rules f =
     [\<lparr>vf_name = ''Name'', vf_alt = alt_name ''Name'' [], vf_value = VStrPtr (fl_name f),
       vf_tags = [TOmitEmpty, TMin 4, TMax 120]\<rparr>,
      \<lparr>vf_name = ''Department'', vf_alt = alt_name ''Department'' [], vf_value = VStrPtr (fl_department f),
       vf_tags = [TOmitEmpty, TOneOf [''sales'', ''marketing'']]\<rparr>,
      \<lparr>vf_name = ''Roles'', vf_alt = alt_name ''Roles'' [], vf_value = VSlice (fl_roles f),
       vf_tags = [TOmitEmpty, TDive, TOneOf [''user'', ''admin'']]\<rparr>,
      \<lparr>vf_name = ''StartCreatedAt'', vf_alt = alt_name ''StartCreatedAt'' [], vf_value = VStrPtr (fl_start_created_at f),
       vf_tags = [TOmitEmpty, TDatetime rfc3339]\<rparr>,
      \<lparr>vf_name = ''EndCreatedAt'', vf_alt = alt_name ''EndCreatedAt'' [], vf_value = VStrPtr (fl_end_created_at f),
       vf_tags = [TOmitEmpty, TDatetime rfc3339]\<rparr>]"

text \<open>\<^verbatim>\<open>mapForm\<close>: a single value takes the first of the query's values, a slice all of them.\<close>

definition form_string :: "(string \<times> string list) list \<Rightarrow> string \<Rightarrow> string option" where
  "form_string form k =
     (case map_of form k of None \<Rightarrow> None | Some [] \<Rightarrow> Some [] | Some (v # vs) \<Rightarrow> Some v)"

definition form_filters :: "(string \<times> string list) list \<Rightarrow> filters" where
  "form_filters form =
     \<lparr>fl_name = form_string form ''name'',
      fl_department = form_string form ''department'',
      fl_roles = map_of form ''roles'',
      fl_start_created_at = form_string form ''startCreatedAt'',
      fl_end_created_at = form_string form ''endCreatedAt''\<rparr>"

definition should_bind_query :: "text_env \<Rightarrow> request \<Rightarrow> filters bound" where
  "should_bind_query T rq = bind_validated T ''Filters'' filters_rules (form_filters (rq_query rq))"

definition empty_filter :: query_filter where
  "empty_filter = \<lparr>qf_name = None, qf_department = None, qf_roles = None,
     qf_start_created_at = None, qf_end_created_at = None\<rparr>"

definition to_bus_query_filter :: "text_env \<Rightarrow> filters \<Rightarrow> query_filter res" where
  "to_bus_query_filter T f =
     (let q = empty_filter in
      case (case fl_roles f of
              None \<Rightarrow> Ok q
            | Some rs \<Rightarrow>
                if length rs \<noteq> 0
                then (case parse_many_roles rs of Err e \<Rightarrow> Err e | Ok roles \<Rightarrow> Ok (q\<lparr>qf_roles := Some roles\<rparr>))
                else Ok q) of
        Err e \<Rightarrow> Err e
      | Ok q \<Rightarrow>
     (let q = (case fl_department f of None \<Rightarrow> q | Some d \<Rightarrow> q\<lparr>qf_department := Some d\<rparr>);
          q = (case fl_name f of None \<Rightarrow> q | Some n \<Rightarrow> q\<lparr>qf_name := Some n\<rparr>) in
      case (case fl_start_created_at f of
              None \<Rightarrow> Ok q
            | Some s \<Rightarrow> (case time_parse T s of Err e \<Rightarrow> Err e | Ok t \<Rightarrow> Ok (q\<lparr>qf_start_created_at := Some t\<rparr>))) of
        Err e \<Rightarrow> Err e
      | Ok q \<Rightarrow>
      (case fl_end_created_at f of
         None \<Rightarrow> Ok q
       | Some s \<Rightarrow> (case time_parse T s of Err e \<Rightarrow> Err e | Ok t \<Rightarrow> Ok (q\<lparr>qf_end_created_at := Some t\<rparr>)))))"

end
