(* ===== verification/OrderBy.thy ===== *)
theory OrderBy
  imports GoErrors
begin

text \<open>
  The \<^verbatim>\<open>order_by\<close> parameter: \<^verbatim>\<open>ParseOrderBy\<close> of \<^verbatim>\<open>internal/domains/user/bus/order.go\<close> and
  \<^verbatim>\<open>orderByClause\<close> of \<^verbatim>\<open>internal/domains/user/store/userdb/order.go\<close>, which turns the parsed
  field into the SQL text that is appended to the query.
\<close>

definition OrderByName :: string where "OrderByName = ''name''"
definition OrderByEmail :: string where "OrderByEmail = ''email''"
definition OrderByCreatedAt :: string where "OrderByCreatedAt = ''createdAt''"
definition OrderByUpdatedAt :: string where "OrderByUpdatedAt = ''updatedAt''"
definition OrderByASC :: string where "OrderByASC = ''asc''"
definition OrderByDESC :: string where "OrderByDESC = ''desc''"

lemmas order_consts [simp] =
  OrderByName_def OrderByEmail_def OrderByCreatedAt_def OrderByUpdatedAt_def
  OrderByASC_def OrderByDESC_def

definition order_by_set :: "string \<rightharpoonup> string" where
  "order_by_set = map_of
     [(OrderByName, ''name''), (OrderByEmail, ''email''),
      (OrderByCreatedAt, ''createdAt''), (OrderByUpdatedAt, ''updatedAt'')]"

definition directions_set :: "string \<rightharpoonup> string" where
  "directions_set = map_of [(OrderByASC, ''asc''), (OrderByDESC, ''desc'')]"

record order_field =
  of_name :: string
  of_dir :: string

text \<open>
  \<^verbatim>\<open>strings.Split\<close> never returns an empty slice, so \<^verbatim>\<open>orderParts[0]\<close> is in range; \<open>hd\<close> reads it.
  Note that only the field name is trimmed, not the direction.
\<close>

definition parse_order_by :: "string \<Rightarrow> order_field res" where
  "parse_order_by query =
     (if query = [] then Ok \<lparr>of_name = OrderByCreatedAt, of_dir = OrderByASC\<rparr>
      else
        let order_parts = split_on CHR '','' query;
            field_name = trim_space (hd order_parts)
        in case order_by_set field_name of
             None \<Rightarrow> Err (ErrPlain (''unknown field: '' @ field_name))
           | Some valid_field \<Rightarrow>
               (case order_parts of
                  [_] \<Rightarrow> Ok \<lparr>of_name = valid_field, of_dir = OrderByASC\<rparr>
                | [_, dir] \<Rightarrow>
                    (case directions_set dir of
                       None \<Rightarrow> Err (ErrPlain (''unknown direction: '' @ dir))
                     | Some valid_dir \<Rightarrow> Ok \<lparr>of_name = valid_field, of_dir = valid_dir\<rparr>)
                | _ \<Rightarrow> Err (ErrPlain (''unknown order: '' @ query))))"

definition order_by_field_names :: "string \<rightharpoonup> string" where
  "order_by_field_names = map_of
     [(OrderByName, ''name''), (OrderByEmail, ''email''),
      (OrderByCreatedAt, ''created_at''), (OrderByUpdatedAt, ''updated_at'')]"

definition order_by_clause :: "order_field \<Rightarrow> string res" where
  "order_by_clause field =
     (case order_by_field_names (of_name field) of
        None \<Rightarrow> Err (ErrPlain ([CHR 34] @ of_name field @ [CHR 34]
                               @ '' is not a valid field to order by''))
      | Some col \<Rightarrow> Ok ('' ORDER BY '' @ col @ '' '' @ of_dir field))"

section \<open>What a parsed order can be\<close>

definition order_names :: "string list" where
  "order_names = [''name'', ''email'', ''createdAt'', ''updatedAt'']"

definition order_columns :: "string list" where
  "order_columns = [''name'', ''email'', ''created_at'', ''updated_at'']"

definition order_dirs :: "string list" where
  "order_dirs = [''asc'', ''desc'']"

definition wf_order :: "order_field \<Rightarrow> bool" where
  "wf_order f \<longleftrightarrow> of_name f \<in> set order_names \<and> of_dir f \<in> set order_dirs"

lemma order_by_set_Some: "order_by_set n = Some v \<Longrightarrow> v = n \<and> n \<in> set order_names"
  by (auto simp: order_by_set_def order_names_def split: if_splits)

lemma order_by_set_iff: "order_by_set n = (if n \<in> set order_names then Some n else None)"
  by (auto simp: order_by_set_def order_names_def)

lemma directions_set_iff: "directions_set d = (if d \<in> set order_dirs then Some d else None)"
  by (auto simp: directions_set_def order_dirs_def)

lemma parse_order_by_wf: "parse_order_by q = Ok f \<Longrightarrow> wf_order f"
  by (auto simp: parse_order_by_def wf_order_def Let_def order_by_set_iff directions_set_iff
      split: if_splits list.splits option.splits)
    (simp_all add: order_names_def order_dirs_def)

lemma order_by_clause_wf:
  assumes "wf_order f"
  obtains col where "order_by_field_names (of_name f) = Some col" "col \<in> set order_columns"
    and "order_by_clause f = Ok ('' ORDER BY '' @ col @ '' '' @ of_dir f)"
proof -
  have "\<exists>col. order_by_field_names (of_name f) = Some col \<and> col \<in> set order_columns"
    using assms by (auto simp: wf_order_def order_names_def order_by_field_names_def order_columns_def)
  then show thesis using that by (auto simp: order_by_clause_def)
qed

lemma order_columns_names: "of_name f \<in> set order_names \<longleftrightarrow> order_by_field_names (of_name f) \<noteq> None"
  by (auto simp: order_names_def order_by_field_names_def)

end
