(* ===== verification/Paging.thy ===== *)
theory Paging
  imports GoErrors
begin

text \<open>
  \<^verbatim>\<open>internal/page/page.go\<close>: the page number and the rows per page of a listing, parsed from the
  query string, and the offset that \<^verbatim>\<open>Store.Query\<close> computes from them.
\<close>

record page =
  pg_number :: int
  pg_rows :: int

definition page_atoi :: "string \<Rightarrow> int \<Rightarrow> string \<Rightarrow> int res" where
  "page_atoi what dflt s =
     (if s \<noteq> [] then
        (case atoi s of
           Inl e \<Rightarrow> Err (ErrWrap (''converting '' @ what) (ErrPlain (num_error_msg e s)))
         | Inr n \<Rightarrow> Ok n)
      else Ok dflt)"

definition page_parse :: "string \<Rightarrow> string \<Rightarrow> page res" where
  "page_parse page_number rows_per_page =
     (case page_atoi ''page number'' 1 page_number of
        Err e \<Rightarrow> Err e
      | Ok number \<Rightarrow>
     (case page_atoi ''rows per page'' 10 rows_per_page of
        Err e \<Rightarrow> Err e
      | Ok rows \<Rightarrow>
         if number \<le> 0 then
           Err (ErrPlain (itoa number @ '', value too small, must be greater than 0''))
         else if rows \<le> 0 then
           Err (ErrPlain (itoa rows @ '', value too small, must be greater than 0''))
         else if number > 100 then
           Err (ErrPlain (itoa number @ '', value too big, must be less than 100''))
         else Ok \<lparr>pg_number = number, pg_rows = rows\<rparr>))"

text \<open>\<^verbatim>\<open>(page.Number - 1) * page.Rows\<close> of \<^verbatim>\<open>Store.Query\<close>, in Go's int.\<close>

definition page_offset :: "page \<Rightarrow> int" where
  "page_offset p = wrap64 (wrap64 (pg_number p - 1) * pg_rows p)"

definition wf_page :: "page \<Rightarrow> bool" where
  "wf_page p \<longleftrightarrow> 1 \<le> pg_number p \<and> pg_number p \<le> 100 \<and> 1 \<le> pg_rows p \<and> in_int64 (pg_rows p)"

lemma page_atoi_Ok:
  "page_atoi what d s = Ok n \<Longrightarrow> in_int64 d \<Longrightarrow> in_int64 n"
  by (auto simp: page_atoi_def atoi_in_int64 split: if_splits sum.splits)

lemma page_parse_wf: "page_parse s t = Ok p \<Longrightarrow> wf_page p"
  by (auto simp: page_parse_def wf_page_def split: sum.splits if_splits
      dest!: page_atoi_Ok intro: page_atoi_Ok) (auto simp: in_int64_def)

lemma page_parse_itoa:
  "wf_page p \<Longrightarrow> page_parse (itoa (pg_number p)) (itoa (pg_rows p)) = Ok p"
proof -
  assume p: "wf_page p"
  then have "in_int64 (pg_number p)" "in_int64 (pg_rows p)"
    by (auto simp: wf_page_def in_int64_def)
  moreover have "itoa n \<noteq> []" for n
    by (simp add: itoa_def)
  ultimately show ?thesis
    using p by (simp add: page_parse_def page_atoi_def atoi_itoa wf_page_def)
qed

definition max_safe_rows :: int where
  "max_safe_rows = 93165374109644200"

lemma page_offset_exact:
  assumes "wf_page p" "pg_rows p \<le> max_safe_rows"
  shows "page_offset p = (pg_number p - 1) * pg_rows p" and "0 \<le> page_offset p"
proof -
  have n: "0 \<le> pg_number p - 1" "pg_number p - 1 \<le> 99" and r: "0 \<le> pg_rows p"
    using assms by (auto simp: wf_page_def)
  have "(pg_number p - 1) * pg_rows p \<le> 99 * max_safe_rows"
    by (rule mult_mono) (use n r assms in auto)
  moreover have "0 \<le> (pg_number p - 1) * pg_rows p" using n r by simp
  ultimately have "in_int64 ((pg_number p - 1) * pg_rows p)" "in_int64 (pg_number p - 1)"
    using n by (auto simp: in_int64_def max_safe_rows_def)
  then show "page_offset p = (pg_number p - 1) * pg_rows p"
    by (simp add: page_offset_def)
  then show "0 \<le> page_offset p" using n r by simp
qed

end
