(* ===== verification/Sql.thy ===== *)
theory Sql
  imports Roles Varchar "HOL-Library.List_Lexorder"
begin

text \<open>
  The SQL side of the program: the table of \<^verbatim>\<open>internal/migrate/sql/20250914214924_init.up.sql\<close>, and
  the meaning of the statements whose text \<^verbatim>\<open>internal/domains/user/store/userdb\<close> builds and sends.
  The text itself is the interface: a statement is lexed, parsed and run against the table, with its
  \<^verbatim>\<open>:name\<close> parameters bound by name as \<^verbatim>\<open>sqlx\<close> binds them, so that a wrong statement text gives a wrong
  result. What the server decides outside the text is a parameter of the state: the collation of the
  database (as the sort keys it gives to strings), the order in which a query finds the rows of the table,
  and the faults of the connection.
\<close>

section \<open>Lexer\<close>

definition blank :: "char \<Rightarrow> bool" where
  "blank c \<longleftrightarrow> c = CHR '' '' \<or> c = CHR 0x09 \<or> c = CHR 0x0A"

definition sql_punct :: "char \<Rightarrow> bool" where
  "sql_punct c \<longleftrightarrow> c = CHR ''('' \<or> c = CHR '')'' \<or> c = CHR '','' \<or> c = CHR '';''"

definition flush :: "string \<Rightarrow> string list" where
  "flush cur = (if cur = [] then [] else [rev cur])"

fun sql_lex :: "string \<Rightarrow> string \<Rightarrow> string list" where
  "sql_lex cur [] = flush cur"
| "sql_lex cur (c # cs) =
     (if blank c then flush cur @ sql_lex [] cs
      else if sql_punct c then flush cur @ [c] # sql_lex [] cs
      else sql_lex (c # cur) cs)"

definition sql_tokens :: "string \<Rightarrow> string list" where
  "sql_tokens s = sql_lex [] s"

section \<open>Parser\<close>

datatype sql_cond = Cond string string string

datatype sql_stmt =
    SInsert "string list" "string list"
  | SUpdate "(string \<times> string) list" "sql_cond list"
  | SDelete "sql_cond list"
  | SSelect bool "sql_cond list" "(string \<times> string) option" "(string \<times> string) option"

definition is_placeholder :: "string \<Rightarrow> bool" where
  "is_placeholder t \<longleftrightarrow> t \<noteq> [] \<and> hd t = CHR '':''"

definition sql_ops :: "string list" where
  "sql_ops = [''='', ''LIKE'', ''&&'', ''>='', ''<='']"

fun parse_names :: "string list \<Rightarrow> (string list \<times> string list) option" where
  "parse_names (x # c # ts) =
     (if c = '','' then map_option (\<lambda>(xs, r). (x # xs, r)) (parse_names ts)
      else if c = '')'' then Some ([x], ts) else None)"
| "parse_names _ = None"

fun parse_conds :: "string list \<Rightarrow> (sql_cond list \<times> string list) option" where
  "parse_conds (a # op # b # ts) =
     (if op \<in> set sql_ops \<and> is_placeholder b then
        (case ts of
           t # ts' \<Rightarrow> if t = ''AND'' then map_option (\<lambda>(cs, r). (Cond a op (tl b) # cs, r)) (parse_conds ts')
                     else Some ([Cond a op (tl b)], ts)
         | [] \<Rightarrow> Some ([Cond a op (tl b)], []))
      else None)"
| "parse_conds _ = None"

fun parse_sets :: "string list \<Rightarrow> ((string \<times> string) list \<times> string list) option" where
  "parse_sets (a # op # b # c # ts) =
     (if op = ''='' \<and> is_placeholder b then
        (if c = '','' then map_option (\<lambda>(xs, r). ((a, tl b) # xs, r)) (parse_sets ts)
         else Some ([(a, tl b)], c # ts))
      else None)"
| "parse_sets _ = None"

definition parse_where :: "string list \<Rightarrow> (sql_cond list \<times> string list) option" where
  "parse_where ts =
     (if ts \<noteq> [] \<and> hd ts = ''WHERE'' then parse_conds (tl ts) else Some ([], ts))"

definition parse_order :: "string list \<Rightarrow> ((string \<times> string) option \<times> string list) option" where
  "parse_order ts =
     (if take 2 ts = [''ORDER'', ''BY''] then
        (case drop 2 ts of
           col # dir # r \<Rightarrow> if dir = ''asc'' \<or> dir = ''desc'' then Some (Some (col, dir), r) else None
         | _ \<Rightarrow> None)
      else Some (None, ts))"

definition parse_fetch :: "string list \<Rightarrow> ((string \<times> string) option \<times> string list) option" where
  "parse_fetch ts =
     (case ts of
        [] \<Rightarrow> Some (None, [])
      | t # _ \<Rightarrow>
          if t = ''OFFSET'' then
            (case tl ts of
               o1 # rows1 # fetch # nxt # n1 # rows2 # only # r \<Rightarrow>
                 if [rows1, fetch, nxt, rows2, only] = [''ROWS'', ''FETCH'', ''NEXT'', ''ROWS'', ''ONLY'']
                    \<and> is_placeholder o1 \<and> is_placeholder n1
                 then Some (Some (tl o1, tl n1), r) else None
             | _ \<Rightarrow> None)
          else Some (None, ts))"

definition at_end :: "string list \<Rightarrow> bool" where
  "at_end ts \<longleftrightarrow> ts = [] \<or> ts = ['';'']"

definition parse_select :: "bool \<Rightarrow> string list \<Rightarrow> sql_stmt option" where
  "parse_select cnt ts =
     (case parse_where ts of None \<Rightarrow> None | Some (conds, ts1) \<Rightarrow>
      (case parse_order ts1 of None \<Rightarrow> None | Some (ord, ts2) \<Rightarrow>
       (case parse_fetch ts2 of None \<Rightarrow> None | Some (fetch, ts3) \<Rightarrow>
          if at_end ts3 then Some (SSelect cnt conds ord fetch) else None)))"

definition sql_parse :: "string list \<Rightarrow> sql_stmt option" where
  "sql_parse ts =
     (if take 4 ts = [''INSERT'', ''INTO'', ''users'', ''(''] then
        (case parse_names (drop 4 ts) of
           Some (cols, v # lp # ts') \<Rightarrow>
             if v = ''VALUES'' \<and> lp = ''('' then
               (case parse_names ts' of
                  Some (phs, r) \<Rightarrow>
                    if at_end r \<and> list_all is_placeholder phs \<and> length phs = length cols
                    then Some (SInsert cols (map tl phs)) else None
                | None \<Rightarrow> None)
             else None
         | _ \<Rightarrow> None)
      else if take 3 ts = [''UPDATE'', ''users'', ''SET''] then
        (case parse_sets (drop 3 ts) of
           None \<Rightarrow> None
         | Some (sets, r) \<Rightarrow>
             (case parse_where r of
                None \<Rightarrow> None
              | Some (conds, r') \<Rightarrow> if at_end r' then Some (SUpdate sets conds) else None))
      else if take 3 ts = [''DELETE'', ''FROM'', ''users''] then
        (case parse_where (drop 3 ts) of
           None \<Rightarrow> None
         | Some (conds, r) \<Rightarrow> if at_end r then Some (SDelete conds) else None)
      else if take 4 ts = [''SELECT'', ''*'', ''FROM'', ''users''] then
        parse_select False (drop 4 ts)
      else if take 7 ts = [''SELECT'', ''COUNT'', ''('', ''1'', '')'', ''FROM'', ''users''] then
        parse_select True (drop 7 ts)
      else None)"

section \<open>The table\<close>

datatype coltype = TUuid | TVarchar nat | TText | TTextArray | TBool | TTimestamp

text \<open>Column, type and whether it is \<^verbatim>\<open>NOT NULL\<close>; \<^verbatim>\<open>id\<close> is the primary key, \<^verbatim>\<open>email\<close> is \<^verbatim>\<open>UNIQUE\<close>.\<close>

definition users_schema :: "(string \<times> coltype \<times> bool) list" where
  "users_schema =
     [(''id'', TUuid, True),
      (''name'', TVarchar 200, True),
      (''email'', TVarchar 300, True),
      (''roles'', TTextArray, True),
      (''password_hash'', TText, True),
      (''enabled'', TBool, True),
      (''department'', TVarchar 100, False),
      (''created_at'', TTimestamp, True),
      (''updated_at'', TTimestamp, True)]"

type_synonym row = "(string \<times> sqlval) list"

definition col :: "row \<Rightarrow> string \<Rightarrow> sqlval" where
  "col r c = (case map_of r c of Some v \<Rightarrow> v | None \<Rightarrow> SvNull)"

function utf8_valid :: "string \<Rightarrow> bool" where
  "utf8_valid s =
     (if s = [] then True
      else (rune_len s = 1 \<longrightarrow> byte_of (hd s) < 128) \<and> utf8_valid (drop (rune_len s) s))"
  by pat_completeness auto
termination
  by (relation "measure length") auto

declare utf8_valid.simps [simp del]

definition text_ok :: "string \<Rightarrow> bool" where
  "text_ok s \<longleftrightarrow> utf8_valid s \<and> CHR 0x00 \<notin> set s"

fun arg_ok :: "sqlval \<Rightarrow> bool" where
  "arg_ok (SvString s) = text_ok s"
| "arg_ok (SvBytes s) = text_ok s"
| "arg_ok (SvTextArr ss) = list_all text_ok ss"
| "arg_ok _ = True"

definition pg_error :: "string \<Rightarrow> string \<Rightarrow> go_err" where
  "pg_error code msg = ErrPg code msg"

fun store_as :: "coltype \<Rightarrow> sqlval \<Rightarrow> sqlval res" where
  "store_as ty SvNull = Ok SvNull"
| "store_as TUuid (SvString s) = Ok (SvString s)"
| "store_as (TVarchar n) (SvString s) =
     (if blank_beyond n s then Ok (SvString (take_runes n s))
      else Err (pg_error ''22001'' ''value too long for type character varying''))"
| "store_as TText (SvString s) = Ok (SvString s)"
| "store_as TText (SvBytes s) = Ok (SvString s)"
| "store_as TTextArray (SvString s) = Ok (SvString s)"
| "store_as TBool (SvBool b) = Ok (SvBool b)"
| "store_as TTimestamp (SvTime t) = Ok (SvTime (t - t mod 1000))"
| "store_as ty v = Err (pg_error ''42804'' ''datatype mismatch'')"

definition store_col :: "(string \<times> coltype \<times> bool) \<Rightarrow> sqlval \<Rightarrow> (string \<times> sqlval) res" where
  "store_col sc v =
     (case sc of (c, ty, notnull) \<Rightarrow>
        (case store_as ty v of
           Err e \<Rightarrow> Err e
         | Ok w \<Rightarrow> if notnull \<and> w = SvNull
                   then Err (pg_error ''23502'' ''null value violates not-null constraint'')
                   else Ok (c, w)))"

fun store_row :: "(string \<times> coltype \<times> bool) list \<Rightarrow> (string \<Rightarrow> sqlval) \<Rightarrow> row res" where
  "store_row [] f = Ok []"
| "store_row (sc # scs) f =
     (case store_col sc (f (fst sc)) of
        Err e \<Rightarrow> Err e
      | Ok cv \<Rightarrow> (case store_row scs f of Err e \<Rightarrow> Err e | Ok r \<Rightarrow> Ok (cv # r)))"

lemma utf8_valid_take: "utf8_valid s \<Longrightarrow> utf8_valid (take_runes n s)"
proof (induction n arbitrary: s)
  case 0
  then show ?case by (subst utf8_valid.simps) simp
next
  case (Suc n)
  show ?case
  proof (cases "s = []")
    case True
    then show ?thesis using Suc.prems by simp
  next
    case False
    have valid: "rune_len s = 1 \<longrightarrow> byte_of (hd s) < 128" "utf8_valid (drop (rune_len s) s)"
      using Suc.prems False by (subst (asm) utf8_valid.simps, simp)+
    have ne: "take_runes (Suc n) s \<noteq> []" using False by simp
    then have "hd (take_runes (Suc n) s) = hd s" by (metis hd_append2 take_drop_runes)
    then show ?thesis
      unfolding utf8_valid.simps [of "take_runes (Suc n) s"] rune_len_take_runes [OF False] drop_take_runes [OF False]
      using ne valid Suc.IH [OF valid(2)] by (simp only: if_False simp_thms)
  qed
qed

lemma text_ok_take [simp]: "text_ok s \<Longrightarrow> text_ok (take_runes n s)"
  using set_take_runes [of n s] by (auto simp: text_ok_def utf8_valid_take)

section \<open>Conditions\<close>

text \<open>\<^verbatim>\<open>LIKE\<close>: \<^verbatim>\<open>%\<close> matches any string, \<^verbatim>\<open>_\<close> one character, a backslash quotes the next one.\<close>

fun sql_like :: "string \<Rightarrow> string \<Rightarrow> bool" where
  "sql_like [] s = (s = [])"
| "sql_like (p # ps) s =
     (if p = CHR ''%'' then
        (case s of [] \<Rightarrow> sql_like ps [] | c # cs \<Rightarrow> sql_like ps (c # cs) \<or> sql_like (p # ps) cs)
      else if p = CHR ''_'' then s \<noteq> [] \<and> sql_like ps (drop (rune_len s) s)
      else if p = CHR 0x5C then
        (case (ps, s) of (q # qs, c # cs) \<Rightarrow> q = c \<and> sql_like qs cs | _ \<Rightarrow> False)
      else (case s of c # cs \<Rightarrow> p = c \<and> sql_like ps cs | [] \<Rightarrow> False))"

text \<open>The elements of an array literal whose elements need no quotes, as \<^verbatim>\<open>RoleSlice.Value\<close> writes it.\<close>

definition array_elems :: "string \<Rightarrow> string list" where
  "array_elems s = (let body = tl (butlast s) in if body = [] then [] else split_on CHR '','' body)"

definition sql_holds :: "string \<Rightarrow> sqlval \<Rightarrow> sqlval \<Rightarrow> bool" where
  "sql_holds op v a =
     (case (v, a) of
        (SvString s, SvString t) \<Rightarrow>
          if op = ''='' then s = t
          else if op = ''LIKE'' then sql_like t s else False
      | (SvString s, SvTextArr ts) \<Rightarrow>
          op = ''&&'' \<and> list_ex (\<lambda>e. e \<in> set ts) (array_elems s)
      | (SvTime t, SvTime u) \<Rightarrow>
          if op = ''>='' then u - u mod 1000 \<le> t
          else if op = ''<='' then t \<le> u - u mod 1000 else False
      | _ \<Rightarrow> False)"

definition cond_holds :: "(string \<rightharpoonup> sqlval) \<Rightarrow> sql_cond \<Rightarrow> row \<Rightarrow> bool" where
  "cond_holds args c r =
     (case c of Cond a op p \<Rightarrow> sql_holds op (col r a) (case args p of Some v \<Rightarrow> v | None \<Rightarrow> SvNull))"

definition conds_hold :: "(string \<rightharpoonup> sqlval) \<Rightarrow> sql_cond list \<Rightarrow> row \<Rightarrow> bool" where
  "conds_hold args cs r = list_all (\<lambda>c. cond_holds args c r) cs"

section \<open>Statements on the table\<close>

datatype fault = NoFault | FailBefore go_err | FailAfter go_err | FailRows nat go_err

text \<open>
  \<open>tbl\<close> holds the rows, \<open>collate\<close> the sort key of a string in the collation of the database (what
  \<^verbatim>\<open>strxfrm\<close> gives). A query finds the rows of a table in any order, and each query in one of its own:
  \<open>scan_order n\<close> gives the rows their places in the scan of the n-th query, and \<open>queries\<close> counts the
  queries. Rows with equal sort keys keep the order of the scan, so that it is as unspecified as
  PostgreSQL leaves it. \<open>faults\<close> is what happens to the next round trips: a call may fail before or after
  the server has done its work, or its rows may break off. Once the list is used up all is well.
  \<open>st_spans\<close> is what the tracer of the \<^verbatim>\<open>Store\<close> has seen: the names of the spans that have ended. It is the
  tracer of the handlers too, whose spans are kept apart, with the application.
\<close>

record database =
  tbl :: "row list"
  collate :: "string \<Rightarrow> int list"
  scan_order :: "nat \<Rightarrow> row \<Rightarrow> int"
  queries :: nat
  faults :: "fault list"
  st_spans :: "string list"

record row_set =
  rs_rows :: "row list"
  rs_err :: "go_err option"

definition no_dup :: "string \<Rightarrow> row list \<Rightarrow> bool" where
  "no_dup c rs \<longleftrightarrow> distinct (map (\<lambda>r. col r c) rs)"

definition check_unique :: "row list \<Rightarrow> row list res" where
  "check_unique rs =
     (if \<not> no_dup ''id'' rs then
        Err (pg_error ''23505'' ''duplicate key value violates unique constraint users_pkey'')
      else if \<not> no_dup ''email'' rs then
        Err (pg_error ''23505'' ''duplicate key value violates unique constraint users_email_key'')
      else Ok rs)"

fun update_rows ::
  "(string \<Rightarrow> row \<Rightarrow> sqlval) \<Rightarrow> (row \<Rightarrow> bool) \<Rightarrow> row list \<Rightarrow> row list res" where
  "update_rows f hit [] = Ok []"
| "update_rows f hit (r # rs) =
     (case (if hit r then store_row users_schema (\<lambda>c. f c r) else Ok r) of
        Err e \<Rightarrow> Err e
      | Ok r' \<Rightarrow> (case update_rows f hit rs of Err e \<Rightarrow> Err e | Ok rs' \<Rightarrow> Ok (r' # rs')))"

definition unknown_column :: "string list \<Rightarrow> bool" where
  "unknown_column cs \<longleftrightarrow> list_ex (\<lambda>c. c \<notin> set (map fst users_schema)) cs"

fun cond_col :: "sql_cond \<Rightarrow> string" where "cond_col (Cond a op p) = a"

fun cond_ph :: "sql_cond \<Rightarrow> string" where "cond_ph (Cond a op p) = p"

fun stmt_cols :: "sql_stmt \<Rightarrow> string list" where
  "stmt_cols (SInsert cols phs) = cols"
| "stmt_cols (SUpdate sets conds) = map fst sets @ map cond_col conds"
| "stmt_cols (SDelete conds) = map cond_col conds"
| "stmt_cols (SSelect cnt conds ord fetch) =
     map cond_col conds @ (case ord of None \<Rightarrow> [] | Some (c, d) \<Rightarrow> [c])"

fun stmt_phs :: "sql_stmt \<Rightarrow> string list" where
  "stmt_phs (SInsert cols phs) = phs"
| "stmt_phs (SUpdate sets conds) = map snd sets @ map cond_ph conds"
| "stmt_phs (SDelete conds) = map cond_ph conds"
| "stmt_phs (SSelect cnt conds ord fetch) =
     map cond_ph conds @ (case fetch of None \<Rightarrow> [] | Some (o1, n1) \<Rightarrow> [o1, n1])"

definition arg_of :: "(string \<rightharpoonup> sqlval) \<Rightarrow> string \<Rightarrow> sqlval" where
  "arg_of args p = (case args p of Some v \<Rightarrow> v | None \<Rightarrow> SvNull)"

definition exec_stmt ::
  "sql_stmt \<Rightarrow> (string \<rightharpoonup> sqlval) \<Rightarrow> row list \<Rightarrow> row list res" where
  "exec_stmt st args rs =
     (if unknown_column (stmt_cols st) then Err (pg_error ''42703'' ''column does not exist'')
      else if \<not> list_all (\<lambda>p. arg_ok (arg_of args p)) (stmt_phs st) then
        Err (pg_error ''22021'' ''invalid byte sequence for encoding UTF8'')
      else case st of
        SInsert cols phs \<Rightarrow>
          (case store_row users_schema
                  (\<lambda>c. case map_of (zip cols phs) c of Some p \<Rightarrow> arg_of args p | None \<Rightarrow> SvNull) of
             Err e \<Rightarrow> Err e
           | Ok r \<Rightarrow> check_unique (rs @ [r]))
      | SUpdate sets conds \<Rightarrow>
          (case update_rows
                  (\<lambda>c r. case map_of sets c of Some p \<Rightarrow> arg_of args p | None \<Rightarrow> col r c)
                  (conds_hold args conds) rs of
             Err e \<Rightarrow> Err e
           | Ok rs' \<Rightarrow> check_unique rs')
      | SDelete conds \<Rightarrow> Ok (filter (\<lambda>r. \<not> conds_hold args conds r) rs)
      | SSelect cnt conds ord fetch \<Rightarrow> Ok rs)"

definition row_key :: "(string \<Rightarrow> int list) \<Rightarrow> string \<Rightarrow> row \<Rightarrow> int list" where
  "row_key coll c r = (case col r c of SvString s \<Rightarrow> coll s | SvTime t \<Rightarrow> [t] | _ \<Rightarrow> [])"

definition order_rows ::
  "(string \<Rightarrow> int list) \<Rightarrow> (string \<times> string) option \<Rightarrow> row list \<Rightarrow> row list" where
  "order_rows coll ord rs =
     (case ord of
        None \<Rightarrow> rs
      | Some (c, dir) \<Rightarrow>
          if dir = ''desc'' then rev (sort_key (row_key coll c) (rev rs))
          else sort_key (row_key coll c) rs)"

definition fetch_rows ::
  "(string \<rightharpoonup> sqlval) \<Rightarrow> (string \<times> string) option \<Rightarrow> row list \<Rightarrow> row list res" where
  "fetch_rows args fetch rs =
     (case fetch of
        None \<Rightarrow> Ok rs
      | Some (o1, n1) \<Rightarrow>
          (case (arg_of args o1, arg_of args n1) of
             (SvInt o', SvInt n') \<Rightarrow>
               if n' < 0 then Err (pg_error ''2201W'' ''LIMIT must not be negative'')
               else if o' < 0 then Err (pg_error ''2201X'' ''OFFSET must not be negative'')
               else Ok (take (nat n') (drop (nat o') rs))
           | _ \<Rightarrow> Err (pg_error ''42804'' ''datatype mismatch'')))"

definition query_stmt ::
  "(string \<Rightarrow> int list) \<Rightarrow> (row \<Rightarrow> int) \<Rightarrow> sql_stmt \<Rightarrow> (string \<rightharpoonup> sqlval) \<Rightarrow> row list \<Rightarrow> row list res" where
  "query_stmt coll place st args rs =
     (if unknown_column (stmt_cols st) then Err (pg_error ''42703'' ''column does not exist'')
      else if \<not> list_all (\<lambda>p. arg_ok (arg_of args p)) (stmt_phs st) then
        Err (pg_error ''22021'' ''invalid byte sequence for encoding UTF8'')
      else case st of
        SSelect cnt conds ord fetch \<Rightarrow>
          let hits = filter (conds_hold args conds) (sort_key place rs) in
          if cnt then Ok [[(''count'', SvInt (int (length hits)))]]
          else fetch_rows args fetch (order_rows coll ord hits)
      | _ \<Rightarrow> Ok [])"

section \<open>sqlx: NamedExecContext and NamedQueryContext\<close>

definition next_fault :: "database \<Rightarrow> fault \<times> database" where
  "next_fault d =
     (case faults d of [] \<Rightarrow> (NoFault, d) | f # fs \<Rightarrow> (f, d\<lparr>faults := fs\<rparr>))"

definition named_stmt :: "string \<Rightarrow> (string \<rightharpoonup> sqlval) \<Rightarrow> sql_stmt res" where
  "named_stmt q args =
     (case sql_parse (sql_tokens q) of
        None \<Rightarrow> Err (pg_error ''42601'' ''syntax error'')
      | Some st \<Rightarrow>
          (case filter (\<lambda>p. args p = None) (stmt_phs st) of
             p # _ \<Rightarrow> Err (ErrPlain (''could not find name '' @ p))
           | [] \<Rightarrow> Ok st))"

definition named_exec ::
  "database \<Rightarrow> string \<Rightarrow> (string \<rightharpoonup> sqlval) \<Rightarrow> go_err option \<times> database" where
  "named_exec d q args =
     (case named_stmt q args of
        Err e \<Rightarrow> (Some e, d)
      | Ok st \<Rightarrow>
          (case next_fault d of
             (FailBefore e, d') \<Rightarrow> (Some e, d')
           | (f, d') \<Rightarrow>
               (case exec_stmt st args (tbl d') of
                  Err e \<Rightarrow> (Some e, d')
                | Ok rs \<Rightarrow>
                    ((case f of FailAfter e \<Rightarrow> Some e | FailRows n e \<Rightarrow> Some e | _ \<Rightarrow> None),
                     d'\<lparr>tbl := rs\<rparr>))))"

text \<open>
  The driver asks for the first row before it returns the rows, so that a connection that breaks before
  one has arrived is an error of the query itself (\<^verbatim>\<open>QueryContext\<close> of \<^verbatim>\<open>pgx/v5/stdlib\<close>).
\<close>

definition named_query ::
  "database \<Rightarrow> string \<Rightarrow> (string \<rightharpoonup> sqlval) \<Rightarrow> row_set res \<times> database" where
  "named_query d q args =
     (case named_stmt q args of
        Err e \<Rightarrow> (Err e, d)
      | Ok st \<Rightarrow>
          (case next_fault d of
             (f, d0) \<Rightarrow>
               (let d' = d0\<lparr>queries := Suc (queries d0)\<rparr> in
                case f of
                  FailBefore e \<Rightarrow> (Err e, d')
                | FailAfter e \<Rightarrow> (Err e, d')
                | _ \<Rightarrow>
                    (case query_stmt (collate d0) (scan_order d0 (queries d0)) st args (tbl d0) of
                       Err e \<Rightarrow> (Err e, d')
                     | Ok rs \<Rightarrow>
                         (case f of
                            FailRows n e \<Rightarrow>
                              if take n rs = [] then (Err e, d')
                              else (Ok \<lparr>rs_rows = take n rs, rs_err = Some e\<rparr>, d')
                          | _ \<Rightarrow> (Ok \<lparr>rs_rows = rs, rs_err = None\<rparr>, d'))))))"

section \<open>Lexing a text piece by piece\<close>

lemma sql_lex_append_blank:
  "blank b \<Longrightarrow> sql_lex cur (s @ b # t) = sql_lex cur s @ sql_lex [] t"
  by (induction s arbitrary: cur) auto

lemma sql_tokens_append: "blank b \<Longrightarrow> sql_tokens (s @ b # t) = sql_tokens s @ sql_tokens t"
  by (simp add: sql_tokens_def sql_lex_append_blank)

lemma sql_tokens_blank [simp]: "blank b \<Longrightarrow> sql_tokens (b # t) = sql_tokens t"
  using sql_tokens_append [of b "[]" t] by (simp add: sql_tokens_def flush_def)

lemma blank_simps [simp]: "blank CHR '' ''" "blank CHR 0x09" "blank CHR 0x0A"
  by (simp_all add: blank_def)

lemma sql_tokens_Nil [simp]: "sql_tokens [] = []"
  by (simp add: sql_tokens_def flush_def)

section \<open>LIKE with a plain string between percent signs\<close>

definition like_plain :: "string \<Rightarrow> bool" where
  "like_plain s \<longleftrightarrow> CHR ''%'' \<notin> set s \<and> CHR ''_'' \<notin> set s \<and> CHR 0x5C \<notin> set s"

lemma like_plain_Cons [simp]:
  "like_plain (c # cs) \<longleftrightarrow> c \<noteq> CHR ''%'' \<and> c \<noteq> CHR ''_'' \<and> c \<noteq> CHR 0x5C \<and> like_plain cs"
  by (auto simp: like_plain_def)

lemma sql_like_literal:
  "like_plain lit \<Longrightarrow> sql_like (lit @ ps) s \<longleftrightarrow> (\<exists>t. s = lit @ t \<and> sql_like ps t)"
  by (induction lit arbitrary: s) (auto split: list.splits)

lemma sql_like_percent: "sql_like (CHR ''%'' # ps) s \<longleftrightarrow> (\<exists>t. suffix t s \<and> sql_like ps t)"
proof (induction s)
  case Nil
  then show ?case by simp
next
  case (Cons c cs)
  then show ?case by (auto simp: suffix_Cons)
qed

declare sql_like.simps [simp del]

lemma sql_like_Nil [simp]: "sql_like [] s = (s = [])"
  by (simp add: sql_like.simps)

lemma sql_like_substring:
  assumes "like_plain name"
  shows "sql_like (''%'' @ name @ ''%'') s \<longleftrightarrow> (\<exists>a b. s = a @ name @ b)"
proof -
  have all: "sql_like ''%'' t" for t
    by (auto simp: sql_like_percent intro: exI [of _ "[]"])
  have "sql_like (''%'' @ name @ ''%'') s \<longleftrightarrow> (\<exists>t. suffix t s \<and> sql_like (name @ ''%'') t)"
    using sql_like_percent [of "name @ ''%''" s] by simp
  also have "\<dots> \<longleftrightarrow> (\<exists>t u. suffix t s \<and> t = name @ u)"
    using sql_like_literal [OF assms, of "''%''"] all by blast
  finally show ?thesis by (auto simp: suffix_def)
qed

end
