(* ===== verification/UserStore.thy ===== *)
theory UserStore
  imports Users OrderBy Paging Sql
begin

text \<open>
  \<^verbatim>\<open>internal/domains/user/store/userdb\<close>: the store of users on PostgreSQL. Every operation builds
  the text of its statement and its named arguments as the code does and sends them to the database
  of \<open>Sql\<close>; \<open>applyFilters\<close> extends the text and the arguments it is given. The database is passed
  and returned.
\<close>

section \<open>Texts and arguments\<close>

definition uniqueViolation :: string where
  "uniqueViolation = ''23505''"

text \<open>A raw string literal of several lines.\<close>

definition raw_lines :: "string list \<Rightarrow> string" where
  "raw_lines ls = join [CHR 0x0A] ls"

abbreviation tab :: string where "tab \<equiv> [CHR 0x09]"

definition create_q :: string where
  "create_q = raw_lines
     [[],
      tab @ ''INSERT INTO users (id,name,email,password_hash,roles,enabled,department,created_at,updated_at) '',
      tab @ ''VALUES (:id,:name,:email,:password_hash,:roles,:enabled,:department,:created_at,:updated_at) '',
      tab]"

definition update_q :: string where
  "update_q = raw_lines
     [[],
      tab @ ''UPDATE users '',
      tab @ ''SET '',
      tab @ tab @ ''name = :name, '',
      tab @ tab @ ''email = :email, '',
      tab @ tab @ ''password_hash = :password_hash,'',
      tab @ tab @ ''roles = :roles,'',
      tab @ tab @ ''enabled = :enabled,'',
      tab @ tab @ ''department = :department, '',
      tab @ tab @ ''updated_at = :updated_at'',
      tab @ ''WHERE '',
      tab @ tab @ ''id = :id;'',
      tab]"

definition delete_q :: string where
  "delete_q = raw_lines [[], tab @ ''DELETE FROM users WHERE id = :id;'', tab]"

definition by_id_q :: string where
  "by_id_q = ''SELECT * FROM users WHERE id = :id''"

definition by_email_q :: string where
  "by_email_q = ''SELECT * FROM users WHERE email = :email;''"

definition query_q :: string where
  "query_q = ''SELECT * FROM users ''"

definition count_q :: string where
  "count_q = ''SELECT COUNT(1) FROM users''"

text \<open>
  The arguments that \<^verbatim>\<open>sqlx\<close> takes from the row struct by its \<^verbatim>\<open>db\<close> tags, each passed through its
  \<^verbatim>\<open>driver.Valuer\<close>: \<^verbatim>\<open>uuid.UUID\<close> gives its string, \<^verbatim>\<open>RoleSlice\<close> the array literal, an invalid
  \<^verbatim>\<open>sql.NullString\<close> gives NULL.
\<close>

definition null_string_value :: "null_string \<Rightarrow> sqlval" where
  "null_string_value ns = (if ns_valid ns then SvString (ns_string ns) else SvNull)"

definition row_args :: "user_row \<Rightarrow> string \<rightharpoonup> sqlval" where
  "row_args r = map_of
     [(''id'', SvString (uuid_string (ur_id r))),
      (''name'', SvString (ur_name r)),
      (''email'', SvString (ur_email r)),
      (''roles'', case role_slice_value (ur_roles r) of Ok v \<Rightarrow> v | Err e \<Rightarrow> SvNull),
      (''password_hash'', SvBytes (ur_password_hash r)),
      (''department'', null_string_value (ur_department r)),
      (''enabled'', SvBool (ur_enabled r)),
      (''created_at'', SvTime (ur_created_at r)),
      (''updated_at'', SvTime (ur_updated_at r))]"

section \<open>applyFilters (filter.go)\<close>

definition filter_clauses :: "query_filter \<Rightarrow> string list" where
  "filter_clauses f =
     (if qf_name f \<noteq> None then [''name LIKE :name''] else [])
     @ (if qf_department f \<noteq> None then [''department = :department''] else [])
     @ (if qf_roles f \<noteq> None then [''roles && :roles''] else [])
     @ (if qf_start_created_at f \<noteq> None then [''created_at >= :start_created_at''] else [])
     @ (if qf_end_created_at f \<noteq> None then [''created_at <= :end_created_at''] else [])"

definition filter_data ::
  "query_filter \<Rightarrow> (string \<rightharpoonup> sqlval) \<Rightarrow> (string \<rightharpoonup> sqlval)" where
  "filter_data f data0 =
     (let data1 = (case qf_name f of None \<Rightarrow> data0
                   | Some n \<Rightarrow> data0(''name'' \<mapsto> SvString (''%'' @ n @ ''%'')));
          data2 = (case qf_department f of None \<Rightarrow> data1
                   | Some d \<Rightarrow> data1(''department'' \<mapsto> SvString d));
          data3 = (case qf_roles f of None \<Rightarrow> data2
                   | Some rs \<Rightarrow> data2(''roles'' \<mapsto> SvTextArr (map role_value rs)));
          data4 = (case qf_start_created_at f of None \<Rightarrow> data3
                   | Some t \<Rightarrow> data3(''start_created_at'' \<mapsto> SvTime t));
          data5 = (case qf_end_created_at f of None \<Rightarrow> data4
                   | Some t \<Rightarrow> data4(''end_created_at'' \<mapsto> SvTime t))
      in data5)"

definition apply_filters ::
  "query_filter \<Rightarrow> (string \<rightharpoonup> sqlval) \<Rightarrow> string \<Rightarrow> (string \<rightharpoonup> sqlval) \<times> string" where
  "apply_filters f data buf =
     (let where_clause = filter_clauses f
      in (filter_data f data,
          if length where_clause > 0
          then buf @ '' WHERE '' @ join '' AND '' where_clause else buf))"

section \<open>Reading a row: StructScan\<close>

definition scan_err :: "string \<Rightarrow> go_err \<Rightarrow> go_err" where
  "scan_err c e = ErrWrap (''sql: Scan error on column '' @ c) e"

definition scan_string :: "row \<Rightarrow> string \<Rightarrow> string res" where
  "scan_string r c =
     (case col r c of
        SvString s \<Rightarrow> Ok s
      | v \<Rightarrow> Err (scan_err c (ErrPlain (''unsupported Scan of '' @ go_type_name v))))"

definition scan_uuid :: "row \<Rightarrow> string \<Rightarrow> uuid res" where
  "scan_uuid r c =
     (case col r c of
        SvNull \<Rightarrow> Ok (replicate 16 0)
      | SvString s \<Rightarrow>
          if s = [] then Ok (replicate 16 0)
          else (case uuid_parse s of
                  Ok u \<Rightarrow> Ok u
                | Err e \<Rightarrow> Err (scan_err c (ErrPlain (''Scan: '' @ err_msg e))))
      | v \<Rightarrow> Err (scan_err c (ErrPlain (''Scan: unable to scan type '' @ go_type_name v))))"

definition scan_time :: "row \<Rightarrow> string \<Rightarrow> gotime res" where
  "scan_time r c =
     (case col r c of
        SvTime t \<Rightarrow> Ok t
      | v \<Rightarrow> Err (scan_err c (ErrPlain (''unsupported Scan of '' @ go_type_name v))))"

definition scan_bool :: "row \<Rightarrow> string \<Rightarrow> bool res" where
  "scan_bool r c =
     (case col r c of
        SvBool b \<Rightarrow> Ok b
      | v \<Rightarrow> Err (scan_err c (ErrPlain (''unsupported Scan of '' @ go_type_name v))))"

definition scan_null_string :: "row \<Rightarrow> string \<Rightarrow> null_string res" where
  "scan_null_string r c =
     (case col r c of
        SvNull \<Rightarrow> Ok \<lparr>ns_string = [], ns_valid = False\<rparr>
      | SvString s \<Rightarrow> Ok \<lparr>ns_string = s, ns_valid = True\<rparr>
      | v \<Rightarrow> Err (scan_err c (ErrPlain (''unsupported Scan of '' @ go_type_name v))))"

definition scan_roles :: "row \<Rightarrow> string \<Rightarrow> role list res" where
  "scan_roles r c =
     (case role_slice_scan [] (col r c) of
        (Some e, _) \<Rightarrow> Err (scan_err c e)
      | (None, rs) \<Rightarrow> Ok rs)"

definition struct_scan :: "row \<Rightarrow> user_row res" where
  "struct_scan r =
     (case scan_uuid r ''id'' of Err e \<Rightarrow> Err e | Ok i \<Rightarrow>
     (case scan_string r ''name'' of Err e \<Rightarrow> Err e | Ok n \<Rightarrow>
     (case scan_string r ''email'' of Err e \<Rightarrow> Err e | Ok m \<Rightarrow>
     (case scan_roles r ''roles'' of Err e \<Rightarrow> Err e | Ok rs \<Rightarrow>
     (case scan_string r ''password_hash'' of Err e \<Rightarrow> Err e | Ok h \<Rightarrow>
     (case scan_bool r ''enabled'' of Err e \<Rightarrow> Err e | Ok b \<Rightarrow>
     (case scan_null_string r ''department'' of Err e \<Rightarrow> Err e | Ok d \<Rightarrow>
     (case scan_time r ''created_at'' of Err e \<Rightarrow> Err e | Ok ct \<Rightarrow>
     (case scan_time r ''updated_at'' of Err e \<Rightarrow> Err e | Ok ut \<Rightarrow>
        Ok \<lparr>ur_id = i, ur_name = n, ur_email = m, ur_roles = rs, ur_password_hash = h,
            ur_department = d, ur_enabled = b, ur_created_at = ct, ur_updated_at = ut\<rparr>)))))))))"

fun scan_rows :: "row list \<Rightarrow> user_row list res" where
  "scan_rows [] = Ok []"
| "scan_rows (r # rs) =
     (case struct_scan r of
        Err e \<Rightarrow> Err (ErrWrap ''structScan'' e)
      | Ok u \<Rightarrow> (case scan_rows rs of Err e \<Rightarrow> Err e | Ok us \<Rightarrow> Ok (u # us)))"

section \<open>The operations (userdb.go)\<close>

definition exec_error :: "go_err \<Rightarrow> go_err" where
  "exec_error err =
     (case as_pg err of
        Some (code, _) \<Rightarrow>
          if code = uniqueViolation then ErrDuplicatedEmail else ErrWrap ''namedExecContext'' err
      | None \<Rightarrow> ErrWrap ''namedExecContext'' err)"

text \<open>Each operation ends the span that it has started when it returns.\<close>

definition span_ended :: "string \<Rightarrow> database \<Rightarrow> database" where
  "span_ended name d = d\<lparr>st_spans := st_spans d @ [name]\<rparr>"

definition ended :: "string \<Rightarrow> 'r \<times> database \<Rightarrow> 'r \<times> database" where
  "ended name out = (fst out, span_ended name (snd out))"

lemma span_ended_simps [simp]:
  "tbl (span_ended n d) = tbl d" "collate (span_ended n d) = collate d" "faults (span_ended n d) = faults d"
  "scan_order (span_ended n d) = scan_order d" "queries (span_ended n d) = queries d"
  "st_spans (span_ended n d) = st_spans d @ [n]"
  by (simp_all add: span_ended_def)

lemma ended_simps [simp]:
  "ended n (r, d) = (r, span_ended n d)" "fst (ended n out) = fst out" "snd (ended n out) = span_ended n (snd out)"
  by (simp_all add: ended_def)

definition store_create :: "database \<Rightarrow> user \<Rightarrow> go_err option \<times> database" where
  "store_create d usr =
     ended ''user.store.create''
     (case named_exec d create_q (row_args (from_bus_user usr)) of
        (Some err, d') \<Rightarrow> (Some (exec_error err), d')
      | (None, d') \<Rightarrow> (None, d'))"

definition store_update :: "database \<Rightarrow> user \<Rightarrow> go_err option \<times> database" where
  "store_update d usr =
     ended ''user.store.update''
     (case named_exec d update_q (row_args (from_bus_user usr)) of
        (Some err, d') \<Rightarrow> (Some (exec_error err), d')
      | (None, d') \<Rightarrow> (None, d'))"

definition store_delete :: "database \<Rightarrow> user \<Rightarrow> go_err option \<times> database" where
  "store_delete d usr =
     ended ''user.store.delete''
     (case named_exec d delete_q (row_args (from_bus_user usr)) of
        (Some err, d') \<Rightarrow> (Some (ErrWrap ''namedExecContext'' err), d')
      | (None, d') \<Rightarrow> (None, d'))"

text \<open>
  The common tail of \<^verbatim>\<open>QueryByID\<close> and \<^verbatim>\<open>QueryByEmail\<close>: a first row is asked for; where there is none
  the user is not found. The code does not look at \<^verbatim>\<open>rows.Err()\<close> there; a connection that breaks before the
  first row is an error of the query.
\<close>

definition first_user :: "row_set res \<Rightarrow> user res" where
  "first_user q =
     (case q of
        Err err \<Rightarrow> Err (ErrWrap ''namedQueryContext'' err)
      | Ok rows \<Rightarrow>
          (case rs_rows rows of
             [] \<Rightarrow> Err ErrUserNotFound
           | r # _ \<Rightarrow>
               (case struct_scan r of
                  Err err \<Rightarrow> Err (ErrWrap ''structScan'' err)
                | Ok usr \<Rightarrow> Ok (to_user_bus usr))))"

definition store_query_by_id :: "database \<Rightarrow> uuid \<Rightarrow> user res \<times> database" where
  "store_query_by_id d i =
     ended ''user.store.queryByID''
     (case named_query d by_id_q [''id'' \<mapsto> SvString (uuid_string i)] of
        (q, d') \<Rightarrow> (first_user q, d'))"

definition store_query_by_email :: "database \<Rightarrow> mail_address \<Rightarrow> user res \<times> database" where
  "store_query_by_email d email =
     ended ''user.store.queryByEmail''
     (case named_query d by_email_q [''email'' \<mapsto> SvString (ma_address email)] of
        (q, d') \<Rightarrow> (first_user q, d'))"

definition page_data :: "page \<Rightarrow> string \<rightharpoonup> sqlval" where
  "page_data p = [''offset'' \<mapsto> SvInt (page_offset p), ''rows_per_page'' \<mapsto> SvInt (pg_rows p)]"

definition fetch_clause :: string where
  "fetch_clause = '' OFFSET :offset ROWS FETCH NEXT :rows_per_page ROWS ONLY;''"

definition store_query ::
  "database \<Rightarrow> query_filter \<Rightarrow> order_field \<Rightarrow> page \<Rightarrow> user list res \<times> database" where
  "store_query d f ord p =
     (let (data, buf) = apply_filters f (page_data p) query_q in
      case order_by_clause ord of
        Err err \<Rightarrow> (Err (ErrWrap ''orderByClause'' err), d)
      | Ok order_clause \<Rightarrow>
          (let buf = (buf @ order_clause) @ fetch_clause in
           ended ''user.store.query'' (case named_query d buf data of
             (Err err, d') \<Rightarrow> (Err (ErrWrap ''namedQueryContext'' err), d')
           | (Ok rows, d') \<Rightarrow>
               (case scan_rows (rs_rows rows) of
                  Err err \<Rightarrow> (Err err, d')
                | Ok usrs \<Rightarrow>
                    (case rs_err rows of
                       Some err \<Rightarrow> (Err (ErrWrap ''preparing next row to scan'' err), d')
                     | None \<Rightarrow> (Ok (map to_user_bus usrs), d'))))))"

text \<open>
  In \<^verbatim>\<open>Count\<close> the error that is wrapped when there is no row is the nil \<^verbatim>\<open>err\<close> of the query, which
  \<^verbatim>\<open>fmt.Errorf\<close> prints as \<^verbatim>\<open>%!w(<nil>)\<close>.
\<close>

definition store_count :: "database \<Rightarrow> query_filter \<Rightarrow> int res \<times> database" where
  "store_count d f =
     ended ''user.store.count''
     (let (data, buf) = apply_filters f Map.empty count_q in
      case named_query d buf data of
        (Err err, d') \<Rightarrow> (Err (ErrWrap ''namedQueryContext'' err), d')
      | (Ok rows, d') \<Rightarrow>
          (case rs_rows rows of
             [] \<Rightarrow> (Err (ErrPlain ''moving cursor to next row: %!w(<nil>)''), d')
           | r # _ \<Rightarrow>
               (case col r ''count'' of
                  SvInt n \<Rightarrow> (Ok n, d')
                | v \<Rightarrow> (Err (ErrWrap ''structScan'' (scan_err ''count'' (ErrPlain (go_type_name v)))), d'))))"

section \<open>The statements mean what they should\<close>

lemma create_q_parse: "sql_parse (sql_tokens create_q) = Some (SInsert
    [''id'',''name'',''email'',''password_hash'',''roles'',''enabled'',''department'',''created_at'',''updated_at'']
    [''id'',''name'',''email'',''password_hash'',''roles'',''enabled'',''department'',''created_at'',''updated_at''])"
  by code_simp

lemma update_q_parse: "sql_parse (sql_tokens update_q) = Some (SUpdate
    [(''name'',''name''),(''email'',''email''),(''password_hash'',''password_hash''),(''roles'',''roles''),
     (''enabled'',''enabled''),(''department'',''department''),(''updated_at'',''updated_at'')]
    [Cond ''id'' ''='' ''id''])"
  by code_simp

lemma delete_q_parse: "sql_parse (sql_tokens delete_q) = Some (SDelete [Cond ''id'' ''='' ''id''])"
  by code_simp

lemma by_id_q_parse:
  "sql_parse (sql_tokens by_id_q) = Some (SSelect False [Cond ''id'' ''='' ''id''] None None)"
  by code_simp

lemma by_email_q_parse:
  "sql_parse (sql_tokens by_email_q) = Some (SSelect False [Cond ''email'' ''='' ''email''] None None)"
  by code_simp

lemmas stmt_parse = create_q_parse update_q_parse delete_q_parse by_id_q_parse by_email_q_parse

text \<open>
  The text of a listing depends on the filters that are set. It is parsed piece by piece: the
  clauses, their conjunction, the order, the page.
\<close>

definition filter_conds :: "query_filter \<Rightarrow> sql_cond list" where
  "filter_conds f =
     (if qf_name f \<noteq> None then [Cond ''name'' ''LIKE'' ''name''] else [])
     @ (if qf_department f \<noteq> None then [Cond ''department'' ''='' ''department''] else [])
     @ (if qf_roles f \<noteq> None then [Cond ''roles'' ''&&'' ''roles''] else [])
     @ (if qf_start_created_at f \<noteq> None then [Cond ''created_at'' ''>='' ''start_created_at''] else [])
     @ (if qf_end_created_at f \<noteq> None then [Cond ''created_at'' ''<='' ''end_created_at''] else [])"

fun cond_text :: "sql_cond \<Rightarrow> string" where
  "cond_text (Cond a op p) = a @ '' '' @ op @ '' '' @ '':'' @ p"

fun cond_tokens :: "sql_cond \<Rightarrow> string list" where
  "cond_tokens (Cond a op p) = [a, op, CHR '':'' # p]"

fun conds_tokens :: "sql_cond list \<Rightarrow> string list" where
  "conds_tokens [] = []"
| "conds_tokens [c] = cond_tokens c"
| "conds_tokens (c # d # cs) = cond_tokens c @ ''AND'' # conds_tokens (d # cs)"

definition good_cond :: "sql_cond \<Rightarrow> bool" where
  "good_cond c \<longleftrightarrow> sql_tokens (cond_text c) = cond_tokens c \<and>
     (case c of Cond a op p \<Rightarrow> op \<in> set sql_ops)"

lemma filter_clauses_text: "filter_clauses f = map cond_text (filter_conds f)"
  by (simp add: filter_clauses_def filter_conds_def)

lemma good_filter_conds: "\<forall>c \<in> set (filter_conds f). good_cond c"
proof -
  have "list_all good_cond
      [Cond ''name'' ''LIKE'' ''name'', Cond ''department'' ''='' ''department'',
       Cond ''roles'' ''&&'' ''roles'', Cond ''created_at'' ''>='' ''start_created_at'',
       Cond ''created_at'' ''<='' ''end_created_at'']"
    by code_simp
  then show ?thesis by (auto simp: filter_conds_def)
qed

lemma tokens_conjunction:
  "\<forall>c \<in> set cs. good_cond c \<Longrightarrow> sql_tokens (join '' AND '' (map cond_text cs)) = conds_tokens cs"
proof (induction cs rule: induct_list012)
  case (3 c d cs)
  let ?rest = "join '' AND '' (map cond_text (d # cs))"
  have "sql_tokens (cond_text c @ CHR '' '' # ''AND'' @ CHR '' '' # ?rest) =
      sql_tokens (cond_text c) @ sql_tokens ''AND'' @ sql_tokens ?rest"
    using sql_tokens_append [of "CHR '' ''" "cond_text c" "''AND'' @ CHR '' '' # ?rest"]
      sql_tokens_append [of "CHR '' ''" "''AND''" ?rest] by simp
  moreover have "sql_tokens ''AND'' = [''AND'']" by code_simp
  moreover have "sql_tokens ?rest = conds_tokens (d # cs)"
    using 3 by simp
  ultimately show ?case
    using 3 by (simp add: good_cond_def)
qed (auto simp: good_cond_def)

lemma parse_conds_tokens:
  "cs \<noteq> [] \<Longrightarrow> \<forall>c \<in> set cs. good_cond c \<Longrightarrow> rest = [] \<or> hd rest \<noteq> ''AND'' \<Longrightarrow>
     parse_conds (conds_tokens cs @ rest) = Some (cs, rest)"
proof (induction cs rule: induct_list012)
  case (2 c)
  then show ?case
    by (cases c; cases rest) (auto simp: good_cond_def is_placeholder_def)
next
  case (3 c d cs)
  then show ?case
    by (cases c) (auto simp: good_cond_def is_placeholder_def)
qed simp

text \<open>The words that \<^verbatim>\<open>applyFilters\<close> adds to a text.\<close>

definition where_tokens :: "query_filter \<Rightarrow> string list" where
  "where_tokens f =
     (if filter_conds f = [] then [] else ''WHERE'' # conds_tokens (filter_conds f))"

lemma tokens_apply_filters:
  "sql_tokens (snd (apply_filters f data buf)) = sql_tokens buf @ where_tokens f"
proof (cases "filter_conds f = []")
  case True
  then show ?thesis
    by (simp add: apply_filters_def filter_clauses_text where_tokens_def)
next
  case False
  let ?j = "join '' AND '' (map cond_text (filter_conds f))"
  have "sql_tokens (buf @ CHR '' '' # ''WHERE'' @ CHR '' '' # ?j) =
      sql_tokens buf @ sql_tokens ''WHERE'' @ sql_tokens ?j"
    using sql_tokens_append [of "CHR '' ''" buf "''WHERE'' @ CHR '' '' # ?j"]
      sql_tokens_append [of "CHR '' ''" "''WHERE''" ?j] by simp
  moreover have "sql_tokens ''WHERE'' = [''WHERE'']" by code_simp
  ultimately show ?thesis
    using False tokens_conjunction [OF good_filter_conds]
    by (simp add: apply_filters_def filter_clauses_text where_tokens_def Let_def)
qed

lemma parse_where_tokens:
  "rest = [] \<or> (hd rest \<noteq> ''AND'' \<and> hd rest \<noteq> ''WHERE'') \<Longrightarrow>
     parse_where (where_tokens f @ rest) = Some (filter_conds f, rest)"
  using parse_conds_tokens [OF _ good_filter_conds]
  by (auto simp: parse_where_def where_tokens_def)

lemma tokens_order_clause:
  assumes "wf_order ord" "order_by_field_names (of_name ord) = Some c"
  shows "sql_tokens ('' ORDER BY '' @ c @ '' '' @ of_dir ord) = [''ORDER'', ''BY'', c, of_dir ord]"
    and "c \<in> set order_columns" and "of_dir ord = ''asc'' \<or> of_dir ord = ''desc''"
proof -
  have all: "list_all (\<lambda>c. list_all (\<lambda>d. sql_tokens ('' ORDER BY '' @ c @ '' '' @ d) =
      [''ORDER'', ''BY'', c, d]) order_dirs) order_columns"
    by code_simp
  show c: "c \<in> set order_columns"
    using assms(2) by (auto simp: order_by_field_names_def order_columns_def split: if_splits)
  have "of_dir ord \<in> set order_dirs" using assms(1) by (simp add: wf_order_def)
  with all c show "sql_tokens ('' ORDER BY '' @ c @ '' '' @ of_dir ord) = [''ORDER'', ''BY'', c, of_dir ord]"
    unfolding list_all_iff by blast
  show "of_dir ord = ''asc'' \<or> of_dir ord = ''desc''"
    using assms(1) by (auto simp: wf_order_def order_dirs_def)
qed

definition query_text :: "query_filter \<Rightarrow> string \<Rightarrow> string" where
  "query_text f order_clause = (snd (apply_filters f Map.empty query_q) @ order_clause) @ fetch_clause"

lemma apply_filters_text: "snd (apply_filters f data buf) = snd (apply_filters f data' buf)"
  by (simp add: apply_filters_def Let_def)

lemma query_text_parse:
  assumes "wf_order ord" "order_by_field_names (of_name ord) = Some c"
  shows "sql_parse (sql_tokens (query_text f ('' ORDER BY '' @ c @ '' '' @ of_dir ord))) =
    Some (SSelect False (filter_conds f) (Some (c, of_dir ord)) (Some (''offset'', ''rows_per_page'')))"
proof -
  let ?o = "''ORDER BY '' @ c @ '' '' @ of_dir ord"
  let ?w = "snd (apply_filters f Map.empty query_q)"
  let ?f = "tl fetch_clause"
  note ord = tokens_order_clause [OF assms]
  have fc: "fetch_clause = CHR '' '' # ?f" by (simp add: fetch_clause_def)
  have ft: "sql_tokens ?f = [''OFFSET'', '':offset'', ''ROWS'', ''FETCH'', ''NEXT'', '':rows_per_page'',
      ''ROWS'', ''ONLY'', '';'']" by code_simp
  have qt: "sql_tokens query_q = [''SELECT'', ''*'', ''FROM'', ''users'']" by code_simp
  have "sql_tokens (query_text f ('' ORDER BY '' @ c @ '' '' @ of_dir ord)) =
      sql_tokens (?w @ CHR '' '' # (?o @ CHR '' '' # ?f))"
    by (subst fc [symmetric]) (simp add: query_text_def)
  also have "\<dots> = sql_tokens ?w @ sql_tokens ?o @ sql_tokens ?f"
    using sql_tokens_append [of "CHR '' ''" ?w "?o @ CHR '' '' # ?f"]
      sql_tokens_append [of "CHR '' ''" ?o ?f] by simp
  also have "sql_tokens ?o = [''ORDER'', ''BY'', c, of_dir ord]"
    using ord(1) by simp
  finally have toks: "sql_tokens (query_text f ('' ORDER BY '' @ c @ '' '' @ of_dir ord)) =
      [''SELECT'', ''*'', ''FROM'', ''users''] @ where_tokens f @
      [''ORDER'', ''BY'', c, of_dir ord] @ sql_tokens ?f"
    by (simp only: tokens_apply_filters qt append_assoc)
  have "parse_where (where_tokens f @ [''ORDER'', ''BY'', c, of_dir ord] @ sql_tokens ?f) =
      Some (filter_conds f, [''ORDER'', ''BY'', c, of_dir ord] @ sql_tokens ?f)"
    by (rule parse_where_tokens) simp
  then show ?thesis
    using ord(3) unfolding toks ft
    by (auto simp: sql_parse_def parse_select_def parse_order_def parse_fetch_def at_end_def
        is_placeholder_def)
qed

lemma count_text_parse:
  "sql_parse (sql_tokens (snd (apply_filters f data count_q))) =
    Some (SSelect True (filter_conds f) None None)"
proof -
  have qt: "sql_tokens count_q = [''SELECT'', ''COUNT'', ''('', ''1'', '')'', ''FROM'', ''users'']" by code_simp
  have "parse_where (where_tokens f) = Some (filter_conds f, [])"
    using parse_where_tokens [of "[]" f] by simp
  then show ?thesis
    by (simp add: tokens_apply_filters qt sql_parse_def parse_select_def parse_order_def
        parse_fetch_def at_end_def)
qed

end
