(* ===== verification/StoreSpec.thy ===== *)
theory StoreSpec
  imports UserStore "HOL-Library.Multiset"
begin

text \<open>
  What the store promises: the table holds the rows of a list of users, and every operation acts on
  that list as its name says. \<open>holds_users d us\<close> is the refinement relation between the database and
  the list; the lemmas \<open>store_\<dots>_spec\<close> are the simulation, operation by operation; the
  contract that the bus relies on is in \<open>StoreContract\<close>.
\<close>

section \<open>Users and rows\<close>

definition addr :: "user \<Rightarrow> string" where
  "addr u = ma_address (u_email u)"

definition typed_user :: "user \<Rightarrow> bool" where
  "typed_user u \<longleftrightarrow> wf_uuid (u_id u) \<and> wf_roles (u_roles u)"

text \<open>The user fits the columns of the table.\<close>

definition fits :: "user \<Rightarrow> bool" where
  "fits u \<longleftrightarrow> rune_count (u_name u) \<le> 200 \<and> rune_count (addr u) \<le> 300 \<and>
     rune_count (u_department u) \<le> 100 \<and> text_ok (u_name u) \<and> text_ok (addr u) \<and>
     text_ok (u_department u) \<and> text_ok (u_password_hash u)"

definition roles_literal :: "role list \<Rightarrow> string" where
  "roles_literal rs = (if rs = [] then ''{}'' else ''{'' @ join '','' (map role_string rs) @ ''}'')"

definition user_to_row :: "user \<Rightarrow> row" where
  "user_to_row u =
     [(''id'', SvString (uuid_string (u_id u))),
      (''name'', SvString (u_name u)),
      (''email'', SvString (addr u)),
      (''roles'', SvString (roles_literal (u_roles u))),
      (''password_hash'', SvString (u_password_hash u)),
      (''enabled'', SvBool (u_enabled u)),
      (''department'', if u_department u = [] then SvNull else SvString (u_department u)),
      (''created_at'', SvTime (trunc_micro (u_created_at u))),
      (''updated_at'', SvTime (trunc_micro (u_updated_at u)))]"

definition users_ok :: "user list \<Rightarrow> bool" where
  "users_ok us \<longleftrightarrow>
     list_all (\<lambda>u. typed_user u \<and> fits u \<and> stored_user u = u) us \<and>
     distinct (map u_id us) \<and> distinct (map addr us)"

definition holds_users :: "database \<Rightarrow> user list \<Rightarrow> bool" where
  "holds_users d us \<longleftrightarrow> tbl d = map user_to_row us \<and> users_ok us"

definition healthy :: "database \<Rightarrow> bool" where
  "healthy d \<longleftrightarrow> list_all (\<lambda>f. f = NoFault) (faults d)"

lemma span_ended_store [simp]:
  "holds_users (span_ended n d) us \<longleftrightarrow> holds_users d us" "healthy (span_ended n d) \<longleftrightarrow> healthy d"
  by (simp_all add: holds_users_def healthy_def)

text \<open>The columns take the user: beyond their widths its texts have nothing but spaces.\<close>

definition storable :: "user \<Rightarrow> bool" where
  "storable u \<longleftrightarrow> blank_beyond 200 (u_name u) \<and> blank_beyond 300 (addr u) \<and>
     blank_beyond 100 (u_department u) \<and> text_ok (u_name u) \<and> text_ok (addr u) \<and>
     text_ok (u_department u) \<and> text_ok (u_password_hash u)"

lemma storable_fits [simp]: "fits u \<Longrightarrow> storable u"
  by (simp add: fits_def storable_def)

lemma addr_stored: "addr (stored_user u) = take_runes 300 (addr u)"
  by (simp add: addr_def stored_user_texts)

lemma stored_fits [simp]:
  assumes "fits u"
  shows "u_name (stored_user u) = u_name u" "addr (stored_user u) = addr u"
    "u_department (stored_user u) = u_department u"
  using assms by (simp_all add: fits_def stored_user_texts addr_stored)

lemma fits_stored: "storable u \<Longrightarrow> fits (stored_user u)"
  by (simp add: storable_def fits_def stored_user_texts addr_stored rune_count_take_runes)

lemma typed_stored [simp]: "typed_user (stored_user u) = typed_user u"
  by (simp add: typed_user_def)

lemma col_user_to_row [simp]:
  "col (user_to_row u) ''id'' = SvString (uuid_string (u_id u))"
  "col (user_to_row u) ''name'' = SvString (u_name u)"
  "col (user_to_row u) ''email'' = SvString (addr u)"
  "col (user_to_row u) ''roles'' = SvString (roles_literal (u_roles u))"
  "col (user_to_row u) ''password_hash'' = SvString (u_password_hash u)"
  "col (user_to_row u) ''enabled'' = SvBool (u_enabled u)"
  "col (user_to_row u) ''department'' =
     (if u_department u = [] then SvNull else SvString (u_department u))"
  "col (user_to_row u) ''created_at'' = SvTime (trunc_micro (u_created_at u))"
  "col (user_to_row u) ''updated_at'' = SvTime (trunc_micro (u_updated_at u))"
  by (simp_all add: col_def user_to_row_def)

lemma role_slice_value_literal: "role_slice_value rs = Ok (SvString (roles_literal rs))"
  by (simp add: role_slice_value_def roles_literal_def Let_def)

lemma scan_roles_literal: "wf_roles rs \<Longrightarrow> role_slice_scan old (SvString (roles_literal rs)) = (None, rs)"
  using role_slice_roundtrip_raw [OF _ role_slice_value_literal] .

lemma uuid_string_nonempty: "wf_uuid u \<Longrightarrow> uuid_string u \<noteq> []"
  using length_uuid_string by force

text \<open>Reading back the row of a user.\<close>

lemma struct_scan_user_to_row:
  "typed_user u \<Longrightarrow> stored_user u = u \<Longrightarrow> struct_scan (user_to_row u) = Ok (from_bus_user u)"
  by (simp add: struct_scan_def scan_uuid_def scan_string_def scan_roles_def scan_bool_def
      scan_null_string_def scan_time_def typed_user_def uuid_string_nonempty uuid_parse_string
      scan_roles_literal from_bus_user_def addr_def stored_fix)

lemma scan_rows_user_to_row:
  "list_all (\<lambda>u. typed_user u \<and> stored_user u = u) us \<Longrightarrow>
     scan_rows (map user_to_row us) = Ok (map from_bus_user us)"
  by (induction us) (auto simp: struct_scan_user_to_row)

lemma to_user_bus_stored: "stored_user u = u \<Longrightarrow> to_user_bus (from_bus_user u) = u"
  using stored_fix(3) [of u] by (cases u) (simp add: to_from_bus_user)

text \<open>Writing the row of a user.\<close>

lemma row_args_user [simp]:
  "row_args (from_bus_user u) ''id'' = Some (SvString (uuid_string (u_id u)))"
  "row_args (from_bus_user u) ''name'' = Some (SvString (u_name u))"
  "row_args (from_bus_user u) ''email'' = Some (SvString (addr u))"
  "row_args (from_bus_user u) ''roles'' = Some (SvString (roles_literal (u_roles u)))"
  "row_args (from_bus_user u) ''password_hash'' = Some (SvBytes (u_password_hash u))"
  "row_args (from_bus_user u) ''enabled'' = Some (SvBool (u_enabled u))"
  "row_args (from_bus_user u) ''department'' =
     Some (if u_department u = [] then SvNull else SvString (u_department u))"
  "row_args (from_bus_user u) ''created_at'' = Some (SvTime (u_created_at u))"
  "row_args (from_bus_user u) ''updated_at'' = Some (SvTime (u_updated_at u))"
  by (simp_all add: row_args_def from_bus_user_def role_slice_value_literal null_string_value_def addr_def)

lemma store_row_user:
  assumes "storable u"
    and "f ''id'' = SvString (uuid_string (u_id u))" "f ''name'' = SvString (u_name u)"
    and "f ''email'' = SvString (addr u)" "f ''roles'' = SvString (roles_literal (u_roles u))"
    and "f ''password_hash'' = SvBytes (u_password_hash u) \<or> f ''password_hash'' = SvString (u_password_hash u)"
    and "f ''enabled'' = SvBool (u_enabled u)"
    and "f ''department'' = (if u_department u = [] then SvNull else SvString (u_department u))"
    and "f ''created_at'' = SvTime (u_created_at u)" "f ''updated_at'' = SvTime (u_updated_at u)"
  shows "store_row users_schema f = Ok (user_to_row (stored_user u))"
proof -
  have times: "u_created_at (stored_user u) = trunc_micro (u_created_at u)"
    "u_updated_at (stored_user u) = trunc_micro (u_updated_at u)"
    by (simp_all add: stored_user_def)
  show ?thesis
    using assms
    by (auto simp: users_schema_def store_col_def storable_def user_to_row_def times stored_user_texts
        addr_stored trunc_micro_def)
qed

section \<open>Texts that the database takes\<close>

definition ascii :: "string \<Rightarrow> bool" where
  "ascii s \<longleftrightarrow> list_all (\<lambda>c. 0 < byte_of c \<and> byte_of c < 128) s"

lemma ascii_simps [simp]:
  "ascii []" "ascii (c # s) \<longleftrightarrow> 0 < byte_of c \<and> byte_of c < 128 \<and> ascii s"
  "ascii (s @ t) \<longleftrightarrow> ascii s \<and> ascii t"
  by (auto simp: ascii_def)

lemma utf8_valid_Nil [simp]: "utf8_valid []"
  by (subst utf8_valid.simps) simp

lemma utf8_valid_ascii: "ascii s \<Longrightarrow> utf8_valid s"
proof (induction s)
  case (Cons c s)
  then show ?case by (subst utf8_valid.simps) simp
qed simp

lemma text_ok_ascii: "ascii s \<Longrightarrow> text_ok s"
  by (auto simp: text_ok_def utf8_valid_ascii ascii_def list_all_iff)

lemma hex_digit_ascii: "w < 16 \<Longrightarrow> 0 < byte_of (hex_digit w) \<and> byte_of (hex_digit w) < 128"
proof -
  assume "w < 16"
  then have "unat w < 16" by (simp add: word_less_nat_alt)
  then show ?thesis by (simp add: hex_digit_def)
qed

lemma ascii_hex_encode: "ascii (hex_encode bs)"
  by (induction bs) (simp_all add: hex_encode_def hex_byte_def hex_digit_ascii nibbles_lt)

lemma text_ok_uuid [simp]: "text_ok (uuid_string u)"
  by (rule text_ok_ascii) (simp add: uuid_string_def ascii_hex_encode)

lemma ascii_join: "ascii sep \<Longrightarrow> list_all ascii xs \<Longrightarrow> ascii (join sep xs)"
  by (induction sep xs rule: join.induct) auto

lemma ascii_role: "valid_roles (role_value r) = Some r \<Longrightarrow> ascii (role_value r)"
  by (auto simp: valid_roles_eq split: if_splits)

lemma text_ok_roles [simp]: "wf_roles rs \<Longrightarrow> text_ok (roles_literal rs)"
  by (rule text_ok_ascii)
    (auto simp: roles_literal_def wf_roles_def list_all_iff ascii_role role_string_def
      intro!: ascii_join)

lemma text_ok_Nil [simp]: "text_ok []"
  by (simp add: text_ok_def)

lemma row_args_ok:
  "typed_user u \<Longrightarrow> storable u \<Longrightarrow> row_args (from_bus_user u) p = Some v \<Longrightarrow> arg_ok v"
  by (auto simp: row_args_def from_bus_user_def role_slice_value_literal null_string_value_def
      typed_user_def storable_def addr_def split: if_splits)

section \<open>Keys\<close>

lemma map_col_id: "map (\<lambda>r. col r ''id'') (map user_to_row us) = map (\<lambda>u. SvString (uuid_string (u_id u))) us"
  by simp

lemma no_dup_id:
  "list_all typed_user us \<Longrightarrow> no_dup ''id'' (map user_to_row us) \<longleftrightarrow> distinct (map u_id us)"
proof (induction us)
  case (Cons u us)
  have "SvString (uuid_string (u_id u)) \<in> (\<lambda>u. SvString (uuid_string (u_id u))) ` set us \<longleftrightarrow>
      u_id u \<in> u_id ` set us"
    using Cons.prems uuid_string_inj by (force simp: typed_user_def list_all_iff)
  with Cons show ?case by (simp add: no_dup_def comp_def image_image)
qed (simp add: no_dup_def)

lemma no_dup_email: "no_dup ''email'' (map user_to_row us) \<longleftrightarrow> distinct (map addr us)"
  by (induction us) (auto simp: no_dup_def)

lemma check_unique_users:
  "list_all typed_user us \<Longrightarrow>
   check_unique (map user_to_row us) =
     (if distinct (map u_id us) \<and> distinct (map addr us) then Ok (map user_to_row us)
      else if distinct (map u_id us) then
        Err (pg_error ''23505'' ''duplicate key value violates unique constraint users_email_key'')
      else Err (pg_error ''23505'' ''duplicate key value violates unique constraint users_pkey''))"
  using no_dup_id [of us] no_dup_email [of us] by (simp add: check_unique_def)

lemma users_ok_typed: "users_ok us \<Longrightarrow> list_all typed_user us"
  by (auto simp: users_ok_def list_all_iff)

lemma users_ok_stored: "users_ok us \<Longrightarrow> u \<in> set us \<Longrightarrow> stored_user u = u"
  by (auto simp: users_ok_def list_all_iff)

lemma id_cond_user:
  assumes "wf_uuid i" "typed_user u" "args ''id'' = Some (SvString (uuid_string i))"
  shows "conds_hold args [Cond ''id'' ''='' ''id''] (user_to_row u) \<longleftrightarrow> u_id u = i"
  using assms uuid_string_inj [of "u_id u" i]
  by (auto simp: conds_hold_def cond_holds_def sql_holds_def typed_user_def)

lemma email_cond_user:
  assumes "args ''email'' = Some (SvString a)"
  shows "conds_hold args [Cond ''email'' ''='' ''email''] (user_to_row u) \<longleftrightarrow> addr u = a"
  using assms by (auto simp: conds_hold_def cond_holds_def sql_holds_def)

lemma filter_map_rows:
  "(\<And>u. u \<in> set us \<Longrightarrow> P (user_to_row u) \<longleftrightarrow> Q u) \<Longrightarrow>
     filter P (map user_to_row us) = map user_to_row (filter Q us)"
  by (induction us) auto

section \<open>Round trips of a healthy connection\<close>

lemma healthy_next_fault: "healthy d \<Longrightarrow> \<exists>d'. next_fault d = (NoFault, d') \<and> healthy d' \<and>
    tbl d' = tbl d \<and> collate d' = collate d \<and> scan_order d' = scan_order d \<and> queries d' = queries d"
  by (cases "faults d") (auto simp: next_fault_def healthy_def)

lemma named_exec_healthy:
  assumes "healthy d" "named_stmt q args = Ok st"
  obtains d' where "healthy d'" "tbl d' = tbl d" "collate d' = collate d"
    and "named_exec d q args =
      (case exec_stmt st args (tbl d) of Err e \<Rightarrow> (Some e, d') | Ok rs \<Rightarrow> (None, d'\<lparr>tbl := rs\<rparr>))"
proof -
  from healthy_next_fault [OF assms(1)] obtain d' where
    d': "next_fault d = (NoFault, d')" "healthy d'" "tbl d' = tbl d" "collate d' = collate d" by blast
  show thesis
    by (rule that [of d']) (use d' assms(2) in \<open>simp_all add: named_exec_def split: sum.split\<close>)
qed

lemma named_query_healthy:
  assumes "healthy d" "named_stmt q args = Ok st"
  obtains d' where "healthy d'" "tbl d' = tbl d" "collate d' = collate d"
    "scan_order d' = scan_order d" "queries d' = Suc (queries d)"
    and "named_query d q args =
      (case query_stmt (collate d) (scan_order d (queries d)) st args (tbl d) of
         Err e \<Rightarrow> (Err e, d') | Ok rs \<Rightarrow> (Ok \<lparr>rs_rows = rs, rs_err = None\<rparr>, d'))"
proof -
  from healthy_next_fault [OF assms(1)] obtain d' where
    d': "next_fault d = (NoFault, d')" "healthy d'" "tbl d' = tbl d" "collate d' = collate d"
    "scan_order d' = scan_order d" "queries d' = queries d" by blast
  show thesis
    by (rule that [of "d'\<lparr>queries := Suc (queries d')\<rparr>"])
      (use d' assms(2) in \<open>simp_all add: named_query_def Let_def healthy_def split: sum.split\<close>)
qed

lemma healthy_tbl [simp]: "healthy (d\<lparr>tbl := rs\<rparr>) = healthy d"
  by (simp add: healthy_def)

section \<open>The abstract store\<close>

definition spec_create :: "user list \<Rightarrow> user \<Rightarrow> go_err option \<times> user list" where
  "spec_create us u =
     (if u_id u \<in> set (map u_id us) \<or> addr (stored_user u) \<in> set (map addr us) then (Some ErrDuplicatedEmail, us)
      else (None, us @ [stored_user u]))"

text \<open>An update writes every column but the creation time.\<close>

definition updated_users :: "user list \<Rightarrow> user \<Rightarrow> user list" where
  "updated_users us u =
     map (\<lambda>v. if u_id v = u_id u then (stored_user u)\<lparr>u_created_at := u_created_at v\<rparr> else v) us"

definition spec_update :: "user list \<Rightarrow> user \<Rightarrow> go_err option \<times> user list" where
  "spec_update us u =
     (if distinct (map addr (updated_users us u)) then (None, updated_users us u)
      else (Some ErrDuplicatedEmail, us))"

definition spec_delete :: "user list \<Rightarrow> user \<Rightarrow> go_err option \<times> user list" where
  "spec_delete us u = (None, filter (\<lambda>v. u_id v \<noteq> u_id u) us)"

definition spec_by_id :: "user list \<Rightarrow> uuid \<Rightarrow> user res" where
  "spec_by_id us i =
     (case find (\<lambda>v. u_id v = i) us of None \<Rightarrow> Err ErrUserNotFound | Some u \<Rightarrow> Ok u)"

definition spec_by_email :: "user list \<Rightarrow> mail_address \<Rightarrow> user res" where
  "spec_by_email us m =
     (case find (\<lambda>v. addr v = ma_address m) us of None \<Rightarrow> Err ErrUserNotFound | Some u \<Rightarrow> Ok u)"

lemma users_ok_Nil [simp]: "users_ok []"
  by (simp add: users_ok_def)

lemma users_ok_append:
  "users_ok us \<Longrightarrow> typed_user u \<Longrightarrow> storable u \<Longrightarrow> u_id u \<notin> set (map u_id us) \<Longrightarrow>
     addr (stored_user u) \<notin> set (map addr us) \<Longrightarrow> users_ok (us @ [stored_user u])"
  by (auto simp: users_ok_def fits_stored)

text \<open>The order in which a query finds the users does not matter.\<close>

lemma distinct_map_sort [simp]: "distinct (map f (sort_key k us)) \<longleftrightarrow> distinct (map f us)"
  by (metis mset_eq_imp_distinct_iff mset_map mset_sort)

lemma users_ok_sort [simp]: "users_ok (sort_key k us) = users_ok us"
  by (simp add: users_ok_def list_all_iff)

lemma find_sort:
  assumes "distinct (map f us)"
  shows "find (\<lambda>v. f v = a) (sort_key k us) = find (\<lambda>v. f v = a) us"
proof (cases "\<exists>u \<in> set us. f u = a")
  case True
  then obtain u where u: "u \<in> set us" "f u = a" by blast
  have "distinct (map f (sort_key k us))" using assms by simp
  then show ?thesis using find_distinct [OF assms u] find_distinct [of f "sort_key k us" u a] u by simp
next
  case False
  then have "find (\<lambda>v. f v = a) us = None" "find (\<lambda>v. f v = a) (sort_key k us) = None"
    by (auto simp: find_None_iff)
  then show ?thesis by simp
qed

lemma insort_key_map:
  "insort_key f (g x) (map g xs) = map g (insort_key (\<lambda>y. f (g y)) x xs)"
  by (induction xs) auto

lemma sort_key_map: "sort_key f (map g xs) = map g (sort_key (\<lambda>y. f (g y)) xs)"
  by (induction xs) (auto simp: insort_key_map)

lemma users_ok_filter: "users_ok us \<Longrightarrow> users_ok (filter P us)"
  by (auto simp: users_ok_def list_all_iff distinct_map_filter)

lemma exec_error_unique [simp]: "exec_error (pg_error ''23505'' m) = ErrDuplicatedEmail"
  by (simp add: exec_error_def pg_error_def uniqueViolation_def)

lemma row_args_dom:
  "p \<in> set (map fst users_schema) \<Longrightarrow> row_args (from_bus_user u) p \<noteq> None"
  by (auto simp: users_schema_def)

lemma named_create: "named_stmt create_q (row_args (from_bus_user u)) = Ok (SInsert
    [''id'',''name'',''email'',''password_hash'',''roles'',''enabled'',''department'',''created_at'',''updated_at'']
    [''id'',''name'',''email'',''password_hash'',''roles'',''enabled'',''department'',''created_at'',''updated_at''])"
  by (simp add: named_stmt_def create_q_parse)

lemma named_update: "named_stmt update_q (row_args (from_bus_user u)) = Ok (SUpdate
    [(''name'',''name''),(''email'',''email''),(''password_hash'',''password_hash''),(''roles'',''roles''),
     (''enabled'',''enabled''),(''department'',''department''),(''updated_at'',''updated_at'')]
    [Cond ''id'' ''='' ''id''])"
  by (simp add: named_stmt_def update_q_parse)

lemma named_delete: "named_stmt delete_q (row_args (from_bus_user u)) = Ok (SDelete [Cond ''id'' ''='' ''id''])"
  by (simp add: named_stmt_def delete_q_parse)

lemma row_args_arg_ok:
  assumes "typed_user u" "storable u"
  shows "arg_ok (arg_of (row_args (from_bus_user u)) p)"
  using row_args_ok [OF assms] by (cases "row_args (from_bus_user u) p") (auto simp: arg_of_def)

lemma exec_create:
  assumes "typed_user u" "storable u"
  shows "exec_stmt (SInsert
    [''id'',''name'',''email'',''password_hash'',''roles'',''enabled'',''department'',''created_at'',''updated_at'']
    [''id'',''name'',''email'',''password_hash'',''roles'',''enabled'',''department'',''created_at'',''updated_at''])
    (row_args (from_bus_user u)) rs = check_unique (rs @ [user_to_row (stored_user u)])"
proof -
  let ?cs = "[''id'',''name'',''email'',''password_hash'',''roles'',''enabled'',''department'',''created_at'',''updated_at'']"
  let ?f = "\<lambda>c. case map_of (zip ?cs ?cs) c of
      Some p \<Rightarrow> arg_of (row_args (from_bus_user u)) p | None \<Rightarrow> SvNull"
  have "store_row users_schema ?f = Ok (user_to_row (stored_user u))"
    by (rule store_row_user [OF assms(2)]) (simp_all add: arg_of_def)
  moreover have "\<not> unknown_column ?cs" by (simp add: unknown_column_def users_schema_def)
  ultimately show ?thesis
    using row_args_arg_ok [OF assms] by (simp add: exec_stmt_def list_all_iff)
qed

lemma store_create_spec:
  assumes "holds_users d us" "healthy d" "typed_user u" "storable u"
  shows "\<exists>d'. store_create d u = (fst (spec_create us u), d') \<and>
    holds_users d' (snd (spec_create us u)) \<and> healthy d' \<and> collate d' = collate d"
proof -
  obtain d' where d': "healthy d'" "tbl d' = tbl d" "collate d' = collate d"
    and ex: "named_exec d create_q (row_args (from_bus_user u)) =
      (case exec_stmt (SInsert
    [''id'',''name'',''email'',''password_hash'',''roles'',''enabled'',''department'',''created_at'',''updated_at'']
    [''id'',''name'',''email'',''password_hash'',''roles'',''enabled'',''department'',''created_at'',''updated_at''])
         (row_args (from_bus_user u)) (tbl d) of
         Err e \<Rightarrow> (Some e, d') | Ok rs \<Rightarrow> (None, d'\<lparr>tbl := rs\<rparr>))"
    using named_exec_healthy [OF assms(2) named_create] by metis
  have rows: "tbl d @ [user_to_row (stored_user u)] = map user_to_row (us @ [stored_user u])"
    using assms(1) by (simp add: holds_users_def)
  have typed: "list_all typed_user (us @ [stored_user u])"
    using assms users_ok_typed by (simp add: holds_users_def)
  have ok: "users_ok us" using assms(1) by (simp add: holds_users_def)
  then have dist: "distinct (map u_id us)" "distinct (map addr us)" by (simp_all add: users_ok_def)
  have res: "exec_stmt (SInsert
    [''id'',''name'',''email'',''password_hash'',''roles'',''enabled'',''department'',''created_at'',''updated_at'']
    [''id'',''name'',''email'',''password_hash'',''roles'',''enabled'',''department'',''created_at'',''updated_at''])
         (row_args (from_bus_user u)) (tbl d) = check_unique (map user_to_row (us @ [stored_user u]))"
    using exec_create [OF assms(3,4)] rows by simp
  show ?thesis
  proof (cases "u_id u \<in> set (map u_id us) \<or> addr (stored_user u) \<in> set (map addr us)")
    case True
    have "\<exists>m. check_unique (map user_to_row (us @ [stored_user u])) = Err (pg_error ''23505'' m)"
      using True dist unfolding check_unique_users [OF typed] by auto
    then obtain m where "named_exec d create_q (row_args (from_bus_user u)) = (Some (pg_error ''23505'' m), d')"
      using ex res by auto
    then show ?thesis
      using True d' assms(1) by (auto simp: store_create_def spec_create_def holds_users_def)
  next
    case False
    then have "check_unique (map user_to_row (us @ [stored_user u])) = Ok (map user_to_row (us @ [stored_user u]))"
      using dist unfolding check_unique_users [OF typed] by auto
    then have "named_exec d create_q (row_args (from_bus_user u)) =
        (None, d'\<lparr>tbl := map user_to_row (us @ [stored_user u])\<rparr>)"
      using ex res by simp
    then show ?thesis
      using False d' users_ok_append [OF ok assms(3,4)]
      by (auto simp: store_create_def spec_create_def holds_users_def)
  qed
qed

text \<open>The update statement, on the rows of users.\<close>

abbreviation update_sets :: "(string \<times> string) list" where
  "update_sets \<equiv>
    [(''name'',''name''),(''email'',''email''),(''password_hash'',''password_hash''),(''roles'',''roles''),
     (''enabled'',''enabled''),(''department'',''department''),(''updated_at'',''updated_at'')]"

definition update_val :: "user \<Rightarrow> string \<Rightarrow> row \<Rightarrow> sqlval" where
  "update_val u c r = (case map_of update_sets c of
      Some p \<Rightarrow> arg_of (row_args (from_bus_user u)) p | None \<Rightarrow> col r c)"

lemmas stored_created = stored_fix(1)

definition updated_user :: "user \<Rightarrow> user \<Rightarrow> user" where
  "updated_user u v = (stored_user u)\<lparr>u_created_at := u_created_at v\<rparr>"

lemma updated_users_alt:
  "updated_users us u = map (\<lambda>v. if u_id v = u_id u then updated_user u v else v) us"
  by (simp add: updated_users_def updated_user_def)

lemma updated_user_simps [simp]:
  "u_id (updated_user u v) = u_id u" "addr (updated_user u v) = addr (stored_user u)"
  "typed_user (updated_user u v) = typed_user u" "fits (updated_user u v) = fits (stored_user u)"
  by (simp_all add: updated_user_def addr_def typed_user_def fits_def)

lemma updated_user_stored: "stored_user v = v \<Longrightarrow> stored_user (updated_user u v) = updated_user u v"
proof -
  assume "stored_user v = v"
  then have c: "trunc_micro (u_created_at v) = u_created_at v" by (rule stored_created)
  show ?thesis by (simp add: updated_user_def stored_user_def c)
qed

lemma store_row_updated:
  assumes "storable u" "u_id v = u_id u"
  shows "store_row users_schema (\<lambda>c. update_val u c (user_to_row v)) = Ok (user_to_row (updated_user u v))"
proof -
  let ?u = "u\<lparr>u_created_at := trunc_micro (u_created_at v)\<rparr>"
  have "store_row users_schema (\<lambda>c. update_val u c (user_to_row v)) = Ok (user_to_row (stored_user ?u))"
    by (rule store_row_user) (use assms in \<open>simp_all add: update_val_def arg_of_def storable_def addr_def\<close>)
  also have "user_to_row (stored_user ?u) = user_to_row (updated_user u v)"
    by (simp add: user_to_row_def updated_user_def addr_def stored_user_def)
  finally show ?thesis .
qed

lemma update_rows_users:
  assumes "storable u" "\<And>v. v \<in> set us \<Longrightarrow> hit (user_to_row v) \<longleftrightarrow> u_id v = u_id u"
  shows "update_rows (update_val u) hit (map user_to_row us) = Ok (map user_to_row (updated_users us u))"
  using assms
proof (induction us)
  case (Cons v us)
  have "update_rows (update_val u) hit (map user_to_row us) = Ok (map user_to_row (updated_users us u))"
    by (rule Cons.IH) (use Cons.prems in auto)
  then show ?case
    using Cons.prems store_row_updated [of u v] by (simp add: updated_users_alt)
qed (simp add: updated_users_def)

lemma updated_users_typed: "users_ok us \<Longrightarrow> typed_user u \<Longrightarrow> list_all typed_user (updated_users us u)"
  by (auto simp: users_ok_def list_all_iff updated_users_alt)

lemma updated_users_ids: "map u_id (updated_users us u) = map u_id us"
  by (auto simp: updated_users_alt)

lemma users_ok_updated:
  "users_ok us \<Longrightarrow> typed_user u \<Longrightarrow> storable u \<Longrightarrow> distinct (map addr (updated_users us u)) \<Longrightarrow>
     users_ok (updated_users us u)"
  unfolding users_ok_def updated_users_ids
  by (auto simp: list_all_iff updated_users_alt updated_user_stored fits_stored)

lemma exec_stmt_update:
  assumes "\<not> unknown_column (stmt_cols (SUpdate sets conds))" "\<And>p. arg_ok (arg_of args p)"
  shows "exec_stmt (SUpdate sets conds) args rs =
    (case update_rows (\<lambda>c r. case map_of sets c of Some p \<Rightarrow> arg_of args p | None \<Rightarrow> col r c)
        (conds_hold args conds) rs of
       Err e \<Rightarrow> Err e | Ok rs' \<Rightarrow> check_unique rs')"
  using assms by (simp add: exec_stmt_def list_all_iff)

lemma exec_update:
  assumes "typed_user u" "storable u"
  shows "exec_stmt (SUpdate update_sets [Cond ''id'' ''='' ''id'']) (row_args (from_bus_user u)) rs =
    (case update_rows (update_val u) (conds_hold (row_args (from_bus_user u)) [Cond ''id'' ''='' ''id'']) rs of
       Err e \<Rightarrow> Err e | Ok rs' \<Rightarrow> check_unique rs')"
proof -
  have "\<not> unknown_column (stmt_cols (SUpdate update_sets [Cond ''id'' ''='' ''id'']))"
    by (simp add: unknown_column_def users_schema_def)
  note step = exec_stmt_update [OF this row_args_arg_ok [OF assms]]
  have "update_val u = (\<lambda>c r. case map_of update_sets c of
      Some p \<Rightarrow> arg_of (row_args (from_bus_user u)) p | None \<Rightarrow> col r c)"
    by (intro ext) (simp only: update_val_def)
  then show ?thesis by (simp only: step)
qed

lemma store_update_spec:
  assumes "holds_users d us" "healthy d" "typed_user u" "storable u"
  shows "\<exists>d'. store_update d u = (fst (spec_update us u), d') \<and>
    holds_users d' (snd (spec_update us u)) \<and> healthy d' \<and> collate d' = collate d"
proof -
  let ?st = "SUpdate update_sets [Cond ''id'' ''='' ''id'']"
  obtain d' where d': "healthy d'" "tbl d' = tbl d" "collate d' = collate d"
    and ex: "named_exec d update_q (row_args (from_bus_user u)) =
      (case exec_stmt ?st (row_args (from_bus_user u)) (tbl d) of
         Err e \<Rightarrow> (Some e, d') | Ok rs \<Rightarrow> (None, d'\<lparr>tbl := rs\<rparr>))"
    using named_exec_healthy [OF assms(2) named_update] by metis
  have ok: "users_ok us" and t: "tbl d = map user_to_row us"
    using assms(1) by (simp_all add: holds_users_def)
  let ?us = "updated_users us u"
  have "update_rows (update_val u) (conds_hold (row_args (from_bus_user u)) [Cond ''id'' ''='' ''id''])
      (tbl d) = Ok (map user_to_row ?us)"
    unfolding t using ok assms(3)
    by (intro update_rows_users [OF assms(4)] id_cond_user)
      (auto simp: typed_user_def users_ok_def list_all_iff)
  then have res: "exec_stmt ?st (row_args (from_bus_user u)) (tbl d) = check_unique (map user_to_row ?us)"
    by (simp add: exec_update [OF assms(3,4)])
  have typed: "list_all typed_user ?us" by (rule updated_users_typed [OF ok assms(3)])
  have ids: "distinct (map u_id ?us)" using ok by (simp add: updated_users_ids users_ok_def)
  show ?thesis
  proof (cases "distinct (map addr ?us)")
    case True
    then have "named_exec d update_q (row_args (from_bus_user u)) = (None, d'\<lparr>tbl := map user_to_row ?us\<rparr>)"
      using ex res ids by (simp add: check_unique_users [OF typed])
    then show ?thesis
      using True d' users_ok_updated [OF ok assms(3,4) True]
      by (simp add: store_update_def spec_update_def holds_users_def)
  next
    case False
    then have "\<exists>m. named_exec d update_q (row_args (from_bus_user u)) = (Some (pg_error ''23505'' m), d')"
      using ex res ids by (auto simp: check_unique_users [OF typed])
    then show ?thesis
      using False d' ok t by (auto simp: store_update_def spec_update_def holds_users_def)
  qed
qed

lemma store_delete_spec:
  assumes "holds_users d us" "healthy d" "typed_user u" "storable u"
  shows "\<exists>d'. store_delete d u = (fst (spec_delete us u), d') \<and>
    holds_users d' (snd (spec_delete us u)) \<and> healthy d' \<and> collate d' = collate d"
proof -
  let ?c = "[Cond ''id'' ''='' ''id'']"
  let ?args = "row_args (from_bus_user u)"
  obtain d' where d': "healthy d'" "tbl d' = tbl d" "collate d' = collate d"
    and ex: "named_exec d delete_q ?args =
      (case exec_stmt (SDelete ?c) ?args (tbl d) of
         Err e \<Rightarrow> (Some e, d') | Ok rs \<Rightarrow> (None, d'\<lparr>tbl := rs\<rparr>))"
    using named_exec_healthy [OF assms(2) named_delete] by metis
  have ok: "users_ok us" and t: "tbl d = map user_to_row us"
    using assms(1) by (simp_all add: holds_users_def)
  have "filter (\<lambda>r. \<not> conds_hold ?args ?c r) (map user_to_row us) =
      map user_to_row (filter (\<lambda>v. u_id v \<noteq> u_id u) us)"
    using ok assms(3) id_cond_user [of "u_id u" _ ?args]
    by (intro filter_map_rows) (auto simp: typed_user_def users_ok_def list_all_iff)
  moreover have "\<not> unknown_column (stmt_cols (SDelete ?c))"
    by (simp add: unknown_column_def users_schema_def)
  ultimately have "exec_stmt (SDelete ?c) ?args (tbl d) =
      Ok (map user_to_row (filter (\<lambda>v. u_id v \<noteq> u_id u) us))"
    using row_args_arg_ok [OF assms(3,4)] t by (simp add: exec_stmt_def list_all_iff)
  with ex have "named_exec d delete_q ?args =
      (None, d'\<lparr>tbl := map user_to_row (filter (\<lambda>v. u_id v \<noteq> u_id u) us)\<rparr>)" by simp
  then show ?thesis
    using d' users_ok_filter [OF ok] by (simp add: store_delete_def spec_delete_def holds_users_def)
qed

lemma find_filter_hd: "find P xs = (case filter P xs of [] \<Rightarrow> None | x # _ \<Rightarrow> Some x)"
  by (induction xs) auto

lemma first_user_rows:
  assumes "users_ok us"
  shows "first_user (Ok \<lparr>rs_rows = map user_to_row (filter P us), rs_err = None\<rparr>) =
    (case find P us of None \<Rightarrow> Err ErrUserNotFound | Some u \<Rightarrow> Ok u)"
proof (cases "filter P us")
  case Nil
  then show ?thesis by (simp add: first_user_def find_filter_hd)
next
  case (Cons u rest)
  then have "u \<in> set us" by (metis filter_is_subset list.set_intros(1) subsetD)
  then have "typed_user u" "stored_user u = u"
    using assms by (auto simp: users_ok_def list_all_iff)
  then show ?thesis
    using Cons to_user_bus_stored [of u]
    by (simp add: first_user_def find_filter_hd struct_scan_user_to_row)
qed

text \<open>A query for a value of one column, on the rows of users in the order in which they are found.\<close>

lemma select_users:
  assumes "\<And>u. u \<in> set us \<Longrightarrow> conds_hold args [c] (user_to_row u) \<longleftrightarrow> P u" "\<not> unknown_column [cond_col c]"
    and "arg_ok (arg_of args (cond_ph c))"
  shows "query_stmt coll place (SSelect False [c] None None) args (map user_to_row us) =
    Ok (map user_to_row (filter P (sort_key (\<lambda>u. place (user_to_row u)) us)))"
proof -
  have "filter (conds_hold args [c]) (map user_to_row (sort_key (\<lambda>u. place (user_to_row u)) us)) =
      map user_to_row (filter P (sort_key (\<lambda>u. place (user_to_row u)) us))"
    using assms(1) by (intro filter_map_rows) simp
  then show ?thesis
    using assms(2,3) by (simp add: query_stmt_def sort_key_map order_rows_def fetch_rows_def)
qed

lemma store_query_by_id_spec:
  assumes "holds_users d us" "healthy d" "wf_uuid i"
  shows "\<exists>d'. store_query_by_id d i = (spec_by_id us i, d') \<and>
    holds_users d' us \<and> healthy d' \<and> collate d' = collate d"
proof -
  let ?c = "Cond ''id'' ''='' ''id''"
  let ?args = "[''id'' \<mapsto> SvString (uuid_string i)]"
  have st: "named_stmt by_id_q ?args = Ok (SSelect False [?c] None None)"
    by (simp add: named_stmt_def by_id_q_parse)
  let ?place = "scan_order d (queries d)"
  obtain d' where d': "healthy d'" "tbl d' = tbl d" "collate d' = collate d"
    and ex: "named_query d by_id_q ?args =
      (case query_stmt (collate d) ?place (SSelect False [?c] None None) ?args (tbl d) of
         Err e \<Rightarrow> (Err e, d') | Ok rs \<Rightarrow> (Ok \<lparr>rs_rows = rs, rs_err = None\<rparr>, d'))"
    using named_query_healthy [OF assms(2) st] by metis
  have ok: "users_ok us" and t: "tbl d = map user_to_row us"
    using assms(1) by (simp_all add: holds_users_def)
  let ?us = "sort_key (\<lambda>u. ?place (user_to_row u)) us"
  have "query_stmt (collate d) ?place (SSelect False [?c] None None) ?args (tbl d) =
      Ok (map user_to_row (filter (\<lambda>v. u_id v = i) ?us))"
    unfolding t
  proof (rule select_users)
    show "conds_hold ?args [?c] (user_to_row u) \<longleftrightarrow> u_id u = i" if "u \<in> set us" for u
      using ok that by (intro id_cond_user [OF assms(3)]) (auto simp: users_ok_def list_all_iff)
  qed (simp_all add: unknown_column_def users_schema_def arg_of_def)
  moreover have "find (\<lambda>v. u_id v = i) ?us = find (\<lambda>v. u_id v = i) us"
    using ok by (intro find_sort) (simp add: users_ok_def)
  ultimately have "store_query_by_id d i = (spec_by_id us i, span_ended ''user.store.queryByID'' d')"
    using ex first_user_rows [of ?us] ok by (simp add: store_query_by_id_def spec_by_id_def)
  then show ?thesis using d' ok t by (simp add: holds_users_def)
qed

lemma store_query_by_email_spec:
  assumes "holds_users d us" "healthy d" "text_ok (ma_address m)"
  shows "\<exists>d'. store_query_by_email d m = (spec_by_email us m, d') \<and>
    holds_users d' us \<and> healthy d' \<and> collate d' = collate d"
proof -
  let ?c = "Cond ''email'' ''='' ''email''"
  let ?args = "[''email'' \<mapsto> SvString (ma_address m)]"
  have st: "named_stmt by_email_q ?args = Ok (SSelect False [?c] None None)"
    by (simp add: named_stmt_def by_email_q_parse)
  let ?place = "scan_order d (queries d)"
  obtain d' where d': "healthy d'" "tbl d' = tbl d" "collate d' = collate d"
    and ex: "named_query d by_email_q ?args =
      (case query_stmt (collate d) ?place (SSelect False [?c] None None) ?args (tbl d) of
         Err e \<Rightarrow> (Err e, d') | Ok rs \<Rightarrow> (Ok \<lparr>rs_rows = rs, rs_err = None\<rparr>, d'))"
    using named_query_healthy [OF assms(2) st] by metis
  have ok: "users_ok us" and t: "tbl d = map user_to_row us"
    using assms(1) by (simp_all add: holds_users_def)
  let ?us = "sort_key (\<lambda>u. ?place (user_to_row u)) us"
  have "query_stmt (collate d) ?place (SSelect False [?c] None None) ?args (tbl d) =
      Ok (map user_to_row (filter (\<lambda>v. addr v = ma_address m) ?us))"
    unfolding t
  proof (rule select_users)
    show "conds_hold ?args [?c] (user_to_row u) \<longleftrightarrow> addr u = ma_address m" for u
      by (rule email_cond_user) simp
  qed (use assms(3) in \<open>simp_all add: unknown_column_def users_schema_def arg_of_def\<close>)
  moreover have "find (\<lambda>v. addr v = ma_address m) ?us = find (\<lambda>v. addr v = ma_address m) us"
    using ok by (intro find_sort) (simp add: users_ok_def)
  ultimately have "store_query_by_email d m = (spec_by_email us m, span_ended ''user.store.queryByEmail'' d')"
    using ex first_user_rows [of ?us] ok by (simp add: store_query_by_email_def spec_by_email_def)
  then show ?thesis using d' ok t by (simp add: holds_users_def)
qed

section \<open>Listing and counting\<close>

definition user_matches :: "query_filter \<Rightarrow> user \<Rightarrow> bool" where
  "user_matches f u \<longleftrightarrow>
     (case qf_name f of None \<Rightarrow> True | Some n \<Rightarrow> sql_like (''%'' @ n @ ''%'') (u_name u)) \<and>
     (case qf_department f of None \<Rightarrow> True | Some dp \<Rightarrow> dp \<noteq> [] \<and> u_department u = dp) \<and>
     (case qf_roles f of None \<Rightarrow> True | Some rs \<Rightarrow> list_ex (\<lambda>r. r \<in> set rs) (u_roles u)) \<and>
     (case qf_start_created_at f of None \<Rightarrow> True | Some t \<Rightarrow> trunc_micro t \<le> u_created_at u) \<and>
     (case qf_end_created_at f of None \<Rightarrow> True | Some t \<Rightarrow> u_created_at u \<le> trunc_micro t)"

definition user_key :: "(string \<Rightarrow> int list) \<Rightarrow> string \<Rightarrow> user \<Rightarrow> int list" where
  "user_key coll name u =
     (if name = ''name'' then coll (u_name u)
      else if name = ''email'' then coll (addr u)
      else if name = ''createdAt'' then [u_created_at u]
      else if name = ''updatedAt'' then [u_updated_at u]
      else [])"

text \<open>
  What a list may be: the users that match, each once, in the order of their keys. Users with equal keys
  come in any order.
\<close>

definition sorted_by :: "(string \<Rightarrow> int list) \<Rightarrow> order_field \<Rightarrow> user list \<Rightarrow> bool" where
  "sorted_by coll ord vs \<longleftrightarrow>
     (let ks = map (user_key coll (of_name ord)) vs in if of_dir ord = ''desc'' then sorted (rev ks) else sorted ks)"

definition listing ::
  "(string \<Rightarrow> int list) \<Rightarrow> query_filter \<Rightarrow> order_field \<Rightarrow> user list \<Rightarrow> user list \<Rightarrow> bool" where
  "listing coll f ord us vs \<longleftrightarrow> mset vs = mset (filter (user_matches f) us) \<and> sorted_by coll ord vs"

definition page_of :: "page \<Rightarrow> user list \<Rightarrow> user list" where
  "page_of p vs = take (nat (pg_rows p)) (drop (nat ((pg_number p - 1) * pg_rows p)) vs)"

definition spec_count :: "query_filter \<Rightarrow> user list \<Rightarrow> int" where
  "spec_count f us = int (length (filter (user_matches f) us))"

definition filter_ok :: "query_filter \<Rightarrow> bool" where
  "filter_ok f \<longleftrightarrow>
     (case qf_name f of None \<Rightarrow> True | Some n \<Rightarrow> text_ok (''%'' @ n @ ''%'')) \<and>
     (case qf_department f of None \<Rightarrow> True | Some dp \<Rightarrow> text_ok dp) \<and>
     (case qf_roles f of None \<Rightarrow> True | Some rs \<Rightarrow> wf_roles rs)"

lemma array_elems_literal: "wf_roles rs \<Longrightarrow> array_elems (roles_literal rs) = map role_value rs"
proof (cases "rs = []")
  case False
  assume wf: "wf_roles rs"
  let ?j = "join '','' (map role_string rs)"
  have "split_on CHR '','' ?j = map role_string rs"
    using wf False role_value_plain
    by (intro split_on_join) (auto simp: role_string_def wf_roles_def list_all_iff)
  then show ?thesis
    using False join_roles_ends(1) [OF wf False]
    by (simp add: array_elems_def roles_literal_def butlast_append Let_def role_string_def)
qed (simp add: array_elems_def roles_literal_def)

lemma role_value_inj: "role_value r = role_value s \<Longrightarrow> r = (s :: role)"
  by (simp add: role_eq_iff)

lemma roles_overlap:
  "list_ex (\<lambda>e. e \<in> set (map role_value frs)) (map role_value urs) \<longleftrightarrow> list_ex (\<lambda>r. r \<in> set (frs :: role list)) urs"
proof -
  have "inj (role_value :: role \<Rightarrow> string)" by (rule injI) (rule role_value_inj)
  then show ?thesis by (simp add: list_ex_iff inj_image_mem_iff)
qed

lemma trunc_micro_simp [simp]: "t - t mod 1000 = trunc_micro t"
  by (simp add: trunc_micro_def)

lemma filter_data_lookup:
  "filter_data f data ''name'' = (case qf_name f of None \<Rightarrow> data ''name''
     | Some n \<Rightarrow> Some (SvString (''%'' @ n @ ''%'')))"
  "filter_data f data ''department'' = (case qf_department f of None \<Rightarrow> data ''department''
     | Some dp \<Rightarrow> Some (SvString dp))"
  "filter_data f data ''roles'' = (case qf_roles f of None \<Rightarrow> data ''roles''
     | Some rs \<Rightarrow> Some (SvTextArr (map role_value rs)))"
  "filter_data f data ''start_created_at'' = (case qf_start_created_at f of None \<Rightarrow> data ''start_created_at''
     | Some t \<Rightarrow> Some (SvTime t))"
  "filter_data f data ''end_created_at'' = (case qf_end_created_at f of None \<Rightarrow> data ''end_created_at''
     | Some t \<Rightarrow> Some (SvTime t))"
  by (cases "qf_name f"; cases "qf_department f"; cases "qf_roles f";
      cases "qf_start_created_at f"; cases "qf_end_created_at f"; simp add: filter_data_def Let_def)+

lemma filter_data_frame:
  "p \<notin> {''name'', ''department'', ''roles'', ''start_created_at'', ''end_created_at''} \<Longrightarrow>
     filter_data f data p = data p"
  by (cases "qf_name f"; cases "qf_department f"; cases "qf_roles f";
      cases "qf_start_created_at f"; cases "qf_end_created_at f"; simp add: filter_data_def Let_def)

lemma set_if_single: "c \<in> set (if b then [x] else []) \<longleftrightarrow> b \<and> c = x"
  by (cases b) simp_all

lemma list_all_if_single: "list_all P (if b then [x] else []) \<longleftrightarrow> (b \<longrightarrow> P x)"
  by (cases b) simp_all

lemma filter_conds_mem:
  "c \<in> set (filter_conds f) \<longleftrightarrow>
     (qf_name f \<noteq> None \<and> c = Cond ''name'' ''LIKE'' ''name'')
   \<or> (qf_department f \<noteq> None \<and> c = Cond ''department'' ''='' ''department'')
   \<or> (qf_roles f \<noteq> None \<and> c = Cond ''roles'' ''&&'' ''roles'')
   \<or> (qf_start_created_at f \<noteq> None \<and> c = Cond ''created_at'' ''>='' ''start_created_at'')
   \<or> (qf_end_created_at f \<noteq> None \<and> c = Cond ''created_at'' ''<='' ''end_created_at'')"
  unfolding filter_conds_def set_append Un_iff set_if_single ..

lemma conds_hold_filter:
  "conds_hold args (filter_conds f) r \<longleftrightarrow>
     (qf_name f \<noteq> None \<longrightarrow> cond_holds args (Cond ''name'' ''LIKE'' ''name'') r)
   \<and> (qf_department f \<noteq> None \<longrightarrow> cond_holds args (Cond ''department'' ''='' ''department'') r)
   \<and> (qf_roles f \<noteq> None \<longrightarrow> cond_holds args (Cond ''roles'' ''&&'' ''roles'') r)
   \<and> (qf_start_created_at f \<noteq> None \<longrightarrow> cond_holds args (Cond ''created_at'' ''>='' ''start_created_at'') r)
   \<and> (qf_end_created_at f \<noteq> None \<longrightarrow> cond_holds args (Cond ''created_at'' ''<='' ''end_created_at'') r)"
  unfolding conds_hold_def filter_conds_def list_all_append list_all_if_single ..

lemma filter_cond_user:
  assumes "typed_user u" "stored_user u = u"
  shows "qf_name f = Some n \<Longrightarrow>
      cond_holds (filter_data f data) (Cond ''name'' ''LIKE'' ''name'') (user_to_row u) \<longleftrightarrow>
        sql_like (''%'' @ n @ ''%'') (u_name u)"
    and "qf_department f = Some dp \<Longrightarrow>
      cond_holds (filter_data f data) (Cond ''department'' ''='' ''department'') (user_to_row u) \<longleftrightarrow>
        dp \<noteq> [] \<and> u_department u = dp"
    and "qf_roles f = Some rs \<Longrightarrow>
      cond_holds (filter_data f data) (Cond ''roles'' ''&&'' ''roles'') (user_to_row u) \<longleftrightarrow>
        list_ex (\<lambda>r. r \<in> set rs) (u_roles u)"
    and "qf_start_created_at f = Some t \<Longrightarrow>
      cond_holds (filter_data f data) (Cond ''created_at'' ''>='' ''start_created_at'') (user_to_row u) \<longleftrightarrow>
        trunc_micro t \<le> u_created_at u"
    and "qf_end_created_at f = Some t \<Longrightarrow>
      cond_holds (filter_data f data) (Cond ''created_at'' ''<='' ''end_created_at'') (user_to_row u) \<longleftrightarrow>
        u_created_at u \<le> trunc_micro t"
proof -
  have c: "trunc_micro (u_created_at u) = u_created_at u"
    using assms(2) by (rule stored_created)
  have e: "array_elems (roles_literal (u_roles u)) = map role_value (u_roles u)"
    using assms(1) by (simp add: typed_user_def array_elems_literal)
  show "qf_name f = Some n \<Longrightarrow>
      cond_holds (filter_data f data) (Cond ''name'' ''LIKE'' ''name'') (user_to_row u) \<longleftrightarrow>
        sql_like (''%'' @ n @ ''%'') (u_name u)"
    by (simp add: cond_holds_def sql_holds_def filter_data_lookup)
  show "qf_department f = Some dp \<Longrightarrow>
      cond_holds (filter_data f data) (Cond ''department'' ''='' ''department'') (user_to_row u) \<longleftrightarrow>
        dp \<noteq> [] \<and> u_department u = dp"
    by (auto simp: cond_holds_def sql_holds_def filter_data_lookup)
  show "qf_roles f = Some rs \<Longrightarrow>
      cond_holds (filter_data f data) (Cond ''roles'' ''&&'' ''roles'') (user_to_row u) \<longleftrightarrow>
        list_ex (\<lambda>r. r \<in> set rs) (u_roles u)"
    using roles_overlap [of rs "u_roles u"]
    by (simp add: cond_holds_def sql_holds_def filter_data_lookup e)
  show "qf_start_created_at f = Some t \<Longrightarrow>
      cond_holds (filter_data f data) (Cond ''created_at'' ''>='' ''start_created_at'') (user_to_row u) \<longleftrightarrow>
        trunc_micro t \<le> u_created_at u"
    by (simp add: cond_holds_def sql_holds_def filter_data_lookup c)
  show "qf_end_created_at f = Some t \<Longrightarrow>
      cond_holds (filter_data f data) (Cond ''created_at'' ''<='' ''end_created_at'') (user_to_row u) \<longleftrightarrow>
        u_created_at u \<le> trunc_micro t"
    by (simp add: cond_holds_def sql_holds_def filter_data_lookup c)
qed

lemma filter_conds_match:
  assumes "typed_user u" "stored_user u = u"
  shows "conds_hold (filter_data f data) (filter_conds f) (user_to_row u) \<longleftrightarrow> user_matches f u"
  unfolding conds_hold_filter user_matches_def
  by (intro conj_cong; force simp: filter_cond_user [OF assms] split: option.split)

lemma filter_data_bound:
  "p \<in> set (map cond_ph (filter_conds f)) \<Longrightarrow> filter_data f data p \<noteq> None"
  by (auto simp: filter_conds_mem filter_data_lookup)

lemma arg_ok_roles: "wf_roles rs \<Longrightarrow> arg_ok (SvTextArr (map role_value rs))"
  by (auto simp: wf_roles_def list_all_iff intro!: text_ok_ascii ascii_role)

lemma filter_data_arg_ok:
  assumes "filter_ok f" "p \<in> set (map cond_ph (filter_conds f))"
  shows "arg_ok (arg_of (filter_data f data) p)"
  using assms arg_ok_roles
  by (auto simp: filter_conds_mem filter_data_lookup filter_ok_def arg_of_def)

lemma filter_conds_cols: "\<not> unknown_column (map cond_col (filter_conds f))"
  by (auto simp: unknown_column_def filter_conds_mem users_schema_def list_ex_iff)

lemma row_key_user:
  assumes "order_by_field_names n = Some c" "stored_user u = u"
  shows "row_key coll c (user_to_row u) = user_key coll n u"
proof -
  have t: "trunc_micro (u_created_at u) = u_created_at u" "trunc_micro (u_updated_at u) = u_updated_at u"
    using assms(2) by (cases u, auto simp: stored_user_def)+
  consider "n = ''name''" "c = ''name''" | "n = ''email''" "c = ''email''"
    | "n = ''createdAt''" "c = ''created_at''" | "n = ''updatedAt''" "c = ''updated_at''"
    using assms(1) by (simp add: order_by_field_names_def split: if_splits)
  then show ?thesis
    by cases (simp_all add: row_key_def user_key_def t)
qed

lemma insort_key_cong: "(\<And>y. y \<in> insert x (set xs) \<Longrightarrow> f y = g y) \<Longrightarrow> insort_key f x xs = insort_key g x xs"
  by (induction xs) auto

lemma sort_key_cong: "(\<And>y. y \<in> set xs \<Longrightarrow> f y = g y) \<Longrightarrow> sort_key f xs = sort_key g xs"
proof (induction xs)
  case (Cons x xs)
  then have "sort_key f xs = sort_key g xs" by auto
  then show ?case using Cons.prems by (auto intro!: insort_key_cong)
qed simp

text \<open>The list that a query makes of the users in the order in which it finds them.\<close>

definition order_users ::
  "(string \<Rightarrow> int list) \<Rightarrow> order_field \<Rightarrow> user list \<Rightarrow> user list" where
  "order_users coll ord us =
     (if of_dir ord = ''desc'' then rev (sort_key (user_key coll (of_name ord)) (rev us))
      else sort_key (user_key coll (of_name ord)) us)"

definition found_list :: "database \<Rightarrow> query_filter \<Rightarrow> order_field \<Rightarrow> user list \<Rightarrow> user list" where
  "found_list d f ord us =
     order_users (collate d) ord
       (filter (user_matches f) (sort_key (\<lambda>u. scan_order d (queries d) (user_to_row u)) us))"

lemma listing_found: "listing (collate d) f ord us (found_list d f ord us)"
  by (simp add: listing_def found_list_def order_users_def sorted_by_def rev_map)

lemma listing_set: "listing coll f ord us vs \<Longrightarrow> set vs = {u \<in> set us. user_matches f u}"
  unfolding listing_def by (metis set_filter set_mset_mset)

lemma listing_length: "listing coll f ord us vs \<Longrightarrow> int (length vs) = spec_count f us"
  unfolding listing_def spec_count_def by (metis size_mset)

text \<open>Where no two users that match have the same key there is only one list.\<close>

lemma listing_unique:
  assumes "listing coll f ord us vs" "listing coll f ord us ws"
    and "distinct (map (user_key coll (of_name ord)) (filter (user_matches f) us))"
  shows "vs = ws"
proof -
  let ?k = "user_key coll (of_name ord)"
  have m: "mset vs = mset ws" "mset (map ?k vs) = mset (map ?k (filter (user_matches f) us))"
    using assms(1,2) by (simp_all add: listing_def)
  then have d: "distinct (map ?k vs)" using assms(3) by (metis mset_eq_imp_distinct_iff)
  have "mset (map ?k vs) = mset (map ?k ws)" using m(1) by simp
  then have keys: "set (map ?k vs) = set (map ?k ws)" "distinct (map ?k ws)"
    using d by (metis set_mset_mset, metis mset_eq_imp_distinct_iff)
  have "map ?k vs = map ?k ws"
  proof (cases "of_dir ord = ''desc''")
    case True
    then have "sorted (rev (map ?k vs))" "sorted (rev (map ?k ws))"
      using assms(1,2) by (simp_all add: listing_def sorted_by_def Let_def)
    then have "rev (map ?k vs) = rev (map ?k ws)"
      using keys d by (intro sorted_distinct_set_unique) auto
    then show ?thesis by simp
  next
    case False
    then have "sorted (map ?k vs)" "sorted (map ?k ws)"
      using assms(1,2) by (simp_all add: listing_def sorted_by_def Let_def)
    then show ?thesis using keys d by (intro sorted_distinct_set_unique) auto
  qed
  moreover have "inj_on ?k (set vs \<union> set ws)"
    using d m(1) by (metis distinct_map set_mset_mset sup.idem)
  ultimately show ?thesis by (rule map_inj_on)
qed

lemma order_rows_users:
  assumes "order_by_field_names (of_name ord) = Some c" "\<And>u. u \<in> set us \<Longrightarrow> stored_user u = u"
  shows "order_rows coll (Some (c, of_dir ord)) (map user_to_row us) = map user_to_row (order_users coll ord us)"
proof -
  have k: "sort_key (row_key coll c) (map user_to_row vs) =
      map user_to_row (sort_key (user_key coll (of_name ord)) vs)" if "set vs \<subseteq> set us" for vs
    unfolding sort_key_map
    by (rule arg_cong [where f = "map user_to_row"], rule sort_key_cong)
      (use assms that in \<open>auto intro!: row_key_user\<close>)
  show ?thesis
    using k [of us] k [of "rev us"] by (simp add: order_rows_def order_users_def rev_map)
qed

lemma store_query_text:
  "order_by_clause ord = Ok oc \<Longrightarrow>
   store_query d f ord p = ended ''user.store.query''
     (case named_query d (query_text f oc) (filter_data f (page_data p)) of
        (Err err, d') \<Rightarrow> (Err (ErrWrap ''namedQueryContext'' err), d')
      | (Ok rows, d') \<Rightarrow>
          (case scan_rows (rs_rows rows) of
             Err err \<Rightarrow> (Err err, d')
           | Ok usrs \<Rightarrow>
               (case rs_err rows of
                  Some err \<Rightarrow> (Err (ErrWrap ''preparing next row to scan'' err), d')
                | None \<Rightarrow> (Ok (map to_user_bus usrs), d'))))"
  by (simp add: store_query_def query_text_def apply_filters_def Let_def)

lemma stored_map_id:
  "(\<And>u. u \<in> set vs \<Longrightarrow> stored_user u = u) \<Longrightarrow> map to_user_bus (map from_bus_user vs) = vs"
  by (simp only: to_user_bus_stored map_map comp_def map_idI)

lemma named_query_text:
  assumes "wf_order ord" "order_by_field_names (of_name ord) = Some c"
  shows "named_stmt (query_text f ('' ORDER BY '' @ c @ '' '' @ of_dir ord)) (filter_data f (page_data p)) =
    Ok (SSelect False (filter_conds f) (Some (c, of_dir ord)) (Some (''offset'', ''rows_per_page'')))"
proof -
  let ?phs = "stmt_phs (SSelect False (filter_conds f) (Some (c, of_dir ord)) (Some (''offset'', ''rows_per_page'')))"
  have "filter (\<lambda>p'. filter_data f (page_data p) p' = None) ?phs = []"
    using filter_data_bound [of _ f "page_data p"]
    by (auto simp: filter_empty_conv filter_data_frame page_data_def)
  then show ?thesis
    unfolding named_stmt_def query_text_parse [OF assms] by (simp del: stmt_phs.simps)
qed

lemma query_stmt_users:
  assumes "users_ok us" "wf_order ord" "order_by_field_names (of_name ord) = Some c" "filter_ok f"
    and "wf_page p" "pg_rows p \<le> max_safe_rows"
  shows "query_stmt (collate d) (scan_order d (queries d)) (SSelect False (filter_conds f) (Some (c, of_dir ord)) (Some (''offset'', ''rows_per_page'')))
      (filter_data f (page_data p)) (map user_to_row us) =
      Ok (map user_to_row (page_of p (found_list d f ord us)))"
proof -
  let ?st = "SSelect False (filter_conds f) (Some (c, of_dir ord)) (Some (''offset'', ''rows_per_page''))"
  let ?args = "filter_data f (page_data p)"
  let ?place = "scan_order d (queries d)"
  let ?us = "sort_key (\<lambda>u. ?place (user_to_row u)) us"
  have stored: "typed_user u" "stored_user u = u" if "u \<in> set us" for u
    using assms(1) that by (auto simp: users_ok_def list_all_iff)
  have off: "page_offset p = (pg_number p - 1) * pg_rows p" "0 \<le> page_offset p"
    using page_offset_exact [OF assms(5,6)] by auto
  have args: "arg_of ?args ''offset'' = SvInt (page_offset p)" "arg_of ?args ''rows_per_page'' = SvInt (pg_rows p)"
    by (simp_all add: arg_of_def filter_data_frame page_data_def)
  have cols: "\<not> unknown_column (stmt_cols ?st)"
    using filter_conds_cols [of f] tokens_order_clause(2) [OF assms(2,3)]
    by (auto simp: unknown_column_def users_schema_def order_columns_def list_ex_iff)
  have ok: "list_all (\<lambda>p. arg_ok (arg_of ?args p)) (stmt_phs ?st)"
    using filter_data_arg_ok [OF assms(4), of _ "page_data p"] args by (auto simp: list_all_iff)
  have hits: "filter (conds_hold ?args (filter_conds f)) (sort_key ?place (map user_to_row us)) =
      map user_to_row (filter (user_matches f) ?us)"
    unfolding sort_key_map by (intro filter_map_rows filter_conds_match) (simp_all add: stored)
  have ord: "order_rows (collate d) (Some (c, of_dir ord)) (map user_to_row (filter (user_matches f) ?us)) =
      map user_to_row (found_list d f ord us)"
    unfolding found_list_def by (rule order_rows_users [OF assms(3)]) (simp add: stored)
  have "query_stmt (collate d) ?place ?st ?args (map user_to_row us) =
      fetch_rows ?args (Some (''offset'', ''rows_per_page'')) (map user_to_row (found_list d f ord us))"
    using cols ok by (simp add: query_stmt_def hits ord del: stmt_cols.simps stmt_phs.simps)
  then show ?thesis
    using off assms(5) by (simp add: fetch_rows_def args page_of_def wf_page_def take_map drop_map)
qed

lemma store_query_found:
  assumes "holds_users d us" "healthy d" "wf_order ord" "wf_page p" "pg_rows p \<le> max_safe_rows" "filter_ok f"
  shows "\<exists>d'. store_query d f ord p = (Ok (page_of p (found_list d f ord us)), d') \<and>
    holds_users d' us \<and> healthy d' \<and> collate d' = collate d \<and> scan_order d' = scan_order d \<and>
    queries d' = Suc (queries d)"
proof -
  obtain c where c: "order_by_field_names (of_name ord) = Some c"
    and "order_by_clause ord = Ok ('' ORDER BY '' @ c @ '' '' @ of_dir ord)"
    using order_by_clause_wf [OF assms(3)] by metis
  then obtain oc where oc: "order_by_clause ord = Ok oc" and oct: "'' ORDER BY '' @ c @ '' '' @ of_dir ord = oc"
    by (metis (no_types))
  obtain d' where d': "healthy d'" "tbl d' = tbl d" "collate d' = collate d" "scan_order d' = scan_order d"
    "queries d' = Suc (queries d)"
    and ex: "named_query d (query_text f oc) (filter_data f (page_data p)) =
      (case query_stmt (collate d) (scan_order d (queries d))
          (SSelect False (filter_conds f) (Some (c, of_dir ord)) (Some (''offset'', ''rows_per_page'')))
          (filter_data f (page_data p)) (tbl d) of
         Err e \<Rightarrow> (Err e, d') | Ok rs \<Rightarrow> (Ok \<lparr>rs_rows = rs, rs_err = None\<rparr>, d'))"
    using named_query_healthy [OF assms(2) named_query_text [OF assms(3) c, unfolded oct]] by metis
  have ok: "users_ok us" and t: "tbl d = map user_to_row us"
    using assms(1) by (simp_all add: holds_users_def)
  let ?vs = "page_of p (found_list d f ord us)"
  have vs: "u \<in> set ?vs \<Longrightarrow> u \<in> set us" for u
    using listing_set [OF listing_found [of d f ord us]] by (auto simp: page_of_def dest!: in_set_takeD in_set_dropD)
  have "store_query d f ord p = (Ok (map to_user_bus (map from_bus_user ?vs)),
      span_ended ''user.store.query'' d')"
  proof -
    have "list_all (\<lambda>u. typed_user u \<and> stored_user u = u) ?vs"
      using vs ok by (auto simp: list_all_iff users_ok_def)
    then show ?thesis
      by (simp add: store_query_text [OF oc] ex t query_stmt_users [OF ok assms(3) c assms(6,4,5)]
          scan_rows_user_to_row del: map_map)
  qed
  also have "map to_user_bus (map from_bus_user ?vs) = ?vs"
    using vs users_ok_stored [OF ok] by (intro stored_map_id) auto
  finally show ?thesis using d' ok t by (simp add: holds_users_def)
qed

lemma store_query_spec:
  assumes "holds_users d us" "healthy d" "wf_order ord" "wf_page p" "pg_rows p \<le> max_safe_rows" "filter_ok f"
  shows "\<exists>d' vs. listing (collate d) f ord us vs \<and> store_query d f ord p = (Ok (page_of p vs), d') \<and>
    holds_users d' us \<and> healthy d' \<and> collate d' = collate d"
  using store_query_found [OF assms] listing_found by blast

lemma store_count_spec:
  assumes "holds_users d us" "healthy d" "filter_ok f"
  shows "\<exists>d'. store_count d f = (Ok (spec_count f us), d') \<and>
    holds_users d' us \<and> healthy d' \<and> collate d' = collate d"
proof -
  let ?st = "SSelect True (filter_conds f) None None"
  let ?args = "filter_data f Map.empty"
  let ?place = "scan_order d (queries d)"
  let ?q = "snd (apply_filters f Map.empty count_q)"
  have "filter (\<lambda>p'. ?args p' = None) (stmt_phs ?st) = []"
    using filter_data_bound [of _ f Map.empty] by (auto simp: filter_empty_conv)
  then have st: "named_stmt ?q ?args = Ok ?st"
    by (simp add: named_stmt_def count_text_parse del: stmt_phs.simps)
  obtain d' where d': "healthy d'" "tbl d' = tbl d" "collate d' = collate d"
    and ex: "named_query d ?q ?args =
      (case query_stmt (collate d) ?place ?st ?args (tbl d) of
         Err e \<Rightarrow> (Err e, d') | Ok rs \<Rightarrow> (Ok \<lparr>rs_rows = rs, rs_err = None\<rparr>, d'))"
    using named_query_healthy [OF assms(2) st] by metis
  have ok: "users_ok us" and t: "tbl d = map user_to_row us"
    using assms(1) by (simp_all add: holds_users_def)
  have "list_all (\<lambda>p. arg_ok (arg_of ?args p)) (stmt_phs ?st)"
    using filter_data_arg_ok [OF assms(3), of _ Map.empty] by (auto simp: list_all_iff)
  moreover have "filter (conds_hold ?args (filter_conds f)) (sort_key ?place (map user_to_row us)) =
      map user_to_row (filter (user_matches f) (sort_key (\<lambda>u. ?place (user_to_row u)) us))"
    unfolding sort_key_map using ok by (intro filter_map_rows filter_conds_match) (auto simp: users_ok_def list_all_iff)
  then have "length (filter (conds_hold ?args (filter_conds f)) (sort_key ?place (tbl d))) =
      length (filter (user_matches f) (sort_key (\<lambda>u. ?place (user_to_row u)) us))"
    unfolding t by (metis length_map)
  then have "int (length (filter (conds_hold ?args (filter_conds f)) (sort_key ?place (tbl d)))) = spec_count f us"
    unfolding spec_count_def by (metis mset_filter mset_sort size_mset)
  ultimately have "query_stmt (collate d) ?place ?st ?args (tbl d) = Ok [[(''count'', SvInt (spec_count f us))]]"
    using filter_conds_cols [of f] by (simp add: query_stmt_def Let_def)
  then have "store_count d f = (Ok (spec_count f us), span_ended ''user.store.count'' d')"
    using ex by (simp add: store_count_def apply_filters_def Let_def col_def)
  then show ?thesis using d' ok t by (simp add: holds_users_def)
qed

end
