(* ===== verification/StoreContract.thy ===== *)
theory StoreContract
  imports StoreSpec
begin

text \<open>
  The interface \<^verbatim>\<open>store\<close> of \<^verbatim>\<open>internal/domains/user/bus/bus.go\<close> as a record of operations, the
  contract that the bus relies on as the locale \<open>user_store\<close>, and the proof that
  \<^verbatim>\<open>userdb.Store\<close> on PostgreSQL meets it, whatever faults its connection has.
\<close>

record 's store_api =
  sa_create :: "'s \<Rightarrow> user \<Rightarrow> go_err option \<times> 's"
  sa_update :: "'s \<Rightarrow> user \<Rightarrow> go_err option \<times> 's"
  sa_delete :: "'s \<Rightarrow> user \<Rightarrow> go_err option \<times> 's"
  sa_query_by_id :: "'s \<Rightarrow> uuid \<Rightarrow> user res \<times> 's"
  sa_query_by_email :: "'s \<Rightarrow> mail_address \<Rightarrow> user res \<times> 's"
  sa_query :: "'s \<Rightarrow> query_filter \<Rightarrow> order_field \<Rightarrow> page \<Rightarrow> user list res \<times> 's"
  sa_count :: "'s \<Rightarrow> query_filter \<Rightarrow> int res \<times> 's"

definition userdb_store :: "database store_api" where
  "userdb_store =
     \<lparr>sa_create = store_create, sa_update = store_update, sa_delete = store_delete,
      sa_query_by_id = store_query_by_id, sa_query_by_email = store_query_by_email,
      sa_query = store_query, sa_count = store_count\<rparr>"

lemma userdb_store_simps [simp]:
  "sa_create userdb_store = store_create" "sa_update userdb_store = store_update"
  "sa_delete userdb_store = store_delete" "sa_query_by_id userdb_store = store_query_by_id"
  "sa_query_by_email userdb_store = store_query_by_email" "sa_query userdb_store = store_query"
  "sa_count userdb_store = store_count"
  by (simp_all add: userdb_store_def)

section \<open>The contract\<close>

text \<open>
  \<open>kept_store\<close> is what is left of the contract when others work on the store too: no operation breaks what
  is \<open>good\<close> of it, and a user that is read is well formed. In \<open>user_store\<close> the store is the caller's alone.
  \<open>rep s us\<close>: the store \<open>s\<close> holds the users \<open>us\<close>; \<open>up s\<close>: its connection works. When it is up, the
  operations behave as their specification; when it is not, a write that reports success has been
  done, and one that reports an error has been done completely or not at all.
\<close>

definition write_outcome ::
  "('s \<Rightarrow> user list \<Rightarrow> bool) \<Rightarrow> user list \<Rightarrow> go_err option \<times> user list \<Rightarrow> go_err option \<times> 's \<Rightarrow> bool" where
  "write_outcome rep us spec out \<longleftrightarrow>
     (case out of
        (None, s') \<Rightarrow> fst spec = None \<and> rep s' (snd spec)
      | (Some e, s') \<Rightarrow> rep s' us \<or> rep s' (snd spec))"

locale kept_store =
  fixes api :: "'s store_api"
    and good :: "'s \<Rightarrow> bool"
  assumes create_good: "good s \<Longrightarrow> typed_user u \<Longrightarrow> good (snd (sa_create api s u))"
    and update_good: "good s \<Longrightarrow> typed_user u \<Longrightarrow> good (snd (sa_update api s u))"
    and delete_good: "good s \<Longrightarrow> typed_user u \<Longrightarrow> good (snd (sa_delete api s u))"
    and by_id_good: "good s \<Longrightarrow> good (snd (sa_query_by_id api s i))"
    and by_id_typed: "good s \<Longrightarrow> wf_uuid i \<Longrightarrow> fst (sa_query_by_id api s i) = Ok u \<Longrightarrow> typed_user u"
    and by_email_good: "good s \<Longrightarrow> good (snd (sa_query_by_email api s m))"
    and by_email_typed: "good s \<Longrightarrow> fst (sa_query_by_email api s m) = Ok u \<Longrightarrow> typed_user u"
    and query_good: "good s \<Longrightarrow> good (snd (sa_query api s f ord p))"
    and count_good: "good s \<Longrightarrow> good (snd (sa_count api s f))"

locale user_store =
  fixes api :: "'s store_api"
    and rep :: "'s \<Rightarrow> user list \<Rightarrow> bool"
    and up :: "'s \<Rightarrow> bool"
    and coll :: "'s \<Rightarrow> string \<Rightarrow> int list"
  assumes rep_ok: "rep s us \<Longrightarrow> users_ok us"
    and create_up: "rep s us \<Longrightarrow> up s \<Longrightarrow> typed_user u \<Longrightarrow> fits u \<Longrightarrow>
      \<exists>s'. sa_create api s u = (fst (spec_create us u), s') \<and> rep s' (snd (spec_create us u))
        \<and> up s' \<and> coll s' = coll s"
    and update_up: "rep s us \<Longrightarrow> up s \<Longrightarrow> typed_user u \<Longrightarrow> fits u \<Longrightarrow>
      \<exists>s'. sa_update api s u = (fst (spec_update us u), s') \<and> rep s' (snd (spec_update us u))
        \<and> up s' \<and> coll s' = coll s"
    and delete_up: "rep s us \<Longrightarrow> up s \<Longrightarrow> typed_user u \<Longrightarrow> fits u \<Longrightarrow>
      \<exists>s'. sa_delete api s u = (fst (spec_delete us u), s') \<and> rep s' (snd (spec_delete us u))
        \<and> up s' \<and> coll s' = coll s"
    and by_id_up: "rep s us \<Longrightarrow> up s \<Longrightarrow> wf_uuid i \<Longrightarrow>
      \<exists>s'. sa_query_by_id api s i = (spec_by_id us i, s') \<and> rep s' us \<and> up s' \<and> coll s' = coll s"
    and by_email_up: "rep s us \<Longrightarrow> up s \<Longrightarrow> text_ok (ma_address m) \<Longrightarrow>
      \<exists>s'. sa_query_by_email api s m = (spec_by_email us m, s') \<and> rep s' us \<and> up s' \<and> coll s' = coll s"
    and query_up: "rep s us \<Longrightarrow> up s \<Longrightarrow> wf_order ord \<Longrightarrow> wf_page p \<Longrightarrow> pg_rows p \<le> max_safe_rows \<Longrightarrow>
      filter_ok f \<Longrightarrow>
      \<exists>s' vs. listing (coll s) f ord us vs \<and> sa_query api s f ord p = (Ok (page_of p vs), s') \<and> rep s' us
        \<and> up s' \<and> coll s' = coll s"
    and count_up: "rep s us \<Longrightarrow> up s \<Longrightarrow> filter_ok f \<Longrightarrow>
      \<exists>s'. sa_count api s f = (Ok (spec_count f us), s') \<and> rep s' us \<and> up s' \<and> coll s' = coll s"
    and create_any: "rep s us \<Longrightarrow> typed_user u \<Longrightarrow>
      write_outcome rep us (spec_create us u) (sa_create api s u)"
    and update_any: "rep s us \<Longrightarrow> typed_user u \<Longrightarrow>
      write_outcome rep us (spec_update us u) (sa_update api s u)"
    and delete_any: "rep s us \<Longrightarrow> typed_user u \<Longrightarrow>
      write_outcome rep us (spec_delete us u) (sa_delete api s u)"
    and by_id_any: "rep s us \<Longrightarrow> sa_query_by_id api s i = (r, s') \<Longrightarrow>
      rep s' us \<and> (\<forall>u. wf_uuid i \<longrightarrow> r = Ok u \<longrightarrow> u \<in> set us \<and> u_id u = i)"
    and by_email_any: "rep s us \<Longrightarrow> sa_query_by_email api s m = (r, s') \<Longrightarrow>
      rep s' us \<and> (\<forall>u. r = Ok u \<longrightarrow> u \<in> set us \<and> addr u = ma_address m)"
    and query_any: "rep s us \<Longrightarrow> rep (snd (sa_query api s f ord p)) us"
    and count_any: "rep s us \<Longrightarrow> rep (snd (sa_count api s f)) us"
begin

lemma create_keeps: "rep s us \<Longrightarrow> typed_user u \<Longrightarrow> \<exists>us'. rep (snd (sa_create api s u)) us'"
  using create_any [of s us u]
  by (cases "sa_create api s u"; cases "fst (sa_create api s u)") (auto simp: write_outcome_def)

lemma update_keeps: "rep s us \<Longrightarrow> typed_user u \<Longrightarrow> \<exists>us'. rep (snd (sa_update api s u)) us'"
  using update_any [of s us u]
  by (cases "sa_update api s u"; cases "fst (sa_update api s u)") (auto simp: write_outcome_def)

lemma delete_keeps: "rep s us \<Longrightarrow> typed_user u \<Longrightarrow> \<exists>us'. rep (snd (sa_delete api s u)) us'"
  using delete_any [of s us u]
  by (cases "sa_delete api s u"; cases "fst (sa_delete api s u)") (auto simp: write_outcome_def)

end

sublocale user_store \<subseteq> kept: kept_store api "\<lambda>s. \<exists>us. rep s us"
proof (unfold_locales, goal_cases)
  case (4 s i)
  then show ?case using by_id_any by (metis prod.collapse)
next
  case (5 s i u)
  then obtain us where "rep s us" "u \<in> set us" using by_id_any by (metis prod.collapse)
  then show ?case using rep_ok by (fastforce simp: users_ok_def list_all_iff)
next
  case (6 s m)
  then show ?case using by_email_any by (metis prod.collapse)
next
  case (7 s m u)
  then obtain us where "rep s us" "u \<in> set us" using by_email_any by (metis prod.collapse)
  then show ?case using rep_ok by (fastforce simp: users_ok_def list_all_iff)
qed (use create_keeps update_keeps delete_keeps query_any count_any in blast)+

section \<open>Writes on a faulty connection\<close>

text \<open>A user that the columns do not take is refused by the server, with an error of its own.\<close>

lemma store_row_overflow:
  assumes "\<not> (blank_beyond 200 (u_name u) \<and> blank_beyond 300 (addr u) \<and> blank_beyond 100 (u_department u))"
    and "f ''id'' = SvString (uuid_string (u_id u))" "f ''name'' = SvString (u_name u)"
    and "f ''email'' = SvString (addr u)" "f ''roles'' = SvString (roles_literal (u_roles u))"
    and "f ''password_hash'' = SvBytes (u_password_hash u)"
    and "f ''enabled'' = SvBool (u_enabled u)"
    and "f ''department'' = (if u_department u = [] then SvNull else SvString (u_department u))"
  shows "\<exists>m. store_row users_schema f = Err (pg_error ''22001'' m)"
  using assms
  by (auto simp: users_schema_def store_col_def split: if_splits sum.splits)

lemma arg_not_ok:
  assumes "\<not> (text_ok (u_name u) \<and> text_ok (addr u) \<and> text_ok (u_department u) \<and> text_ok (u_password_hash u))"
  shows "\<exists>p \<in> {''name'', ''email'', ''department'', ''password_hash''}.
    \<not> arg_ok (arg_of (row_args (from_bus_user u)) p)"
  using assms by (auto simp: arg_of_def)

text \<open>What the server makes of the two writes that carry a whole user, in every case.\<close>

lemma exec_create_any:
  assumes "typed_user u" "\<not> storable u"
  shows "\<exists>e. exec_stmt (SInsert
    [''id'',''name'',''email'',''password_hash'',''roles'',''enabled'',''department'',''created_at'',''updated_at'']
    [''id'',''name'',''email'',''password_hash'',''roles'',''enabled'',''department'',''created_at'',''updated_at''])
    (row_args (from_bus_user u)) rs = Err e"
proof -
  let ?cs = "[''id'',''name'',''email'',''password_hash'',''roles'',''enabled'',''department'',''created_at'',''updated_at'']"
  let ?f = "\<lambda>c. case map_of (zip ?cs ?cs) c of
      Some p \<Rightarrow> arg_of (row_args (from_bus_user u)) p | None \<Rightarrow> SvNull"
  show ?thesis
  proof (cases "blank_beyond 200 (u_name u) \<and> blank_beyond 300 (addr u) \<and> blank_beyond 100 (u_department u)")
    case True
    then have "\<exists>p \<in> {''name'', ''email'', ''department'', ''password_hash''}.
        \<not> arg_ok (arg_of (row_args (from_bus_user u)) p)"
      using assms(2) arg_not_ok [of u] by (auto simp: storable_def)
    then have "\<not> list_all (\<lambda>p. arg_ok (arg_of (row_args (from_bus_user u)) p)) ?cs" by auto
    then show ?thesis unfolding exec_stmt_def stmt_phs.simps by simp
  next
    case False
    have "\<exists>m. store_row users_schema ?f = Err (pg_error ''22001'' m)"
      by (rule store_row_overflow [OF False]) (simp_all add: arg_of_def)
    then show ?thesis unfolding exec_stmt_def by auto
  qed
qed

lemma update_rows_error:
  assumes "\<And>r. hit r \<Longrightarrow> r \<in> set rs \<Longrightarrow> \<exists>e. store_row users_schema (\<lambda>c. f c r) = Err e"
  shows "update_rows f hit rs = (if \<exists>r \<in> set rs. hit r then update_rows f hit rs else Ok rs)"
    and "\<exists>r \<in> set rs. hit r \<Longrightarrow> \<exists>e. update_rows f hit rs = Err e"
proof -
  show "update_rows f hit rs = (if \<exists>r \<in> set rs. hit r then update_rows f hit rs else Ok rs)"
    by (induction rs) auto
  show "\<exists>r \<in> set rs. hit r \<Longrightarrow> \<exists>e. update_rows f hit rs = Err e"
    using assms
  proof (induction rs)
    case (Cons r rs)
    show ?case
    proof (cases "hit r")
      case True
      then show ?thesis using Cons.prems(2) [of r] by auto
    next
      case False
      then show ?thesis using Cons by auto
    qed
  qed simp
qed

lemma updated_users_none: "u_id u \<notin> set (map u_id us) \<Longrightarrow> updated_users us u = us"
  unfolding updated_users_def by (rule map_idI) (metis imageI list.set_map)

lemma exec_update_any:
  assumes "typed_user u" "\<not> storable u" "users_ok us"
  shows "exec_stmt (SUpdate update_sets [Cond ''id'' ''='' ''id'']) (row_args (from_bus_user u)) (map user_to_row us)
      = Ok (map user_to_row us) \<and> updated_users us u = us
    \<or> (\<exists>e. exec_stmt (SUpdate update_sets [Cond ''id'' ''='' ''id'']) (row_args (from_bus_user u))
        (map user_to_row us) = Err e)"
proof -
  let ?a = "row_args (from_bus_user u)"
  let ?hit = "conds_hold ?a [Cond ''id'' ''='' ''id'']"
  let ?st = "SUpdate update_sets [Cond ''id'' ''='' ''id'']"
  have cols: "\<not> unknown_column (stmt_cols ?st)"
    by (simp add: unknown_column_def users_schema_def)
  show ?thesis
  proof (cases "list_all (\<lambda>p. arg_ok (arg_of ?a p)) (stmt_phs ?st)")
    case False
    then show ?thesis using cols unfolding exec_stmt_def by auto
  next
    case True
    then have "text_ok (u_name u) \<and> text_ok (addr u) \<and> text_ok (u_department u) \<and> text_ok (u_password_hash u)"
      using arg_not_ok [of u] by auto
    then have over: "\<not> (blank_beyond 200 (u_name u) \<and> blank_beyond 300 (addr u) \<and> blank_beyond 100 (u_department u))"
      using assms(2) by (auto simp: storable_def)
    have ex: "exec_stmt ?st ?a (map user_to_row us) =
        (case update_rows (update_val u) ?hit (map user_to_row us) of Err e \<Rightarrow> Err e | Ok rs' \<Rightarrow> check_unique rs')"
    proof -
      have "update_val u = (\<lambda>c r. case map_of update_sets c of Some p \<Rightarrow> arg_of ?a p | None \<Rightarrow> col r c)"
        by (intro ext) (simp only: update_val_def)
      then show ?thesis using cols True unfolding exec_stmt_def by (simp only: if_False sql_stmt.case simp_thms)
    qed
    have hit: "v \<in> set us \<Longrightarrow> ?hit (user_to_row v) \<longleftrightarrow> u_id v = u_id u" for v
      using assms(1,3) by (intro id_cond_user) (auto simp: typed_user_def users_ok_def list_all_iff)
    show ?thesis
    proof (cases "u_id u \<in> set (map u_id us)")
      case False
      then have "update_rows (update_val u) ?hit (map user_to_row us) = Ok (map user_to_row us)"
        using hit by (induction us) auto
      moreover have "check_unique (map user_to_row us) = Ok (map user_to_row us)"
        using assms(3) check_unique_users [OF users_ok_typed [OF assms(3)]] by (simp add: users_ok_def)
      ultimately show ?thesis using ex updated_users_none [OF False] by simp
    next
      case True
      have "\<exists>e. update_rows (update_val u) ?hit (map user_to_row us) = Err e"
      proof (rule update_rows_error(2))
        show "\<exists>r \<in> set (map user_to_row us). ?hit r" using True hit by auto
      next
        fix r assume h: "?hit r" and "r \<in> set (map user_to_row us)"
        then obtain v where v: "v \<in> set us" "r = user_to_row v" by auto
        with h hit have "u_id v = u_id u" by simp
        then have "\<exists>m. store_row users_schema (\<lambda>c. update_val u c r) = Err (pg_error ''22001'' m)"
          by (intro store_row_overflow [OF over]) (simp_all add: update_val_def arg_of_def v)
        then show "\<exists>e. store_row users_schema (\<lambda>c. update_val u c r) = Err e" by auto
      qed
      then show ?thesis using ex by auto
    qed
  qed
qed

lemma image_if:
  "a \<notin> f ` A \<Longrightarrow> a \<in> (\<lambda>w. if P w then b else f w) ` A \<longleftrightarrow> (\<exists>w \<in> A. P w) \<and> b = a"
  by (auto split: if_splits)

text \<open>When an update makes two users share an address.\<close>

lemma updated_users_distinct:
  assumes "users_ok us"
  shows "distinct (map addr (updated_users us u)) \<longleftrightarrow>
    \<not> (u_id u \<in> u_id ` set us \<and> (\<exists>v \<in> set us. u_id v \<noteq> u_id u \<and> addr v = addr (stored_user u)))"
proof -
  have "distinct (map u_id us) \<Longrightarrow> distinct (map addr us) \<Longrightarrow> ?thesis"
  proof (induction us)
    case (Cons v us)
    have other: "u_id u \<notin> u_id ` set us \<Longrightarrow> updated_users us u = us"
      using updated_users_none by simp
    show ?case
    proof (cases "u_id v = u_id u")
      case True
      then have new: "u_id u \<notin> u_id ` set us" using Cons.prems by auto
      have "updated_users (v # us) u = updated_user u v # us"
        using True other [OF new] by (simp add: updated_users_alt)
      moreover have "addr (stored_user u) \<in> addr ` set us \<longleftrightarrow> (\<exists>w \<in> set us. u_id w \<noteq> u_id u \<and> addr w = addr (stored_user u))"
        using new by (metis (no_types, opaque_lifting) imageE imageI)
      ultimately show ?thesis using True Cons.prems by auto
    next
      case False
      have "addr v \<in> addr ` set (updated_users us u) \<longleftrightarrow> u_id u \<in> u_id ` set us \<and> addr v = addr (stored_user u)"
      proof -
        have img: "addr ` set (updated_users us u) = (\<lambda>w. if u_id w = u_id u then addr (stored_user u) else addr w) ` set us"
          unfolding updated_users_alt set_map image_image by (rule image_cong) auto
        have nin: "addr v \<notin> addr ` set us" using Cons.prems by simp
        have ids: "(\<exists>w \<in> set us. u_id w = u_id u) \<longleftrightarrow> u_id u \<in> u_id ` set us" by (auto intro: rev_image_eqI)
        show ?thesis
          unfolding img image_if [OF nin] using ids by (simp only: eq_commute)
      qed
      moreover have "distinct (map addr (updated_users us u)) \<longleftrightarrow>
          \<not> (u_id u \<in> u_id ` set us \<and> (\<exists>w \<in> set us. u_id w \<noteq> u_id u \<and> addr w = addr (stored_user u)))"
        using Cons.IH Cons.prems by simp
      moreover have "distinct (map addr (updated_users (v # us) u)) \<longleftrightarrow>
          addr v \<notin> addr ` set (updated_users us u) \<and> distinct (map addr (updated_users us u))"
      proof -
        have "updated_users (v # us) u = v # updated_users us u"
          using False by (simp add: updated_users_alt)
        then show ?thesis by simp
      qed
      moreover have "u_id u \<in> u_id ` set (v # us) \<longleftrightarrow> u_id u \<in> u_id ` set us"
        using False by auto
      moreover have "(\<exists>w \<in> set (v # us). u_id w \<noteq> u_id u \<and> addr w = addr (stored_user u)) \<longleftrightarrow>
          addr v = addr (stored_user u) \<or> (\<exists>w \<in> set us. u_id w \<noteq> u_id u \<and> addr w = addr (stored_user u))"
        using False by simp
      ultimately show ?thesis by blast
    qed
  qed (simp add: updated_users_def)
  then show ?thesis using assms by (simp add: users_ok_def)
qed

lemma named_exec_any:
  assumes "named_stmt q args = Ok st" "named_exec d q args = (r, d')"
  shows "case exec_stmt st args (tbl d) of
      Err e \<Rightarrow> r \<noteq> None \<and> tbl d' = tbl d
    | Ok rs \<Rightarrow> (r = None \<and> tbl d' = rs) \<or> (r \<noteq> None \<and> (tbl d' = tbl d \<or> tbl d' = rs))"
  using assms
  by (cases "faults d"; cases "hd (faults d)")
    (auto simp: named_exec_def next_fault_def split: sum.splits fault.splits)

lemma named_query_any:
  assumes "named_query d q args = (r, d')"
  shows "tbl d' = tbl d"
  using assms
  by (cases "faults d"; cases "hd (faults d)")
    (auto simp: named_query_def next_fault_def Let_def split: sum.splits fault.splits if_splits)

lemma write_outcome_exec:
  assumes "holds_users d us" "named_stmt q args = Ok st" "named_exec d q args = (r, d')"
    and "case exec_stmt st args (tbl d) of Err e \<Rightarrow> True
         | Ok rs \<Rightarrow> rs = map user_to_row (snd spec) \<and> users_ok (snd spec) \<and> fst spec = None"
  shows "write_outcome holds_users us spec (map_option f r, d')"
  using named_exec_any [OF assms(2,3)] assms(1,4)
  by (cases r; cases "exec_stmt st args (tbl d)") (auto simp: write_outcome_def holds_users_def)

lemma write_outcome_ended [simp]:
  "write_outcome holds_users us spec (r, span_ended n d) \<longleftrightarrow> write_outcome holds_users us spec (r, d)"
  by (cases r) (simp_all add: write_outcome_def)

lemma store_create_map:
  "store_create d u = ended ''user.store.create''
     (map_prod (map_option exec_error) id (named_exec d create_q (row_args (from_bus_user u))))"
  by (simp add: store_create_def split: prod.split option.split)

lemma store_update_map:
  "store_update d u = ended ''user.store.update''
     (map_prod (map_option exec_error) id (named_exec d update_q (row_args (from_bus_user u))))"
  by (simp add: store_update_def split: prod.split option.split)

lemma store_delete_map:
  "store_delete d u = ended ''user.store.delete''
     (map_prod (map_option (ErrWrap ''namedExecContext'')) id (named_exec d delete_q (row_args (from_bus_user u))))"
  by (simp add: store_delete_def split: prod.split option.split)

lemma store_create_any:
  assumes "holds_users d us" "typed_user u"
  shows "write_outcome holds_users us (spec_create us u) (store_create d u)"
proof -
  let ?a = "row_args (from_bus_user u)"
  obtain r d' where e: "named_exec d create_q ?a = (r, d')" by fastforce
  have ok: "users_ok us" and t: "tbl d = map user_to_row us"
    using assms(1) by (simp_all add: holds_users_def)
  have typed: "list_all typed_user (us @ [stored_user u])"
    using users_ok_typed [OF ok] assms(2) by simp
  have "write_outcome holds_users us (spec_create us u) (map_option exec_error r, d')"
  proof (rule write_outcome_exec [OF assms(1) named_create e], cases "storable u")
    case False
    show "case exec_stmt (SInsert
    [''id'',''name'',''email'',''password_hash'',''roles'',''enabled'',''department'',''created_at'',''updated_at'']
    [''id'',''name'',''email'',''password_hash'',''roles'',''enabled'',''department'',''created_at'',''updated_at'']) ?a (tbl d) of Err e \<Rightarrow> True
         | Ok rs \<Rightarrow> rs = map user_to_row (snd (spec_create us u)) \<and> users_ok (snd (spec_create us u)) \<and> fst (spec_create us u) = None"
      using exec_create_any [OF assms(2) False, of "tbl d"] by auto
  next
    case True
    have rows: "tbl d @ [user_to_row (stored_user u)] = map user_to_row (us @ [stored_user u])" by (simp add: t)
    have "users_ok (us @ [stored_user u])" if "u_id u \<notin> set (map u_id us)" "addr (stored_user u) \<notin> set (map addr us)"
      using users_ok_append [OF ok assms(2) True that] .
    then show "case exec_stmt (SInsert
    [''id'',''name'',''email'',''password_hash'',''roles'',''enabled'',''department'',''created_at'',''updated_at'']
    [''id'',''name'',''email'',''password_hash'',''roles'',''enabled'',''department'',''created_at'',''updated_at'']) ?a (tbl d) of Err e \<Rightarrow> True
         | Ok rs \<Rightarrow> rs = map user_to_row (snd (spec_create us u)) \<and> users_ok (snd (spec_create us u)) \<and> fst (spec_create us u) = None"
      unfolding exec_create [OF assms(2) True] rows check_unique_users [OF typed]
      by (auto simp: spec_create_def)
  qed
  then show ?thesis by (simp add: store_create_map e)
qed

lemma store_update_any:
  assumes "holds_users d us" "typed_user u"
  shows "write_outcome holds_users us (spec_update us u) (store_update d u)"
proof -
  let ?a = "row_args (from_bus_user u)"
  let ?st = "SUpdate update_sets [Cond ''id'' ''='' ''id'']"
  obtain r d' where e: "named_exec d update_q ?a = (r, d')" by fastforce
  have ok: "users_ok us" and t: "tbl d = map user_to_row us"
    using assms(1) by (simp_all add: holds_users_def)
  have dist: "distinct (map addr us)" "distinct (map u_id (updated_users us u))"
    using ok by (simp_all add: users_ok_def updated_users_ids)
  have "write_outcome holds_users us (spec_update us u) (map_option exec_error r, d')"
  proof (rule write_outcome_exec [OF assms(1) named_update e], cases "storable u")
    case False
    show "case exec_stmt ?st ?a (tbl d) of Err e \<Rightarrow> True
         | Ok rs \<Rightarrow> rs = map user_to_row (snd (spec_update us u)) \<and> users_ok (snd (spec_update us u)) \<and> fst (spec_update us u) = None"
      using exec_update_any [OF assms(2) False ok] dist ok unfolding t by (auto simp: spec_update_def)
  next
    case True
    let ?us = "updated_users us u"
    have upd: "update_rows (update_val u) (conds_hold ?a [Cond ''id'' ''='' ''id'']) (map user_to_row us) = Ok (map user_to_row ?us)"
      using ok assms(2) by (intro update_rows_users [OF True] id_cond_user)
        (auto simp: typed_user_def users_ok_def list_all_iff)
    have cu: "check_unique (map user_to_row ?us) = (if distinct (map addr ?us) then Ok (map user_to_row ?us)
        else Err (pg_error ''23505'' ''duplicate key value violates unique constraint users_email_key''))"
      using dist(2) by (simp add: check_unique_users [OF updated_users_typed [OF ok assms(2)]])
    show "case exec_stmt ?st ?a (tbl d) of Err e \<Rightarrow> True
         | Ok rs \<Rightarrow> rs = map user_to_row (snd (spec_update us u)) \<and> users_ok (snd (spec_update us u)) \<and> fst (spec_update us u) = None"
      using users_ok_updated [OF ok assms(2) True]
      by (simp add: exec_update [OF assms(2) True] t upd cu spec_update_def)
  qed
  then show ?thesis by (simp add: store_update_map e)
qed

lemma store_delete_any:
  assumes "holds_users d us" "typed_user u"
  shows "write_outcome holds_users us (spec_delete us u) (store_delete d u)"
proof -
  let ?a = "row_args (from_bus_user u)"
  let ?c = "[Cond ''id'' ''='' ''id'']"
  obtain r d' where e: "named_exec d delete_q ?a = (r, d')" by fastforce
  have ok: "users_ok us" and t: "tbl d = map user_to_row us"
    using assms(1) by (simp_all add: holds_users_def)
  have "filter (\<lambda>r. \<not> conds_hold ?a ?c r) (map user_to_row us) = map user_to_row (filter (\<lambda>v. u_id v \<noteq> u_id u) us)"
    using ok assms(2) id_cond_user [of "u_id u" _ ?a]
    by (intro filter_map_rows) (auto simp: typed_user_def users_ok_def list_all_iff)
  then have "write_outcome holds_users us (spec_delete us u) (map_option (ErrWrap ''namedExecContext'') r, d')"
    using users_ok_filter [OF ok]
    by (intro write_outcome_exec [OF assms(1) named_delete e])
      (auto simp: exec_stmt_def t spec_delete_def split: sum.split)
  then show ?thesis by (simp add: store_delete_map e)
qed

section \<open>Reads on a faulty connection\<close>

lemma take_whole: "\<exists>n. xs = take n xs"
  by (rule exI [of _ "length xs"]) simp

lemma named_query_rows:
  assumes "named_stmt q args = Ok st" "named_query d q args = (Ok rows, d')"
  shows "\<exists>rs n. query_stmt (collate d) (scan_order d (queries d)) st args (tbl d) = Ok rs \<and> rs_rows rows = take n rs \<and>
    (rs_rows rows = [] \<longrightarrow> rs = [])"
  using assms
  by (cases "faults d"; cases "hd (faults d)")
    (auto simp: named_query_def next_fault_def take_whole Let_def split: sum.splits fault.splits if_splits)

lemma first_user_sound:
  assumes "users_ok us" "first_user (Ok rows) = Ok u"
    and "rs_rows rows = take n (map user_to_row (filter P (sort_key k us)))"
  shows "u \<in> set us \<and> P u"
proof -
  have "rs_rows rows \<noteq> []"
    using assms(2) by (auto simp: first_user_def)
  then have "take n (map user_to_row (filter P (sort_key k us))) \<noteq> []"
    unfolding assms(3) .
  then obtain v vs m where v: "filter P (sort_key k us) = v # vs" "n = Suc m"
    by (cases "filter P (sort_key k us)"; cases n) auto
  then have "v \<in> set (filter P (sort_key k us))" by simp
  then have mem: "v \<in> set us \<and> P v" by simp
  then have "typed_user v" "stored_user v = v" using assms(1) by (auto simp: users_ok_def list_all_iff)
  then have "u = v" using assms(2,3) v to_user_bus_stored [of v]
    by (simp add: first_user_def struct_scan_user_to_row)
  with mem show ?thesis by simp
qed

lemma query_stmt_arg_ok:
  "query_stmt coll place (SSelect False [c] None None) args rows = Ok rs \<Longrightarrow> arg_ok (arg_of args (cond_ph c))"
  by (auto simp: query_stmt_def split: if_splits)

text \<open>What a query for a value of one column finds is there, whatever breaks off.\<close>

lemma first_user_any:
  assumes "holds_users d us" "named_stmt q args = Ok (SSelect False [c] None None)"
    and "\<And>u. u \<in> set us \<Longrightarrow> conds_hold args [c] (user_to_row u) \<longleftrightarrow> P u" "\<not> unknown_column [cond_col c]"
    and "named_query d q args = (r, d')" "first_user r = Ok u"
  shows "u \<in> set us \<and> P u"
proof -
  have ok: "users_ok us" and t: "tbl d = map user_to_row us"
    using assms(1) by (simp_all add: holds_users_def)
  obtain rows where rows: "r = Ok rows" using assms(6) by (cases r) (simp_all add: first_user_def)
  obtain rs n where n: "query_stmt (collate d) (scan_order d (queries d)) (SSelect False [c] None None) args (tbl d) = Ok rs"
      "rs_rows rows = take n rs"
    using named_query_rows [OF assms(2) assms(5) [unfolded rows]] by blast
  have "rs = map user_to_row (filter P (sort_key (\<lambda>u. scan_order d (queries d) (user_to_row u)) us))"
    using select_users [OF assms(3,4) query_stmt_arg_ok [OF n(1)]] n(1) unfolding t by simp
  then show ?thesis
    using first_user_sound [OF ok] assms(6) n(2) unfolding rows by blast
qed

lemma store_query_by_id_any:
  assumes "holds_users d us" "store_query_by_id d i = (r, d')"
  shows "holds_users d' us \<and> (\<forall>u. wf_uuid i \<longrightarrow> r = Ok u \<longrightarrow> u \<in> set us \<and> u_id u = i)"
proof -
  let ?c = "Cond ''id'' ''='' ''id''"
  let ?args = "[''id'' \<mapsto> SvString (uuid_string i)]"
  have ok: "users_ok us" and t: "tbl d = map user_to_row us"
    using assms(1) by (simp_all add: holds_users_def)
  have st: "named_stmt by_id_q ?args = Ok (SSelect False [?c] None None)"
    by (simp add: named_stmt_def by_id_q_parse)
  obtain q d0 where q: "named_query d by_id_q ?args = (q, d0)" and r: "r = first_user q"
    and d': "d' = span_ended ''user.store.queryByID'' d0"
    using assms(2) by (auto simp: store_query_by_id_def split: prod.splits)
  have "u \<in> set us \<and> u_id u = i" if w: "wf_uuid i" and o: "r = Ok u" for u
  proof (rule first_user_any [OF assms(1) st _ _ q])
    show "conds_hold ?args [?c] (user_to_row v) \<longleftrightarrow> u_id v = i" if "v \<in> set us" for v
      using ok w that by (intro id_cond_user) (auto simp: users_ok_def list_all_iff)
  qed (use o r in \<open>simp_all add: unknown_column_def users_schema_def\<close>)
  then show ?thesis using named_query_any [OF q] ok t d' by (simp add: holds_users_def)
qed

lemma store_query_by_email_any:
  assumes "holds_users d us" "store_query_by_email d m = (r, d')"
  shows "holds_users d' us \<and> (\<forall>u. r = Ok u \<longrightarrow> u \<in> set us \<and> addr u = ma_address m)"
proof -
  let ?c = "Cond ''email'' ''='' ''email''"
  let ?args = "[''email'' \<mapsto> SvString (ma_address m)]"
  have ok: "users_ok us" and t: "tbl d = map user_to_row us"
    using assms(1) by (simp_all add: holds_users_def)
  have st: "named_stmt by_email_q ?args = Ok (SSelect False [?c] None None)"
    by (simp add: named_stmt_def by_email_q_parse)
  obtain q d0 where q: "named_query d by_email_q ?args = (q, d0)" and r: "r = first_user q"
    and d': "d' = span_ended ''user.store.queryByEmail'' d0"
    using assms(2) by (auto simp: store_query_by_email_def split: prod.splits)
  have "u \<in> set us \<and> addr u = ma_address m" if o: "r = Ok u" for u
  proof (rule first_user_any [OF assms(1) st _ _ q])
    show "conds_hold ?args [?c] (user_to_row v) \<longleftrightarrow> addr v = ma_address m" for v
      by (rule email_cond_user) simp
  qed (use o r in \<open>simp_all add: unknown_column_def users_schema_def\<close>)
  then show ?thesis using named_query_any [OF q] ok t d' by (simp add: holds_users_def)
qed

lemma store_query_tbl: "tbl (snd (store_query d f ord p)) = tbl d"
proof (cases "order_by_clause ord")
  case (Inl e)
  then show ?thesis by (simp add: store_query_def apply_filters_def Let_def)
next
  case (Inr oc)
  obtain r d' where q: "named_query d (query_text f oc) (filter_data f (page_data p)) = (r, d')" by fastforce
  then show ?thesis
    using named_query_any [OF q] by (auto simp: store_query_text [OF Inr] split: sum.split option.split)
qed

lemma store_count_tbl: "tbl (snd (store_count d f)) = tbl d"
proof -
  obtain data buf where a: "apply_filters f Map.empty count_q = (data, buf)" by fastforce
  obtain r d' where q: "named_query d buf data = (r, d')" by fastforce
  show ?thesis
    using named_query_any [OF q]
    by (auto simp: store_count_def a q split: sum.split list.split sqlval.split)
qed

text \<open>
  That a user is not found is never due to a connection that breaks: the driver has asked for the first row,
  and the error of the query is another one.
\<close>

lemma not_found_is_true:
  assumes "holds_users d us" "wf_uuid i" "fst (store_query_by_id d i) = Err ErrUserNotFound"
  shows "i \<notin> u_id ` set us"
proof -
  let ?c = "Cond ''id'' ''='' ''id''"
  let ?args = "[''id'' \<mapsto> SvString (uuid_string i)]"
  have ok: "users_ok us" and t: "tbl d = map user_to_row us"
    using assms(1) by (simp_all add: holds_users_def)
  have st: "named_stmt by_id_q ?args = Ok (SSelect False [?c] None None)"
    by (simp add: named_stmt_def by_id_q_parse)
  obtain q d0 where q: "named_query d by_id_q ?args = (q, d0)" by fastforce
  then have "first_user q = Err ErrUserNotFound" using assms(3) by (simp add: store_query_by_id_def)
  then obtain rows where rows: "q = Ok rows" "rs_rows rows = []"
    by (auto simp: first_user_def split: sum.splits list.splits)
  have query: "query_stmt (collate d) (scan_order d (queries d)) (SSelect False [?c] None None) ?args (tbl d) = Ok []"
    using named_query_rows [OF st q [unfolded rows(1)]] rows(2) by auto
  have "conds_hold ?args [?c] (user_to_row v) \<longleftrightarrow> u_id v = i" if "v \<in> set us" for v
    using ok that by (intro id_cond_user [OF assms(2)]) (auto simp: users_ok_def list_all_iff)
  then have "filter (\<lambda>v. u_id v = i) (sort_key (\<lambda>u. scan_order d (queries d) (user_to_row u)) us) = []"
    using select_users [of us ?args ?c "\<lambda>v. u_id v = i"] query_stmt_arg_ok [OF query] query
    unfolding t by (simp add: unknown_column_def users_schema_def)
  then show ?thesis by (auto simp: filter_empty_conv)
qed

section \<open>The PostgreSQL store meets the contract\<close>

interpretation pg: user_store userdb_store holds_users healthy collate
proof (unfold_locales, unfold userdb_store_simps)
  fix d us u i m f ord p r d'
  assume h: "holds_users d us"
  show "users_ok us" using h by (simp add: holds_users_def)
  show "healthy d \<Longrightarrow> typed_user u \<Longrightarrow> fits u \<Longrightarrow>
      \<exists>s'. store_create d u = (fst (spec_create us u), s') \<and> holds_users s' (snd (spec_create us u))
        \<and> healthy s' \<and> collate s' = collate d"
    using store_create_spec [OF h] storable_fits by blast
  show "healthy d \<Longrightarrow> typed_user u \<Longrightarrow> fits u \<Longrightarrow>
      \<exists>s'. store_update d u = (fst (spec_update us u), s') \<and> holds_users s' (snd (spec_update us u))
        \<and> healthy s' \<and> collate s' = collate d"
    using store_update_spec [OF h] storable_fits by blast
  show "healthy d \<Longrightarrow> typed_user u \<Longrightarrow> fits u \<Longrightarrow>
      \<exists>s'. store_delete d u = (fst (spec_delete us u), s') \<and> holds_users s' (snd (spec_delete us u))
        \<and> healthy s' \<and> collate s' = collate d"
    using store_delete_spec [OF h] storable_fits by blast
  show "healthy d \<Longrightarrow> wf_uuid i \<Longrightarrow> \<exists>s'. store_query_by_id d i = (spec_by_id us i, s') \<and>
      holds_users s' us \<and> healthy s' \<and> collate s' = collate d"
    using store_query_by_id_spec [OF h] by blast
  show "healthy d \<Longrightarrow> text_ok (ma_address m) \<Longrightarrow>
      \<exists>s'. store_query_by_email d m = (spec_by_email us m, s') \<and> holds_users s' us \<and> healthy s'
        \<and> collate s' = collate d"
    using store_query_by_email_spec [OF h] by blast
  show "healthy d \<Longrightarrow> wf_order ord \<Longrightarrow> wf_page p \<Longrightarrow> pg_rows p \<le> max_safe_rows \<Longrightarrow> filter_ok f \<Longrightarrow>
      \<exists>s' vs. listing (collate d) f ord us vs \<and> store_query d f ord p = (Ok (page_of p vs), s') \<and> holds_users s' us
        \<and> healthy s' \<and> collate s' = collate d"
    using store_query_spec [OF h] by blast
  show "healthy d \<Longrightarrow> filter_ok f \<Longrightarrow> \<exists>s'. store_count d f = (Ok (spec_count f us), s') \<and>
      holds_users s' us \<and> healthy s' \<and> collate s' = collate d"
    using store_count_spec [OF h] by blast
  show "typed_user u \<Longrightarrow> write_outcome holds_users us (spec_create us u) (store_create d u)"
    by (rule store_create_any [OF h])
  show "typed_user u \<Longrightarrow> write_outcome holds_users us (spec_update us u) (store_update d u)"
    by (rule store_update_any [OF h])
  show "typed_user u \<Longrightarrow> write_outcome holds_users us (spec_delete us u) (store_delete d u)"
    by (rule store_delete_any [OF h])
  show "store_query_by_id d i = (r, d') \<Longrightarrow> holds_users d' us \<and>
      (\<forall>u. wf_uuid i \<longrightarrow> r = Ok u \<longrightarrow> u \<in> set us \<and> u_id u = i)"
    by (rule store_query_by_id_any [OF h])
  show "store_query_by_email d m = (r, d') \<Longrightarrow> holds_users d' us \<and>
      (\<forall>u. r = Ok u \<longrightarrow> u \<in> set us \<and> addr u = ma_address m)"
    by (rule store_query_by_email_any [OF h])
  show "holds_users (snd (store_query d f ord p)) us"
    using h by (simp add: holds_users_def store_query_tbl)
  show "holds_users (snd (store_count d f)) us"
    using h by (simp add: holds_users_def store_count_tbl)
qed

section \<open>Properties\<close>

text \<open>Two users and the connections that the examples run on.\<close>

definition sample_user :: "nat \<Rightarrow> string \<Rightarrow> string \<Rightarrow> role list \<Rightarrow> user" where
  "sample_user n name email rs =
     \<lparr>u_id = replicate 15 0 @ [of_nat n], u_name = name, u_email = \<lparr>ma_name = name, ma_address = email\<rparr>,
      u_roles = rs, u_password_hash = ''hash'', u_department = ''sales'', u_enabled = True,
      u_created_at = int n * 1000, u_updated_at = int n * 1000\<rparr>"

definition ann :: user where
  "ann = sample_user 1 ''Anna'' ''ann@x.io'' [role_admin]"

definition bob :: user where
  "bob = sample_user 2 ''Robert'' ''bob@x.io'' [role_user]"

definition db_of :: "user list \<Rightarrow> fault list \<Rightarrow> database" where
  "db_of us fs = \<lparr>tbl = map user_to_row us, collate = map (\<lambda>c. int (byte_of c)), scan_order = (\<lambda>n r. 0),
     queries = 0, faults = fs, st_spans = []\<rparr>"

lemma sample_typed [simp]: "typed_user ann" "typed_user bob"
  by (simp_all add: ann_def bob_def sample_user_def typed_user_def wf_uuid_def wf_roles_iff)

lemma sample_fits [simp]: "fits ann" "fits bob"
  by (simp_all add: ann_def bob_def sample_user_def fits_def addr_def text_ok_ascii)

lemma sample_stored [simp]: "stored_user ann = ann" "stored_user bob = bob"
  by (simp_all add: ann_def bob_def sample_user_def stored_user_def trunc_micro_def)

lemma sample_ids [simp]: "u_id ann \<noteq> u_id bob" "u_id bob \<noteq> u_id ann" "addr ann = ''ann@x.io''" "addr bob = ''bob@x.io''"
  by (simp_all add: ann_def bob_def sample_user_def addr_def)

definition bob_off :: user where
  "bob_off = bob\<lparr>u_enabled := False\<rparr>"

lemma bob_off_simps [simp]:
  "typed_user bob_off" "fits bob_off" "u_id bob_off = u_id bob" "addr bob_off = ''bob@x.io''"
  using sample_typed(2) sample_fits(2) sample_ids(4)
  by (simp_all add: bob_off_def typed_user_def fits_def addr_def)

lemma users_ok_samples [simp]: "users_ok [ann]" "users_ok [ann, bob]"
  by (simp_all add: users_ok_def)

lemma holds_db_of [simp]: "holds_users (db_of us fs) us \<longleftrightarrow> users_ok us"
  by (simp add: holds_users_def db_of_def)

lemma healthy_db_of [simp]: "healthy (db_of us fs) \<longleftrightarrow> list_all (\<lambda>f. f = NoFault) fs"
  by (simp add: healthy_def db_of_def)

text \<open>
  C22: Creating a user on a working connection adds exactly that user (as the table keeps it) at the
  end of the table, unless its id or its address is taken: then it fails with
  \<^verbatim>\<open>ErrDuplicatedEmail\<close> and the table is as before.
\<close>

theorem store_create_refines:
  assumes "holds_users d us" "healthy d" "typed_user u" "fits u"
  shows "\<exists>d'. healthy d' \<and>
    (if u_id u \<in> u_id ` set us \<or> addr u \<in> addr ` set us
     then store_create d u = (Some ErrDuplicatedEmail, d') \<and> holds_users d' us
     else store_create d u = (None, d') \<and> holds_users d' (us @ [stored_user u]))"
  using pg.create_up [OF assms] by (auto simp: spec_create_def stored_fits [OF assms(4)])

theorem store_create_refines_witness:
  "\<exists>d'. store_create (db_of [ann] []) bob = (None, d') \<and> holds_users d' [ann, bob]"
  using store_create_refines [of "db_of [ann] []" "[ann]" bob] by auto

text \<open>
  C23: Updating a user on a working connection rewrites the row with its id, all columns but the
  creation time, and touches no other row; where the new address belongs to another user it fails
  with \<^verbatim>\<open>ErrDuplicatedEmail\<close> and changes nothing; where no row has the id, it succeeds and changes
  nothing.
\<close>

theorem store_update_refines:
  assumes "holds_users d us" "healthy d" "typed_user u" "fits u"
  shows "\<exists>d'. healthy d' \<and>
    (if u_id u \<in> u_id ` set us \<and> (\<exists>v \<in> set us. u_id v \<noteq> u_id u \<and> addr v = addr u)
     then store_update d u = (Some ErrDuplicatedEmail, d') \<and> holds_users d' us
     else store_update d u = (None, d') \<and>
       holds_users d' (map (\<lambda>v. if u_id v = u_id u then (stored_user u)\<lparr>u_created_at := u_created_at v\<rparr> else v) us))"
proof -
  have ok: "users_ok us" using assms(1) by (rule pg.rep_ok)
  have "distinct (map addr (updated_users us u)) \<longleftrightarrow>
      \<not> (u_id u \<in> u_id ` set us \<and> (\<exists>v \<in> set us. u_id v \<noteq> u_id u \<and> addr v = addr u))"
    using updated_users_distinct [OF ok, of u] by (simp add: stored_fits [OF assms(4)])
  then show ?thesis
    using pg.update_up [OF assms] unfolding spec_update_def updated_users_def [symmetric]
    by (cases "distinct (map addr (updated_users us u))") auto
qed

theorem store_update_refines_witness:
  "\<exists>d'. store_update (db_of [ann, bob] []) bob_off = (None, d') \<and> holds_users d' [ann, bob_off]"
proof -
  have "map (\<lambda>v. if u_id v = u_id bob_off then (stored_user bob_off)\<lparr>u_created_at := u_created_at v\<rparr> else v)
      [ann, bob] = [ann, bob_off]"
    by (simp add: bob_off_def) (simp add: bob_def sample_user_def stored_user_def trunc_micro_def)
  then show ?thesis
    using store_update_refines [of "db_of [ann, bob] []" "[ann, bob]" bob_off]
    by auto
qed

text \<open>
  C24: A write that meets a failing connection is all or nothing: whatever the fault, the table holds
  either the users from before or exactly what a faultless call makes of them, and success is only
  reported in the second case.
\<close>

theorem store_writes_atomic:
  assumes "holds_users d us" "typed_user u"
  shows "(case store_create d u of
        (None, d') \<Rightarrow> holds_users d' (us @ [stored_user u]) \<and> addr (stored_user u) \<notin> addr ` set us
      | (Some e, d') \<Rightarrow> holds_users d' us \<or> holds_users d' (us @ [stored_user u])) \<and>
    (case store_update d u of
        (None, d') \<Rightarrow> holds_users d' (updated_users us u)
      | (Some e, d') \<Rightarrow> holds_users d' us \<or> holds_users d' (updated_users us u)) \<and>
    (case store_delete d u of
        (None, d') \<Rightarrow> holds_users d' (filter (\<lambda>v. u_id v \<noteq> u_id u) us)
      | (Some e, d') \<Rightarrow> holds_users d' us \<or> holds_users d' (filter (\<lambda>v. u_id v \<noteq> u_id u) us))"
proof (intro conjI)
  show "case store_create d u of
        (None, d') \<Rightarrow> holds_users d' (us @ [stored_user u]) \<and> addr (stored_user u) \<notin> addr ` set us
      | (Some e, d') \<Rightarrow> holds_users d' us \<or> holds_users d' (us @ [stored_user u])"
    using pg.create_any [OF assms]
    by (auto simp: write_outcome_def spec_create_def split: prod.splits option.splits if_splits)
  show "case store_update d u of
        (None, d') \<Rightarrow> holds_users d' (updated_users us u)
      | (Some e, d') \<Rightarrow> holds_users d' us \<or> holds_users d' (updated_users us u)"
    using pg.update_any [OF assms]
    by (auto simp: write_outcome_def spec_update_def split: prod.splits option.splits if_splits)
  show "case store_delete d u of
        (None, d') \<Rightarrow> holds_users d' (filter (\<lambda>v. u_id v \<noteq> u_id u) us)
      | (Some e, d') \<Rightarrow> holds_users d' us \<or> holds_users d' (filter (\<lambda>v. u_id v \<noteq> u_id u) us)"
    using pg.delete_any [OF assms]
    by (auto simp: write_outcome_def spec_delete_def split: prod.splits option.splits)
qed

theorem store_writes_atomic_witness:
  "case store_create (db_of [ann] [FailAfter (ErrPlain ''conn closed'')]) bob of
        (None, d') \<Rightarrow> holds_users d' [ann, bob]
      | (Some e, d') \<Rightarrow> holds_users d' [ann] \<or> holds_users d' [ann, bob]"
  using store_writes_atomic [of "db_of [ann] [FailAfter (ErrPlain ''conn closed'')]" "[ann]" bob]
  by (auto split: prod.splits option.splits)

end
