(* ===== verification/UserBus.thy ===== *)
theory UserBus
  imports StoreContract
begin

text \<open>
  \<^verbatim>\<open>internal/domains/user/bus/bus.go\<close>: the operations on users over any store that has the
  operations of \<open>store_api\<close>. What the code reads from outside is in \<open>env\<close>: the n-th reading of the
  clock or of the random source gives \<open>now_at n\<close>, \<open>rand_at n\<close>; \<open>bcrypt_hash n p\<close> is the hash of
  \<open>p\<close> with the salt of the n-th reading, \<open>bcrypt_compare\<close> the verdict of
  \<^verbatim>\<open>bcrypt.CompareHashAndPassword\<close>. \<open>reads\<close> counts the readings.
\<close>

record env =
  now_at :: "nat \<Rightarrow> gotime"
  rand_at :: "nat \<Rightarrow> 8 word list"
  bcrypt_hash :: "nat \<Rightarrow> string \<Rightarrow> string"
  bcrypt_compare :: "string \<Rightarrow> string \<Rightarrow> go_err option"

record 's world =
  wd_store :: 's
  reads :: nat

definition time_now :: "env \<Rightarrow> 's world \<Rightarrow> gotime \<times> 's world" where
  "time_now E w = (now_at E (reads w), w\<lparr>reads := Suc (reads w)\<rparr>)"

definition uuid_new :: "env \<Rightarrow> 's world \<Rightarrow> uuid \<times> 's world" where
  "uuid_new E w = (uuid_from_random (rand_at E (reads w)), w\<lparr>reads := Suc (reads w)\<rparr>)"

text \<open>\<^verbatim>\<open>bcrypt.GenerateFromPassword\<close> refuses a password of more than 72 bytes.\<close>

definition ErrPasswordTooLong :: go_err where
  "ErrPasswordTooLong = ErrPlain ''bcrypt: password length exceeds 72 bytes''"

definition generate_from_password :: "env \<Rightarrow> 's world \<Rightarrow> string \<Rightarrow> string res \<times> 's world" where
  "generate_from_password E w password =
     (if length password > 72 then (Err ErrPasswordTooLong, w)
      else (Ok (bcrypt_hash E (reads w) password), w\<lparr>reads := Suc (reads w)\<rparr>))"

section \<open>The operations\<close>

definition bus_create ::
  "env \<Rightarrow> 's store_api \<Rightarrow> 's world \<Rightarrow> new_user \<Rightarrow> user res \<times> 's world" where
  "bus_create E api w nu =
     (case generate_from_password E w (nu_password nu) of
        (Err err, w) \<Rightarrow> (Err (ErrWrap ''generateFromPassword'' err), w)
      | (Ok bs, w) \<Rightarrow>
          (let (t, w) = time_now E w;
               now = trunc_micro t;
               (i, w) = uuid_new E w;
               usr = \<lparr>u_id = i, u_name = nu_name nu, u_email = nu_email nu, u_roles = nu_roles nu,
                      u_password_hash = bs, u_department = nu_department nu, u_enabled = True,
                      u_created_at = now, u_updated_at = now\<rparr>
           in case sa_create api (wd_store w) usr of
                (Some err, s) \<Rightarrow> (Err (ErrWrap ''create'' err), w\<lparr>wd_store := s\<rparr>)
              | (None, s) \<Rightarrow> (Ok usr, w\<lparr>wd_store := s\<rparr>)))"

text \<open>The assignments of \<^verbatim>\<open>Update\<close> before and after the password.\<close>

definition apply_updates :: "update_user \<Rightarrow> user \<Rightarrow> user" where
  "apply_updates updates usr =
     (let usr = (case uu_name updates of None \<Rightarrow> usr | Some n \<Rightarrow> usr\<lparr>u_name := n\<rparr>);
          usr = (case uu_email updates of None \<Rightarrow> usr | Some m \<Rightarrow> usr\<lparr>u_email := m\<rparr>);
          usr = (case uu_department updates of None \<Rightarrow> usr | Some d \<Rightarrow> usr\<lparr>u_department := d\<rparr>);
          usr = (case uu_roles updates of None \<Rightarrow> usr | Some rs \<Rightarrow> usr\<lparr>u_roles := rs\<rparr>)
      in usr)"

definition update_password ::
  "env \<Rightarrow> 's world \<Rightarrow> update_user \<Rightarrow> user \<Rightarrow> user res \<times> 's world" where
  "update_password E w updates usr =
     (case uu_password updates of
        None \<Rightarrow> (Ok usr, w)
      | Some p \<Rightarrow>
          (case generate_from_password E w p of
             (Err err, w) \<Rightarrow> (Err (ErrWrap ''generateFromPassword'' err), w)
           | (Ok bs, w) \<Rightarrow> (Ok (usr\<lparr>u_password_hash := bs\<rparr>), w)))"

definition bus_update ::
  "env \<Rightarrow> 's store_api \<Rightarrow> 's world \<Rightarrow> user \<Rightarrow> update_user \<Rightarrow> user res \<times> 's world" where
  "bus_update E api w usr updates =
     (case update_password E w updates (apply_updates updates usr) of
        (Err err, w) \<Rightarrow> (Err err, w)
      | (Ok usr, w) \<Rightarrow>
          (let usr = (case uu_enabled updates of None \<Rightarrow> usr | Some b \<Rightarrow> usr\<lparr>u_enabled := b\<rparr>);
               (t, w) = time_now E w;
               usr = usr\<lparr>u_updated_at := t\<rparr>
           in case sa_update api (wd_store w) usr of
                (Some err, s) \<Rightarrow> (Err (ErrWrap ''update'' err), w\<lparr>wd_store := s\<rparr>)
              | (None, s) \<Rightarrow> (Ok usr, w\<lparr>wd_store := s\<rparr>)))"

definition bus_delete :: "'s store_api \<Rightarrow> 's world \<Rightarrow> user \<Rightarrow> go_err option \<times> 's world" where
  "bus_delete api w usr =
     (case sa_delete api (wd_store w) usr of
        (Some err, s) \<Rightarrow> (Some (ErrWrap ''delete'' err), w\<lparr>wd_store := s\<rparr>)
      | (None, s) \<Rightarrow> (None, w\<lparr>wd_store := s\<rparr>))"

definition bus_query_by_id :: "'s store_api \<Rightarrow> 's world \<Rightarrow> uuid \<Rightarrow> user res \<times> 's world" where
  "bus_query_by_id api w i =
     (case sa_query_by_id api (wd_store w) i of
        (Err err, s) \<Rightarrow> (Err (ErrWrap ''queryByID'' err), w\<lparr>wd_store := s\<rparr>)
      | (Ok usr, s) \<Rightarrow> (Ok usr, w\<lparr>wd_store := s\<rparr>))"

definition bus_query_by_email ::
  "'s store_api \<Rightarrow> 's world \<Rightarrow> mail_address \<Rightarrow> user res \<times> 's world" where
  "bus_query_by_email api w email =
     (case sa_query_by_email api (wd_store w) email of
        (Err err, s) \<Rightarrow> (Err (ErrWrap ''queryByEmail'' err), w\<lparr>wd_store := s\<rparr>)
      | (Ok usr, s) \<Rightarrow> (Ok usr, w\<lparr>wd_store := s\<rparr>))"

definition bus_count :: "'s store_api \<Rightarrow> 's world \<Rightarrow> query_filter \<Rightarrow> int res \<times> 's world" where
  "bus_count api w f =
     (case sa_count api (wd_store w) f of (r, s) \<Rightarrow> (r, w\<lparr>wd_store := s\<rparr>))"

definition bus_query ::
  "'s store_api \<Rightarrow> 's world \<Rightarrow> query_filter \<Rightarrow> order_field \<Rightarrow> page \<Rightarrow> user list res \<times> 's world" where
  "bus_query api w f ord p =
     (case sa_query api (wd_store w) f ord p of
        (Err err, s) \<Rightarrow> (Err (ErrWrap ''query'' err), w\<lparr>wd_store := s\<rparr>)
      | (Ok usrs, s) \<Rightarrow> (Ok usrs, w\<lparr>wd_store := s\<rparr>))"

definition bus_authenticate ::
  "env \<Rightarrow> 's store_api \<Rightarrow> 's world \<Rightarrow> mail_address \<Rightarrow> string \<Rightarrow> user res \<times> 's world" where
  "bus_authenticate E api w email password =
     (case sa_query_by_email api (wd_store w) email of
        (Err err, s) \<Rightarrow> (Err (ErrWrap ''queryByEmail'' err), w\<lparr>wd_store := s\<rparr>)
      | (Ok usr, s) \<Rightarrow>
          (case bcrypt_compare E (u_password_hash usr) password of
             Some err \<Rightarrow> (Err (ErrWrap ''compareHashAndPass'' err), w\<lparr>wd_store := s\<rparr>)
           | None \<Rightarrow> (Ok usr, w\<lparr>wd_store := s\<rparr>)))"

text \<open>
  What the proofs use of bcrypt, as its documentation has it: the hash of a password is plain text and
  is accepted with that password; and with no other, among the passwords that bcrypt tells apart (it
  reads 72 bytes, and a NUL byte ends a round of the key); and of the random source: 16 bytes are read.
\<close>

definition plain_password :: "string \<Rightarrow> bool" where
  "plain_password p \<longleftrightarrow> length p \<le> 72 \<and> CHR 0x00 \<notin> set p"

definition bcrypt_law :: "env \<Rightarrow> bool" where
  "bcrypt_law E \<longleftrightarrow>
     (\<forall>n p. length p \<le> 72 \<longrightarrow>
        text_ok (bcrypt_hash E n p) \<and> bcrypt_compare E (bcrypt_hash E n p) p = None) \<and>
     (\<forall>n p q. plain_password p \<longrightarrow> plain_password q \<longrightarrow>
        bcrypt_compare E (bcrypt_hash E n p) q = None \<longrightarrow> p = q)"

definition rand_law :: "env \<Rightarrow> bool" where
  "rand_law E \<longleftrightarrow> (\<forall>n. wf_uuid (rand_at E n))"

section \<open>The user that is made\<close>

definition created_user :: "env \<Rightarrow> nat \<Rightarrow> new_user \<Rightarrow> user" where
  "created_user E n nu =
     \<lparr>u_id = uuid_from_random (rand_at E (Suc (Suc n))), u_name = nu_name nu, u_email = nu_email nu,
      u_roles = nu_roles nu, u_password_hash = bcrypt_hash E n (nu_password nu),
      u_department = nu_department nu, u_enabled = True,
      u_created_at = trunc_micro (now_at E (Suc n)), u_updated_at = trunc_micro (now_at E (Suc n))\<rparr>"

lemma bus_create_store:
  assumes "length (nu_password nu) \<le> 72"
  shows "bus_create E api w nu =
    (case sa_create api (wd_store w) (created_user E (reads w) nu) of
       (Some err, s) \<Rightarrow> (Err (ErrWrap ''create'' err), \<lparr>wd_store = s, reads = reads w + 3\<rparr>)
     | (None, s) \<Rightarrow> (Ok (created_user E (reads w) nu), \<lparr>wd_store = s, reads = reads w + 3\<rparr>))"
  using assms
  by (cases w) (simp add: bus_create_def generate_from_password_def time_now_def uuid_new_def created_user_def
      Let_def split: prod.split option.split)

lemma bus_create_too_long:
  "length (nu_password nu) > 72 \<Longrightarrow>
     bus_create E api w nu = (Err (ErrWrap ''generateFromPassword'' ErrPasswordTooLong), w)"
  by (simp add: bus_create_def generate_from_password_def)

definition final_update :: "env \<Rightarrow> nat \<Rightarrow> update_user \<Rightarrow> user \<Rightarrow> user" where
  "final_update E n updates usr =
     \<lparr>u_id = u_id usr,
      u_name = (case uu_name updates of None \<Rightarrow> u_name usr | Some x \<Rightarrow> x),
      u_email = (case uu_email updates of None \<Rightarrow> u_email usr | Some x \<Rightarrow> x),
      u_roles = (case uu_roles updates of None \<Rightarrow> u_roles usr | Some x \<Rightarrow> x),
      u_password_hash = (case uu_password updates of None \<Rightarrow> u_password_hash usr
                         | Some p \<Rightarrow> bcrypt_hash E n p),
      u_department = (case uu_department updates of None \<Rightarrow> u_department usr | Some x \<Rightarrow> x),
      u_enabled = (case uu_enabled updates of None \<Rightarrow> u_enabled usr | Some x \<Rightarrow> x),
      u_created_at = u_created_at usr,
      u_updated_at = now_at E (case uu_password updates of None \<Rightarrow> n | Some p \<Rightarrow> Suc n)\<rparr>"

definition update_reads :: "update_user \<Rightarrow> nat" where
  "update_reads updates = (case uu_password updates of None \<Rightarrow> 1 | Some p \<Rightarrow> 2)"

lemma bus_update_store:
  assumes "\<forall>p. uu_password updates = Some p \<longrightarrow> length p \<le> 72"
  shows "bus_update E api w usr updates =
    (case sa_update api (wd_store w) (final_update E (reads w) updates usr) of
       (Some err, s) \<Rightarrow> (Err (ErrWrap ''update'' err), \<lparr>wd_store = s, reads = reads w + update_reads updates\<rparr>)
     | (None, s) \<Rightarrow> (Ok (final_update E (reads w) updates usr),
                     \<lparr>wd_store = s, reads = reads w + update_reads updates\<rparr>))"
proof -
  let ?bs = "case uu_password updates of None \<Rightarrow> u_password_hash usr | Some p \<Rightarrow> bcrypt_hash E (reads w) p"
  let ?n = "case uu_password updates of None \<Rightarrow> reads w | Some p \<Rightarrow> Suc (reads w)"
  let ?usr = "\<lambda>usr. case uu_enabled updates of None \<Rightarrow> usr | Some b \<Rightarrow> usr\<lparr>u_enabled := b\<rparr>"
  have pw: "update_password E w updates (apply_updates updates usr) =
      (Ok ((apply_updates updates usr)\<lparr>u_password_hash := ?bs\<rparr>), w\<lparr>reads := ?n\<rparr>)"
    using assms
    by (auto simp: update_password_def generate_from_password_def apply_updates_def split: option.split)
  have fin: "(?usr ((apply_updates updates usr)\<lparr>u_password_hash := ?bs\<rparr>))\<lparr>u_updated_at := now_at E ?n\<rparr> =
      final_update E (reads w) updates usr"
    by (cases usr) (simp add: apply_updates_def final_update_def split: option.split)
  have w: "w\<lparr>reads := ?n, reads := Suc ?n, wd_store := s\<rparr> =
      \<lparr>wd_store = s, reads = reads w + update_reads updates\<rparr>" for s
    by (cases w) (simp add: update_reads_def split: option.split)
  obtain r s where o: "sa_update api (wd_store w) (final_update E (reads w) updates usr) = (r, s)" by fastforce
  show ?thesis
    unfolding bus_update_def pw
    using fin w o by (cases r) (simp_all add: time_now_def Let_def)
qed

lemma bus_update_too_long:
  assumes "uu_password updates = Some p" "length p > 72"
  shows "bus_update E api w usr updates = (Err (ErrWrap ''generateFromPassword'' ErrPasswordTooLong), w)"
  using assms by (simp add: bus_update_def update_password_def generate_from_password_def)

text \<open>What the request must satisfy for the user to fit the table.\<close>

definition new_user_fits :: "new_user \<Rightarrow> bool" where
  "new_user_fits nu \<longleftrightarrow> wf_roles (nu_roles nu) \<and> length (nu_password nu) \<le> 72 \<and>
     rune_count (nu_name nu) \<le> 200 \<and> rune_count (ma_address (nu_email nu)) \<le> 300 \<and>
     rune_count (nu_department nu) \<le> 100 \<and> text_ok (nu_name nu) \<and>
     text_ok (ma_address (nu_email nu)) \<and> text_ok (nu_department nu)"

lemma created_user_typed:
  "rand_law E \<Longrightarrow> wf_roles (nu_roles nu) \<Longrightarrow> typed_user (created_user E n nu)"
  by (simp add: created_user_def typed_user_def rand_law_def)

lemma created_user_fits:
  "bcrypt_law E \<Longrightarrow> new_user_fits nu \<Longrightarrow> fits (created_user E n nu)"
  by (simp add: created_user_def fits_def addr_def new_user_fits_def bcrypt_law_def)

lemma created_user_simps [simp]:
  "addr (created_user E n nu) = ma_address (nu_email nu)"
  "u_password_hash (created_user E n nu) = bcrypt_hash E n (nu_password nu)"
  "u_enabled (created_user E n nu)" "u_roles (created_user E n nu) = nu_roles nu"
  "u_name (created_user E n nu) = nu_name nu" "u_department (created_user E n nu) = nu_department nu"
  by (simp_all add: created_user_def addr_def)

lemma addr_created_stored:
  "bcrypt_law E \<Longrightarrow> new_user_fits nu \<Longrightarrow> addr (stored_user (created_user E n nu)) = ma_address (nu_email nu)"
  by (simp add: created_user_fits)

section \<open>The bus over any store that keeps the contract\<close>

context user_store
begin

lemma bus_create_fresh:
  assumes "rep (wd_store w) us" "up (wd_store w)" "bcrypt_law E" "rand_law E" "new_user_fits nu"
    and "u_id (created_user E (reads w) nu) \<notin> u_id ` set us" "ma_address (nu_email nu) \<notin> addr ` set us"
  shows "\<exists>w'. bus_create E api w nu = (Ok (created_user E (reads w) nu), w') \<and> reads w' = reads w + 3 \<and>
    rep (wd_store w') (us @ [stored_user (created_user E (reads w) nu)]) \<and> up (wd_store w')
    \<and> coll (wd_store w') = coll (wd_store w)"
proof -
  let ?u = "created_user E (reads w) nu"
  have "typed_user ?u" "fits ?u"
    using assms(3-5) created_user_typed created_user_fits by (auto simp: new_user_fits_def)
  from create_up [OF assms(1,2) this] obtain s' where
    "sa_create api (wd_store w) ?u = (None, s')" "rep s' (us @ [stored_user ?u])" "up s'"
    "coll s' = coll (wd_store w)"
    using assms(6,7) by (auto simp: spec_create_def addr_created_stored [OF assms(3,5)])
  then show ?thesis
    using assms(5) by (simp add: bus_create_store new_user_fits_def)
qed

lemma bus_create_duplicate:
  assumes "rep (wd_store w) us" "up (wd_store w)" "bcrypt_law E" "rand_law E" "new_user_fits nu"
    and "ma_address (nu_email nu) \<in> addr ` set us"
  shows "\<exists>w'. bus_create E api w nu = (Err (ErrWrap ''create'' ErrDuplicatedEmail), w') \<and>
    rep (wd_store w') us \<and> up (wd_store w')"
proof -
  let ?u = "created_user E (reads w) nu"
  have "typed_user ?u" "fits ?u"
    using assms(3-5) created_user_typed created_user_fits by (auto simp: new_user_fits_def)
  from create_up [OF assms(1,2) this] obtain s' where
    "sa_create api (wd_store w) ?u = (Some ErrDuplicatedEmail, s')" "rep s' us" "up s'"
    using assms(6) by (auto simp: spec_create_def addr_created_stored [OF assms(3,5)])
  then show ?thesis
    using assms(5) by (simp add: bus_create_store new_user_fits_def)
qed

text \<open>Whatever the connection does, a create that returns a user has stored exactly that user.\<close>

lemma bus_create_sound:
  assumes "rep (wd_store w) us" "rand_law E" "wf_roles (nu_roles nu)" "bus_create E api w nu = (Ok u, w')"
  shows "u = created_user E (reads w) nu \<and> rep (wd_store w') (us @ [stored_user u]) \<and>
    addr (stored_user u) \<notin> addr ` set us"
proof -
  have len: "length (nu_password nu) \<le> 72"
    using assms(4) bus_create_too_long [of nu E api w] by (cases "length (nu_password nu) > 72") auto
  let ?u = "created_user E (reads w) nu"
  obtain r s' where r: "sa_create api (wd_store w) ?u = (r, s')" by fastforce
  then have "r = None" and u: "u = ?u" and w: "wd_store w' = s'"
    using assms(4) by (auto simp: bus_create_store [OF len] split: option.splits)
  then show ?thesis
    using create_any [OF assms(1) created_user_typed [OF assms(2,3)], of "reads w"] r
    by (auto simp: write_outcome_def spec_create_def split: if_splits)
qed

lemma bus_by_id_up:
  assumes "rep (wd_store w) us" "up (wd_store w)" "wf_uuid i"
  shows "\<exists>s'. bus_query_by_id api w i =
      ((case find (\<lambda>u. u_id u = i) us of
          None \<Rightarrow> Err (ErrWrap ''queryByID'' ErrUserNotFound) | Some u \<Rightarrow> Ok u), w\<lparr>wd_store := s'\<rparr>) \<and>
    rep s' us \<and> up s' \<and> coll s' = coll (wd_store w)"
  using by_id_up [OF assms] by (auto simp: bus_query_by_id_def spec_by_id_def split: option.split)

lemma bus_by_id_any:
  assumes "rep (wd_store w) us" "bus_query_by_id api w i = (r, w')"
  shows "rep (wd_store w') us \<and> (\<forall>u. wf_uuid i \<longrightarrow> r = Ok u \<longrightarrow> u \<in> set us \<and> u_id u = i)"
proof -
  obtain q s' where q: "sa_query_by_id api (wd_store w) i = (q, s')" by fastforce
  then show ?thesis
    using by_id_any [OF assms(1) q] assms(2) by (auto simp: bus_query_by_id_def split: sum.splits)
qed

lemma bus_authenticate_sound:
  assumes "rep (wd_store w) us" "bus_authenticate E api w m p = (Ok u, w')"
  shows "u \<in> set us \<and> addr u = ma_address m \<and> bcrypt_compare E (u_password_hash u) p = None \<and>
    rep (wd_store w') us"
proof -
  obtain q s' where q: "sa_query_by_email api (wd_store w) m = (q, s')" by fastforce
  then show ?thesis
    using by_email_any [OF assms(1) q] assms(2)
    by (auto simp: bus_authenticate_def split: sum.splits option.splits)
qed

lemma bus_authenticate_up:
  assumes "rep (wd_store w) us" "up (wd_store w)" "text_ok (ma_address m)"
    and "u \<in> set us" "addr u = ma_address m"
  shows "\<exists>s'. bus_authenticate E api w m p =
      ((case bcrypt_compare E (u_password_hash u) p of
          None \<Rightarrow> Ok u | Some err \<Rightarrow> Err (ErrWrap ''compareHashAndPass'' err)), w\<lparr>wd_store := s'\<rparr>) \<and>
    rep s' us \<and> up s'"
proof -
  have "distinct (map addr us)" using rep_ok [OF assms(1)] by (simp add: users_ok_def)
  then have "find (\<lambda>v. addr v = ma_address m) us = Some u"
    using assms(4,5) by (rule find_distinct)
  then show ?thesis
    using by_email_up [OF assms(1-3)] by (auto simp: bus_authenticate_def spec_by_email_def split: option.split)
qed

text \<open>Who has been created can log in with the password given, and with no other plain one.\<close>

lemma create_then_authenticate:
  assumes "rep (wd_store w) us" "up (wd_store w)" "bcrypt_law E" "rand_law E" "new_user_fits nu"
    and "bus_create E api w nu = (Ok u, w')"
    and "ma_address m = ma_address (nu_email nu)"
  shows "\<exists>r w''. bus_authenticate E api w' m p = (r, w'') \<and>
    (p = nu_password nu \<longrightarrow> r = Ok (stored_user u)) \<and>
    (p \<noteq> nu_password nu \<longrightarrow> plain_password p \<longrightarrow> plain_password (nu_password nu) \<longrightarrow> (\<exists>e. r = Err e))"
proof -
  have wf: "wf_roles (nu_roles nu)" "text_ok (ma_address m)"
    using assms(5,7) by (auto simp: new_user_fits_def)
  note snd = bus_create_sound [OF assms(1,4) wf(1) assms(6)]
  have len: "length (nu_password nu) \<le> 72" using assms(5) by (simp add: new_user_fits_def)
  let ?u = "created_user E (reads w) nu"
  have tyu: "typed_user ?u" "fits ?u"
    using assms(3-5) created_user_typed created_user_fits by (auto simp: new_user_fits_def)
  have "up (wd_store w')"
    using create_up [OF assms(1,2) tyu] assms(6)
    by (auto simp: bus_create_store [OF len] split: option.splits)
  then have "\<exists>s'. bus_authenticate E api w' m p =
      ((case bcrypt_compare E (u_password_hash (stored_user u)) p of
          None \<Rightarrow> Ok (stored_user u) | Some err \<Rightarrow> Err (ErrWrap ''compareHashAndPass'' err)), w'\<lparr>wd_store := s'\<rparr>) \<and>
    rep s' (us @ [stored_user u]) \<and> up s'"
    using snd assms(7) wf addr_created_stored [OF assms(3,5)] by (intro bus_authenticate_up) auto
  moreover have "nu_password nu = p \<Longrightarrow> bcrypt_compare E (u_password_hash (stored_user u)) p = None"
    using snd len assms(3) by (auto simp: bcrypt_law_def)
  moreover have "plain_password p \<Longrightarrow> plain_password (nu_password nu) \<Longrightarrow>
      bcrypt_compare E (u_password_hash (stored_user u)) p = None \<Longrightarrow> nu_password nu = p"
    using snd assms(3) by (auto simp: bcrypt_law_def)
  ultimately show ?thesis by (auto split: option.splits)
qed

lemma bus_update_sound:
  assumes "rep (wd_store w) us" "typed_user (final_update E (reads w) upd usr)"
    and "bus_update E api w usr upd = (Ok u, w')"
  shows "u = final_update E (reads w) upd usr \<and> rep (wd_store w') (updated_users us u)"
proof -
  have len: "\<forall>p. uu_password upd = Some p \<longrightarrow> length p \<le> 72"
    using assms(3) bus_update_too_long [of upd _ E api w usr] by (metis Inl_Inr_False fst_conv not_le_imp_less)
  let ?u = "final_update E (reads w) upd usr"
  obtain r s' where r: "sa_update api (wd_store w) ?u = (r, s')" by fastforce
  then have "r = None" and u: "u = ?u" and w: "wd_store w' = s'"
    using assms(3) by (auto simp: bus_update_store [OF len] split: option.splits)
  then show ?thesis
    using update_any [OF assms(1,2)] r by (auto simp: write_outcome_def spec_update_def split: if_splits)
qed

text \<open>Whatever an update reports, it has been done or not.\<close>

lemma bus_update_any:
  assumes "rep (wd_store w) us" "typed_user (final_update E (reads w) upd usr)"
  shows "\<exists>us' \<in> {us, updated_users us (final_update E (reads w) upd usr)}.
    rep (wd_store (snd (bus_update E api w usr upd))) us'"
proof (cases "\<exists>p. uu_password upd = Some p \<and> length p > 72")
  case True
  then obtain p where "uu_password upd = Some p" "length p > 72" by blast
  then show ?thesis using assms(1) bus_update_too_long [of upd p E api w usr] by auto
next
  case False
  then have len: "\<forall>p. uu_password upd = Some p \<longrightarrow> length p \<le> 72" by auto
  obtain r s' where r: "sa_update api (wd_store w) (final_update E (reads w) upd usr) = (r, s')" by fastforce
  have "wd_store (snd (bus_update E api w usr upd)) = s'"
    using r by (cases r) (simp_all add: bus_update_store [OF len])
  then show ?thesis
    using update_any [OF assms] r by (auto simp: write_outcome_def spec_update_def split: option.splits if_splits)
qed

lemma bus_delete_sound:
  assumes "rep (wd_store w) us" "typed_user u" "bus_delete api w u = (None, w')"
  shows "rep (wd_store w') (filter (\<lambda>v. u_id v \<noteq> u_id u) us)"
proof -
  obtain r s' where r: "sa_delete api (wd_store w) u = (r, s')" by fastforce
  then show ?thesis
    using delete_any [OF assms(1,2)] assms(3)
    by (auto simp: bus_delete_def write_outcome_def spec_delete_def split: option.splits)
qed

lemma bus_list_up:
  assumes "rep (wd_store w) us" "up (wd_store w)" "wf_order ord" "wf_page p" "pg_rows p \<le> max_safe_rows"
    and "filter_ok f"
  shows "\<exists>s' vs. listing (coll (wd_store w)) f ord us vs \<and>
    bus_query api w f ord p = (Ok (page_of p vs), w\<lparr>wd_store := s'\<rparr>) \<and> rep s' us \<and> up s' \<and> coll s' = coll (wd_store w)"
  using query_up [OF assms] by (fastforce simp: bus_query_def)

lemma bus_count_up:
  assumes "rep (wd_store w) us" "up (wd_store w)" "filter_ok f"
  shows "\<exists>s'. bus_count api w f = (Ok (spec_count f us), w\<lparr>wd_store := s'\<rparr>) \<and>
    rep s' us \<and> up s' \<and> coll s' = coll (wd_store w)"
  using count_up [OF assms] by (auto simp: bus_count_def)

end

section \<open>The bus over a store that others use too\<close>

context kept_store
begin

lemma bus_create_good:
  assumes "good (wd_store w)" "rand_law E" "wf_roles (nu_roles nu)"
  shows "good (wd_store (snd (bus_create E api w nu)))"
proof (cases "length (nu_password nu) \<le> 72")
  case True
  then show ?thesis
    using create_good [OF assms(1) created_user_typed [OF assms(2,3)], of "reads w"]
    by (auto simp: bus_create_store split: prod.splits option.splits)
next
  case False
  then show ?thesis using assms(1) bus_create_too_long [of nu E api w] by auto
qed

lemma bus_update_good:
  assumes "good (wd_store w)" "typed_user (final_update E (reads w) upd usr)"
  shows "good (wd_store (snd (bus_update E api w usr upd)))"
proof (cases "\<exists>p. uu_password upd = Some p \<and> length p > 72")
  case True
  then show ?thesis using assms(1) bus_update_too_long [of upd _ E api w usr] by auto
next
  case False
  then have "\<forall>p. uu_password upd = Some p \<longrightarrow> length p \<le> 72" by auto
  then show ?thesis
    using update_good [OF assms] by (auto simp: bus_update_store split: prod.splits option.splits)
qed

lemma bus_delete_good: "good (wd_store w) \<Longrightarrow> typed_user u \<Longrightarrow> good (wd_store (snd (bus_delete api w u)))"
  using delete_good [of "wd_store w" u] by (auto simp: bus_delete_def split: prod.splits option.splits)

lemma bus_by_id_good:
  assumes "good (wd_store w)" "bus_query_by_id api w i = (r, w')"
  shows "good (wd_store w')" "wf_uuid i \<Longrightarrow> r = Ok u \<Longrightarrow> typed_user u"
  using by_id_good [OF assms(1), of i] by_id_typed [OF assms(1), of i u] assms(2)
  by (auto simp: bus_query_by_id_def split: prod.splits sum.splits)

lemma bus_by_email_good: "good (wd_store w) \<Longrightarrow> good (wd_store (snd (bus_query_by_email api w m)))"
  using by_email_good [of "wd_store w" m] by (auto simp: bus_query_by_email_def split: prod.splits sum.splits)

lemma bus_authenticate_good: "good (wd_store w) \<Longrightarrow> good (wd_store (snd (bus_authenticate E api w m p)))"
  using by_email_good [of "wd_store w" m] by (auto simp: bus_authenticate_def split: prod.splits sum.splits option.splits)

lemma bus_query_good: "good (wd_store w) \<Longrightarrow> good (wd_store (snd (bus_query api w f ord p)))"
  using query_good [of "wd_store w" f ord p] by (auto simp: bus_query_def split: prod.splits sum.splits)

lemma bus_count_good: "good (wd_store w) \<Longrightarrow> good (wd_store (snd (bus_count api w f)))"
  using count_good [of "wd_store w" f] by (auto simp: bus_count_def split: prod.splits)

end

section \<open>An environment to evaluate on\<close>

text \<open>A hash that writes the two halves of each byte as letters.\<close>

definition sample_hash :: "string \<Rightarrow> string" where
  "sample_hash p = concat (map (\<lambda>c. [char_of (65 + byte_of c div 16), char_of (65 + byte_of c mod 16)]) p)"

definition sample_env :: env where
  "sample_env =
     \<lparr>now_at = (\<lambda>n. int (n mod 1000) * 1000000000), rand_at = (\<lambda>n. replicate 16 (of_nat n)),
      bcrypt_hash = (\<lambda>n p. sample_hash p),
      bcrypt_compare = (\<lambda>h p. if h = sample_hash p then None
                             else Some (ErrPlain ''hashedPassword is not the hash of the given password''))\<rparr>"

lemma of_char_letter: "d < 16 \<Longrightarrow> (of_char (char_of (65 + d :: nat) :: char) :: nat) = 65 + d"
  by simp

lemma letter_eq: "d < 16 \<Longrightarrow> e < 16 \<Longrightarrow> (char_of (65 + d) :: char) = char_of (65 + e) \<longleftrightarrow> d = (e :: nat)"
  by (metis add_left_cancel of_char_letter)

lemma halves_eq: "(m :: nat) div 16 = n div 16 \<Longrightarrow> m mod 16 = n mod 16 \<Longrightarrow> m = n"
  by (metis div_mult_mod_eq)

lemma sample_hash_inj: "sample_hash p = sample_hash q \<Longrightarrow> p = q"
proof (induction p arbitrary: q)
  case Nil
  then show ?case by (cases q) (auto simp: sample_hash_def)
next
  case (Cons c p)
  then obtain d q' where q: "q = d # q'" by (cases q) (auto simp: sample_hash_def)
  have lt: "of_char c < (256 :: nat)" "of_char d < (256 :: nat)" by (rule nat_of_char_less_256)+
  have "(of_char c :: nat) div 16 = of_char d div 16" "(of_char c :: nat) mod 16 = of_char d mod 16"
    "sample_hash p = sample_hash q'"
    using Cons.prems letter_eq [of "of_char c div 16" "of_char d div 16"]
      letter_eq [of "of_char c mod 16" "of_char d mod 16"] lt
    by (simp_all add: q sample_hash_def)
  then show ?case using Cons.IH halves_eq [of "of_char c" "of_char d"] by (simp add: q)
qed

lemma sample_hash_text: "text_ok (sample_hash p)"
proof (rule text_ok_ascii, induction p)
  case (Cons c p)
  have "of_char c div 16 < (16 :: nat)" "of_char c mod 16 < (16 :: nat)"
    using less_mult_imp_div_less [of "of_char c" 16 16] nat_of_char_less_256 [of c] by simp_all
  then show ?case using Cons of_char_letter by (simp add: sample_hash_def)
qed (simp add: sample_hash_def)

lemma sample_env_laws [simp]: "bcrypt_law sample_env" "rand_law sample_env"
  using sample_hash_inj by (auto simp: bcrypt_law_def rand_law_def sample_env_def sample_hash_text wf_uuid_def)

end
