(* ===== verification/Metrics.thy ===== *)
theory Metrics
  imports Interleaving
begin

text \<open>
  \<^verbatim>\<open>internal/metrics/metrics.go\<close>: four counters of \<^verbatim>\<open>expvar.Int\<close>, 64-bit integers that are added to
  and read atomically, one operation at a time.
\<close>

record metrics =
  me_goroutines :: int
  me_requests :: int
  me_errors :: int
  me_panics :: int

definition metrics_new :: metrics where
  "metrics_new = \<lparr>me_goroutines = 0, me_requests = 0, me_errors = 0, me_panics = 0\<rparr>"

text \<open>\<open>gs\<close> is what \<^verbatim>\<open>runtime.NumGoroutine\<close> reports.\<close>

definition add_goroutine :: "int \<Rightarrow> metrics \<Rightarrow> int \<times> metrics" where
  "add_goroutine gs m = (gs, m\<lparr>me_goroutines := wrap64 (me_goroutines m + gs)\<rparr>)"

text \<open>\<^verbatim>\<open>AddRequest\<close> is an atomic addition followed by an atomic read, with anything in between.\<close>

definition requests_add :: "metrics \<Rightarrow> metrics" where
  "requests_add m = m\<lparr>me_requests := wrap64 (me_requests m + 1)\<rparr>"

definition requests_value :: "(metrics, int) prog" where
  "requests_value = Atomic id (\<lambda>m. Return (me_requests m))"

definition add_request_prog :: "(metrics, int) prog" where
  "add_request_prog = Atomic requests_add (\<lambda>m. requests_value)"

text \<open>A request that is alone.\<close>

definition add_request :: "metrics \<Rightarrow> int \<times> metrics" where
  "add_request m = run_prog add_request_prog m"

definition add_panic :: "metrics \<Rightarrow> int \<times> metrics" where
  "add_panic m = (let m = m\<lparr>me_panics := wrap64 (me_panics m + 1)\<rparr> in (me_panics m, m))"

definition add_error :: "metrics \<Rightarrow> int \<times> metrics" where
  "add_error m = (let m = m\<lparr>me_errors := wrap64 (me_errors m + 1)\<rparr> in (me_errors m, m))"

lemma add_request_alone:
  "add_request m = (let m = m\<lparr>me_requests := wrap64 (me_requests m + 1)\<rparr> in (me_requests m, m))"
  by (simp add: add_request_def add_request_prog_def requests_value_def requests_add_def Let_def)

section \<open>Requests at the same time\<close>

lemma wrap64_Suc: "wrap64 (wrap64 x + 1) = wrap64 (x + 1)"
proof -
  have "(word_of_int (sint (word_of_int x :: 64 word) + 1) :: 64 word) = word_of_int (x + 1)"
    by (simp add: wi_hom_syms)
  then show ?thesis by (simp add: wrap64_def)
qed

lemma wrap64_nat: "k < 2 ^ 63 \<Longrightarrow> wrap64 (int k) = int k"
  by (rule wrap64_id) (simp add: in_int64_def)

text \<open>A request that has added is no longer what it was.\<close>

lemma requests_add_not_id: "requests_add \<noteq> id"
proof
  assume "requests_add = id"
  then have "me_requests (requests_add metrics_new) = me_requests metrics_new" by simp
  then show False using wrap64_nat [of 1] by (simp add: requests_add_def metrics_new_def)
qed

lemma has_added: "requests_value \<noteq> add_request_prog" "Return v \<noteq> add_request_prog"
  using requests_add_not_id by (auto simp: requests_value_def add_request_prog_def)

definition added :: "(metrics, int) prog list \<Rightarrow> nat" where
  "added ps = length (filter (\<lambda>p. p \<noteq> add_request_prog) ps)"

text \<open>
  Every request counts once: the counter is the number of those that have added, and what one reads
  is at least 1 and at most the counter, as long as the counter has not wrapped.
\<close>

definition counting :: "metrics \<times> (metrics, int) prog list \<Rightarrow> bool" where
  "counting = (\<lambda>(m, ps). me_requests m = wrap64 (int (added ps)) \<and>
     (\<forall>p \<in> set ps. p \<in> {add_request_prog, requests_value} \<or>
        (\<exists>v. p = Return v \<and> (length ps < 2 ^ 63 \<longrightarrow> 1 \<le> v \<and> v \<le> int (added ps)))))"

lemma added_update:
  "i < length ps \<Longrightarrow> added (ps[i := p]) + of_bool (ps ! i \<noteq> add_request_prog) = added ps + of_bool (p \<noteq> add_request_prog)"
proof -
  assume i: "i < length ps"
  have "added ps = added (take i ps) + added (ps ! i # drop (Suc i) ps)"
    unfolding added_def using id_take_nth_drop [OF i] by (metis filter_append length_append)
  moreover have "added (ps[i := p]) = added (take i ps) + added (p # drop (Suc i) ps)"
    unfolding added_def upd_conv_take_nth_drop [OF i] by simp
  ultimately show ?thesis by (simp add: added_def)
qed

lemma added_le: "added ps \<le> length ps"
  by (simp add: added_def)

lemma counting_turn:
  assumes "prog_turn s t" "counting s"
  shows "counting t"
  using assms(1)
proof cases
  case (turn i ps m p m')
  have c: "me_requests m = wrap64 (int (added ps))"
    and all: "\<forall>p \<in> set ps. p \<in> {add_request_prog, requests_value} \<or>
      (\<exists>v. p = Return v \<and> (length ps < 2 ^ 63 \<longrightarrow> 1 \<le> v \<and> v \<le> int (added ps)))"
    using assms(2) turn(1) by (auto simp: counting_def)
  have old: "added (ps[i := p]) = added ps + of_bool (ps ! i = add_request_prog)" if "p \<noteq> add_request_prog"
    using added_update [OF turn(3), of p] that by (cases "ps ! i = add_request_prog") auto
  have keep: "p' \<in> {add_request_prog, requests_value} \<or>
      (\<exists>v. p' = Return v \<and> (length ps < 2 ^ 63 \<longrightarrow> 1 \<le> v \<and> v \<le> int n))"
    if "p' \<in> set ps" "added ps \<le> n" for p' n
    using all that by fastforce
  have rest: "p' = p \<or> p' \<in> set ps" if "p' \<in> set (ps[i := p])" for p'
    using that set_update_subset_insert [of ps i p] by blast
  have "ps ! i \<in> set ps" using turn(3) by simp
  with all consider "ps ! i = add_request_prog" | "ps ! i = requests_value" |
    v where "ps ! i = Return v" by blast
  then show ?thesis
  proof cases
    case 1
    then have p: "p = requests_value" "m' = requests_add m" using turn(4) by (simp_all add: add_request_prog_def)
    have n: "added (ps[i := p]) = Suc (added ps)" using old has_added(1) 1 p by simp
    have "me_requests m' = wrap64 (int (Suc (added ps)))"
      using wrap64_Suc [of "int (added ps)"] by (simp add: p requests_add_def c add.commute)
    moreover have "p' \<in> {add_request_prog, requests_value} \<or>
        (\<exists>v. p' = Return v \<and> (length ps < 2 ^ 63 \<longrightarrow> 1 \<le> v \<and> v \<le> int (Suc (added ps))))"
      if "p' \<in> set (ps[i := p])" for p'
      using rest [OF that] keep [of p' "Suc (added ps)"] p(1) by auto
    ultimately show ?thesis unfolding turn(2) counting_def prod.case length_list_update n by blast
  next
    case 2
    then have p: "p = Return (me_requests m)" "m' = m" using turn(4) by (auto simp: requests_value_def)
    have n: "added (ps[i := p]) = added ps" using old has_added 2 p by simp
    have pos: "0 < added ps"
      using 2 has_added(1) \<open>ps ! i \<in> set ps\<close> by (auto simp: added_def length_filter_conv_card card_gt_0_iff in_set_conv_nth)
    have "1 \<le> me_requests m \<and> me_requests m \<le> int (added ps)" if "length ps < 2 ^ 63"
      using that pos wrap64_nat [of "added ps"] added_le [of ps] c by simp
    moreover have "p' \<in> {add_request_prog, requests_value} \<or>
        (\<exists>v. p' = Return v \<and> (length ps < 2 ^ 63 \<longrightarrow> 1 \<le> v \<and> v \<le> int (added ps)))"
      if "p' \<in> set ps" for p'
      using keep that by blast
    ultimately show ?thesis
      using rest c p unfolding turn(2) counting_def prod.case length_list_update n by blast
  next
    case 3
    then have "p = ps ! i" "m' = m" using turn(4) by simp_all
    then have "ps[i := p] = ps" by simp
    then show ?thesis using assms(2) turn(1,2) \<open>m' = m\<close> by simp
  qed
qed

lemma counting_reachable:
  assumes "prog_turn\<^sup>*\<^sup>* (metrics_new, replicate n add_request_prog) s"
  shows "counting s"
  using assms
proof (induction rule: rtranclp_induct)
  case base
  have "added (replicate n add_request_prog) = 0" by (simp add: added_def)
  then show ?case using wrap64_nat [of 0] by (simp add: counting_def metrics_new_def)
qed (rule counting_turn)

text \<open>One request after the other: the first \<open>k\<close> get the values up to \<open>k\<close>.\<close>

definition answered :: "nat \<Rightarrow> (metrics, int) prog list" where
  "answered k = map (\<lambda>i. Return (int (Suc i))) [0..<k]"

lemma requests_in_turn:
  "k \<le> n \<Longrightarrow> n < 2 ^ 63 \<Longrightarrow> \<exists>m. me_requests m = int k \<and>
     prog_turn\<^sup>*\<^sup>* (metrics_new, replicate n add_request_prog) (m, answered k @ replicate (n - k) add_request_prog)"
proof (induction k)
  case 0
  then show ?case by (intro exI [of _ metrics_new]) (simp add: metrics_new_def answered_def)
next
  case (Suc k)
  then obtain m where m: "me_requests m = int k"
    "prog_turn\<^sup>*\<^sup>* (metrics_new, replicate n add_request_prog) (m, answered k @ replicate (n - k) add_request_prog)"
    by auto
  let ?ps = "answered k @ replicate (n - k) add_request_prog"
  have rep: "replicate (n - k) add_request_prog = add_request_prog # replicate (n - Suc k) add_request_prog"
    using Suc.prems(1) by (metis Suc_diff_Suc Suc_le_lessD replicate_Suc)
  have len: "length (answered k) = k" by (simp add: answered_def)
  have w: "wrap64 (int k + 1) = int (Suc k)" using wrap64_nat [of "Suc k"] Suc.prems by (simp add: add.commute)
  then have run: "run_prog add_request_prog m = (int (Suc k), requests_add m)"
    by (simp add: add_request_prog_def requests_value_def requests_add_def m(1))
  have "?ps[k := add_request_prog] = ?ps" using rep len by (simp add: list_update_append)
  moreover have "?ps[k := Return (int (Suc k))] = answered (Suc k) @ replicate (n - Suc k) add_request_prog"
    unfolding rep using len by (simp add: list_update_append answered_def)
  ultimately have "prog_turn\<^sup>*\<^sup>* (m, ?ps) (requests_add m, answered (Suc k) @ replicate (n - Suc k) add_request_prog)"
    using run_in_pool [of k ?ps, OF _ run] len Suc.prems(1) by simp
  then show ?case
    using m(2) w by (intro exI [of _ "requests_add m"]) (auto simp: requests_add_def m(1) intro: rtranclp_trans)
qed

text \<open>Two requests that both add before they read.\<close>

lemma two_at_once:
  assumes "me_requests m = int k" "k + 2 < 2 ^ 63" "length ps = k"
  shows "\<exists>m'. prog_turn\<^sup>*\<^sup>* (m, ps @ [add_request_prog, add_request_prog])
    (m', ps @ [Return (int (k + 2)), Return (int (k + 2))])"
proof -
  let ?m = "requests_add (requests_add m)"
  have val: "me_requests ?m = int (k + 2)"
    using assms(1,2) wrap64_nat [of "k + 1"] wrap64_nat [of "k + 2"] by (simp add: requests_add_def add.commute)
  have at: "prog_turn (s, ps @ xs) (u s, ps @ xs[j := q s])" if "j < length xs" "xs ! j = Atomic u q" for s xs u q j
    using prog_turn_at [of "k + j" "ps @ xs" u q s] that assms(3) by (simp add: nth_append list_update_append)
  have "prog_turn (m, ps @ [add_request_prog, add_request_prog]) (requests_add m, ps @ [requests_value, add_request_prog])"
    using at [of 0 "[add_request_prog, add_request_prog]" requests_add "\<lambda>m. requests_value" m]
    by (simp add: add_request_prog_def)
  moreover have "prog_turn (requests_add m, ps @ [requests_value, add_request_prog]) (?m, ps @ [requests_value, requests_value])"
    using at [of 1 "[requests_value, add_request_prog]" requests_add "\<lambda>m. requests_value" "requests_add m"]
    by (simp add: add_request_prog_def)
  moreover have "prog_turn (?m, ps @ [requests_value, requests_value]) (?m, ps @ [Return (int (k + 2)), requests_value])"
    using at [of 0 "[requests_value, requests_value]" id "\<lambda>m. Return (me_requests m)" ?m] val
    by (simp add: requests_value_def)
  moreover have "prog_turn (?m, ps @ [Return (int (k + 2)), requests_value]) (?m, ps @ [Return (int (k + 2)), Return (int (k + 2))])"
    using at [of 1 "[Return (int (k + 2)), requests_value]" id "\<lambda>m. Return (me_requests m)" ?m] val
    by (simp add: requests_value_def)
  ultimately show ?thesis by (intro exI [of _ ?m]) (meson rtranclp.rtrancl_refl rtranclp.rtrancl_into_rtrancl)
qed

text \<open>
  C40: However requests interleave, the counter of requests is the number of those that have added, modulo
  \<open>2 ^ 64\<close>, and every value that \<^verbatim>\<open>AddRequest\<close> returns lies between 1 and the counter. But the
  addition and the read are two operations: two requests at the same time can both read the second
  value, so the value between, of which every thousandth triggers the count of goroutines, is seen by
  nobody.
\<close>

theorem requests_counted:
  assumes "prog_turn\<^sup>*\<^sup>* (metrics_new, replicate n add_request_prog) (m, ps)"
  shows "me_requests m = wrap64 (int (length (filter (\<lambda>p. p \<noteq> add_request_prog) ps))) \<and>
    (n < 2 ^ 63 \<longrightarrow> (\<forall>v. Return v \<in> set ps \<longrightarrow> 1 \<le> v \<and> v \<le> me_requests m)) \<and>
    (\<forall>k. k + 2 < 2 ^ 63 \<longrightarrow>
       (\<exists>m' vs. prog_turn\<^sup>*\<^sup>* (metrics_new, replicate (k + 2) add_request_prog) (m', map Return vs) \<and>
          length vs = k + 2 \<and> int (k + 1) \<notin> set vs))"
proof (intro conjI allI impI)
  have inv: "counting (m, ps)" using assms by (rule counting_reachable)
  then show c: "me_requests m = wrap64 (int (length (filter (\<lambda>p. p \<noteq> add_request_prog) ps)))"
    by (simp add: counting_def added_def)
  have len: "length ps = n"
  proof -
    have "length (snd t) = length (snd s)" if "prog_turn\<^sup>*\<^sup>* s t" for s t :: "metrics \<times> (metrics, int) prog list"
      using that by (induction rule: rtranclp_induct) (auto elim: prog_turn.cases)
    from this [OF assms] show ?thesis by simp
  qed
  show "1 \<le> v" "v \<le> me_requests m" if "n < 2 ^ 63" "Return v \<in> set ps" for v
    using inv that len has_added(2) [of v] added_le [of ps] wrap64_nat [of "added ps"]
    by (force simp: counting_def requests_value_def)+
next
  fix k :: nat
  assume k: "k + 2 < 2 ^ 63"
  obtain m where m: "me_requests m = int k" "prog_turn\<^sup>*\<^sup>* (metrics_new, replicate (k + 2) add_request_prog)
      (m, answered k @ [add_request_prog, add_request_prog])"
    using requests_in_turn [of k "k + 2"] k by (auto simp: numeral_2_eq_2)
  obtain m' where "prog_turn\<^sup>*\<^sup>* (m, answered k @ [add_request_prog, add_request_prog])
      (m', answered k @ [Return (int (k + 2)), Return (int (k + 2))])"
    using two_at_once [OF m(1) k, of "answered k"] by (auto simp: answered_def)
  with m(2) have reach: "prog_turn\<^sup>*\<^sup>* (metrics_new, replicate (k + 2) add_request_prog)
      (m', answered k @ [Return (int (k + 2)), Return (int (k + 2))])"
    by (rule rtranclp_trans)
  have "map Return (map (\<lambda>i. int (Suc i)) [0..<k] @ [int (k + 2), int (k + 2)]) =
      answered k @ [Return (int (k + 2)), Return (int (k + 2))]"
    by (simp add: answered_def)
  with reach have "prog_turn\<^sup>*\<^sup>* (metrics_new, replicate (k + 2) add_request_prog)
      (m', map Return (map (\<lambda>i. int (Suc i)) [0..<k] @ [int (k + 2), int (k + 2)]))"
    by (simp only:)
  then show "\<exists>m' vs. prog_turn\<^sup>*\<^sup>* (metrics_new, replicate (k + 2) add_request_prog) (m', map Return vs) \<and>
      length vs = k + 2 \<and> int (k + 1) \<notin> set vs"
    by (intro exI [of _ m'] exI [of _ "map (\<lambda>i. int (Suc i)) [0..<k] @ [int (k + 2), int (k + 2)]"]) auto
qed

theorem requests_counted_witness:
  "\<exists>m. prog_turn\<^sup>*\<^sup>* (metrics_new, [add_request_prog]) (m, [Return 1]) \<and> me_requests m = 1 \<and>
     (\<exists>m' vs. prog_turn\<^sup>*\<^sup>* (metrics_new, replicate 1001 add_request_prog) (m', map Return vs) \<and>
        length vs = 1001 \<and> 1000 \<notin> set vs)"
proof -
  obtain m where m: "prog_turn\<^sup>*\<^sup>* (metrics_new, replicate 1 add_request_prog) (m, [Return 1])"
    using requests_in_turn [of 1 1] by (auto simp: answered_def)
  note c = requests_counted [OF m]
  have "\<exists>m' vs. prog_turn\<^sup>*\<^sup>* (metrics_new, replicate (999 + 2) add_request_prog) (m', map Return vs) \<and>
      length vs = 999 + 2 \<and> int (999 + 1) \<notin> set vs"
    by (rule c [THEN conjunct2, THEN conjunct2, rule_format]) simp
  moreover have "me_requests m = 1" using c wrap64_nat [of 1] has_added(2) [of 1] by simp
  ultimately show ?thesis using m by (intro exI [of _ m]) simp
qed

end
