(* ===== verification/Logger.thy ===== *)
theory Logger
  imports GoStrings
begin

text \<open>
  \<^verbatim>\<open>pkg/logger/logger.go\<close> over \<^verbatim>\<open>log/slog\<close>, and \<^verbatim>\<open>pkg/telemetry/context.go\<close>: levels, the discard flag,
  the call position that is found by skipping frames, the trace id that every record ends with, the
  attributes that \<^verbatim>\<open>Record.Add\<close> makes of the arguments. The output is the list of records; their text
  and time are not modelled.
\<close>

type_synonym level = int

definition LevelDebug :: level where "LevelDebug = - 4"
definition LevelInfo :: level where "LevelInfo = 0"
definition LevelWarn :: level where "LevelWarn = 4"
definition LevelError :: level where "LevelError = 8"

text \<open>A value is a string, one that is printed, or the source position of the call.\<close>

datatype log_val = LStr string | LAny string | LSource string int

type_synonym log_attr = "string \<times> log_val"

record log_record =
  lr_level :: level
  lr_msg :: string
  lr_attrs :: "log_attr list"

section \<open>The handler\<close>

record log_handler =
  lh_min_level :: level
  lh_attrs :: "log_attr list"

definition replace_attr :: "log_attr \<Rightarrow> log_attr" where
  "replace_attr a =
     (if fst a = ''source''
      then (case snd a of
              LSource file line \<Rightarrow> (''file'', LStr (filepath_base file @ '':'' @ itoa line))
            | _ \<Rightarrow> a)
      else a)"

definition create_handler :: "string \<Rightarrow> level \<Rightarrow> log_handler" where
  "create_handler service min_level =
     \<lparr>lh_min_level = min_level, lh_attrs = [(''service'', LStr service)]\<rparr>"

definition handler_enabled :: "log_handler \<Rightarrow> level \<Rightarrow> bool" where
  "handler_enabled h lv \<longleftrightarrow> lh_min_level h \<le> lv"

definition handle_record ::
  "log_handler \<Rightarrow> log_record \<Rightarrow> log_val \<Rightarrow> log_record list \<Rightarrow> log_record list" where
  "handle_record h r src out =
     out @ [r\<lparr>lr_attrs := map replace_attr ((''source'', src) # lh_attrs h @ lr_attrs r)\<rparr>]"

section \<open>The logger\<close>

text \<open>
  \<open>lg_trace\<close> is the function that finds the trace id of a request's context, if there is one. A call
  comes with its context: the trace id, the frame of \<^verbatim>\<open>runtime.Callers\<close> itself and the frames of the
  caller, innermost first.
\<close>

type_synonym frame = "string \<times> int"

record log_ctx =
  lc_trace :: "string option"
  lc_runtime :: frame
  lc_stack :: "frame list"

record logger =
  lg_handler :: log_handler
  lg_discard :: bool
  lg_trace :: "(string option \<Rightarrow> string) option"

definition logger_new ::
  "bool \<Rightarrow> level \<Rightarrow> string \<Rightarrow> (string option \<Rightarrow> string) option \<Rightarrow> logger" where
  "logger_new is_discard min_level service trace_fn =
     \<lparr>lg_handler = create_handler service min_level, lg_discard = is_discard, lg_trace = trace_fn\<rparr>"

text \<open>\<^verbatim>\<open>Record.Add\<close>: a string is the key of what follows; anything else, or a last string, has none.\<close>

fun add_attrs :: "log_val list \<Rightarrow> log_attr list" where
  "add_attrs [] = []"
| "add_attrs [LStr k] = [(''!BADKEY'', LStr k)]"
| "add_attrs (LStr k # v # vs) = (k, v) # add_attrs vs"
| "add_attrs (v # vs) = (''!BADKEY'', v) # add_attrs vs"

text \<open>\<^verbatim>\<open>runtime.Callers\<close> into an array of one; no frame is the zero source.\<close>

definition callers :: "int \<Rightarrow> frame list \<Rightarrow> log_val" where
  "callers skip fs = (case drop (nat skip) fs of [] \<Rightarrow> LSource [] 0 | (f, l) # _ \<Rightarrow> LSource f l)"

text \<open>\<open>here\<close> is the frame of the method that calls \<^verbatim>\<open>write\<close>.\<close>

definition log_write ::
  "logger \<Rightarrow> frame \<Rightarrow> log_ctx \<Rightarrow> level \<Rightarrow> int \<Rightarrow> string \<Rightarrow> log_val list \<Rightarrow> log_record list \<Rightarrow> log_record list" where
  "log_write L here ctx lv skip_stack msg args out =
     (if \<not> handler_enabled (lg_handler L) lv then out
      else (let pc = callers skip_stack (lc_runtime ctx # (''logger.go'', 158) # here # lc_stack ctx);
                args = (case lg_trace L of None \<Rightarrow> args
                        | Some f \<Rightarrow> args @ [LStr ''traceID'', LStr (f (lc_trace ctx))])
            in handle_record (lg_handler L) \<lparr>lr_level = lv, lr_msg = msg, lr_attrs = add_attrs args\<rparr> pc out))"

type_synonym log_method =
  "logger \<Rightarrow> log_ctx \<Rightarrow> string \<Rightarrow> log_val list \<Rightarrow> log_record list \<Rightarrow> log_record list"

definition log_debug :: log_method where
  "log_debug L ctx msg args out =
     (if lg_discard L then out else log_write L (''logger.go'', 63) ctx LevelDebug 3 msg args out)"

definition log_debugc :: "int \<Rightarrow> log_method" where
  "log_debugc caller L ctx msg args out =
     (if lg_discard L then out else log_write L (''logger.go'', 72) ctx LevelDebug caller msg args out)"

definition log_info :: log_method where
  "log_info L ctx msg args out =
     (if lg_discard L then out else log_write L (''logger.go'', 81) ctx LevelInfo 3 msg args out)"

definition log_infoc :: "int \<Rightarrow> log_method" where
  "log_infoc caller L ctx msg args out =
     (if lg_discard L then out else log_write L (''logger.go'', 90) ctx LevelInfo caller msg args out)"

definition log_warn :: log_method where
  "log_warn L ctx msg args out =
     (if lg_discard L then out else log_write L (''logger.go'', 99) ctx LevelWarn 3 msg args out)"

definition log_warnc :: "int \<Rightarrow> log_method" where
  "log_warnc caller L ctx msg args out =
     (if lg_discard L then out else log_write L (''logger.go'', 108) ctx LevelWarn caller msg args out)"

definition log_error :: log_method where
  "log_error L ctx msg args out =
     (if lg_discard L then out else log_write L (''logger.go'', 117) ctx LevelError 3 msg args out)"

definition log_errorc :: "int \<Rightarrow> log_method" where
  "log_errorc caller L ctx msg args out =
     (if lg_discard L then out else log_write L (''logger.go'', 126) ctx LevelError caller msg args out)"

lemmas log_method_defs = log_debug_def log_debugc_def log_info_def log_infoc_def log_warn_def log_warnc_def
  log_error_def log_errorc_def

text \<open>
  \<^verbatim>\<open>StdLogger\<close>: a line that is printed to it is one record at its level. It has no position, since the
  flags of the \<^verbatim>\<open>log\<close> package ask for none, and the discard flag is not looked at.
\<close>

definition std_logger_print :: "logger \<Rightarrow> level \<Rightarrow> string \<Rightarrow> log_record list \<Rightarrow> log_record list" where
  "std_logger_print L lv msg out =
     (if \<not> handler_enabled (lg_handler L) lv then out
      else handle_record (lg_handler L) \<lparr>lr_level = lv, lr_msg = trim_suffix msg [CHR 10], lr_attrs = []\<rparr> (LSource [] 0) out)"

section \<open>The trace id of a context\<close>

definition default_trace_id :: string where
  "default_trace_id = replicate 32 CHR ''0''"

definition get_trace_id :: "string option \<Rightarrow> string" where
  "get_trace_id ctx = (case ctx of Some v \<Rightarrow> v | None \<Rightarrow> default_trace_id)"

definition set_trace_id :: "string option \<Rightarrow> string \<Rightarrow> string option" where
  "set_trace_id ctx trace_id = Some trace_id"

lemma get_set_trace_id [simp]: "get_trace_id (set_trace_id ctx t) = t"
  by (simp add: get_trace_id_def set_trace_id_def)

text \<open>Key and value pairs with string keys become the attributes they look like.\<close>

fun flat_pairs :: "(string \<times> log_val) list \<Rightarrow> log_val list" where
  "flat_pairs [] = []"
| "flat_pairs ((k, v) # ps) = LStr k # v # flat_pairs ps"

lemma add_attrs_pairs: "add_attrs (flat_pairs ps) = ps"
  by (induction ps rule: flat_pairs.induct) simp_all

lemma flat_pairs_append: "flat_pairs (ps @ qs) = flat_pairs ps @ flat_pairs qs"
  by (induction ps rule: flat_pairs.induct) simp_all

text \<open>A record that is written: the position of the caller, the service, the arguments, the trace id.\<close>

lemma log_write_record:
  assumes "lh_min_level (lg_handler L) \<le> lv" "lg_trace L = Some f" "lc_stack ctx = (file, line) # st"
    and "list_all (\<lambda>(k, v). k \<noteq> ''source'') ps" "list_all (\<lambda>(k, v). k \<noteq> ''source'') (lh_attrs (lg_handler L))"
  shows "log_write L here ctx lv 3 msg (flat_pairs ps) out =
    out @ [\<lparr>lr_level = lv, lr_msg = msg,
            lr_attrs = (''file'', LStr (filepath_base file @ '':'' @ itoa line)) # lh_attrs (lg_handler L) @ ps
              @ [(''traceID'', LStr (f (lc_trace ctx)))]\<rparr>]"
proof -
  have id: "map replace_attr as = as" if "list_all (\<lambda>(k, v). k \<noteq> ''source'') as" for as
    using that by (induction as) (auto simp: replace_attr_def)
  have "flat_pairs ps @ [LStr ''traceID'', LStr (f (lc_trace ctx))] =
      flat_pairs (ps @ [(''traceID'', LStr (f (lc_trace ctx)))])"
    by (simp add: flat_pairs_append)
  then show ?thesis
    using assms
    by (simp add: log_write_def handler_enabled_def callers_def handle_record_def add_attrs_pairs id)
      (simp add: replace_attr_def)
qed

lemma log_write_length:
  "length (log_write L here ctx lv skip_stack msg args out) =
     (if lv < lh_min_level (lg_handler L) then length out else Suc (length out))"
  by (simp add: log_write_def handler_enabled_def handle_record_def Let_def)

text \<open>
  A call of \<^verbatim>\<open>Info\<close> with key and value pairs writes nothing when the logger discards or its level is
  above \<^verbatim>\<open>INFO\<close>; otherwise exactly one record, after those before it, with the file name and line of the
  caller, the service, the pairs in order and, at the end, the trace id of the context.
\<close>

lemma info_record:
  assumes "lg_trace L = Some f" "lc_stack ctx = (file, line) # st" "lg_handler L = create_handler service min_level"
    and "list_all (\<lambda>(k, v). k \<noteq> ''source'') ps"
  shows "log_info L ctx msg (flat_pairs ps) out =
    (if lg_discard L \<or> LevelInfo < min_level then out
     else out @ [\<lparr>lr_level = LevelInfo, lr_msg = msg,
       lr_attrs = [(''file'', LStr (filepath_base file @ '':'' @ itoa line)), (''service'', LStr service)] @ ps
         @ [(''traceID'', LStr (f (lc_trace ctx)))]\<rparr>])"
proof (cases "lg_discard L \<or> LevelInfo < min_level")
  case True
  then show ?thesis
    using assms(3) by (auto simp: log_info_def log_write_def handler_enabled_def create_handler_def)
next
  case False
  then show ?thesis
    using log_write_record [OF _ assms(1,2,4), of LevelInfo "(''logger.go'', 81)" msg out] assms
    by (simp add: log_info_def create_handler_def)
qed

lemma info_record_witness:
  "log_info (logger_new False LevelInfo ''jumble'' (Some get_trace_id))
     \<lparr>lc_trace = Some ''4bf9'', lc_runtime = (''extern.go'', 333), lc_stack = [(''/app/cmd/main.go'', 57)]\<rparr>
     ''starting'' [LStr ''port'', LAny ''8000''] [] =
   [\<lparr>lr_level = LevelInfo, lr_msg = ''starting'',
     lr_attrs = [(''file'', LStr ''main.go:57''), (''service'', LStr ''jumble''), (''port'', LAny ''8000''),
       (''traceID'', LStr ''4bf9'')]\<rparr>]"
proof -
  have b: "filepath_base ''/app/cmd/main.go'' @ '':'' @ itoa 57 = ''main.go:57''" by code_simp
  show ?thesis
    using info_record [of "logger_new False LevelInfo ''jumble'' (Some get_trace_id)" get_trace_id
        "\<lparr>lc_trace = Some ''4bf9'', lc_runtime = (''extern.go'', 333), lc_stack = [(''/app/cmd/main.go'', 57)]\<rparr>"
        "''/app/cmd/main.go''" 57 "[]" "''jumble''" LevelInfo "[(''port'', LAny ''8000'')]" "''starting''" "[]"]
    unfolding b by (simp add: logger_new_def get_trace_id_def)
qed

end
