(* ===== verification/Middleware.thy ===== *)
theory Middleware
  imports Gin Auth AppModels UserBus Metrics Logger
begin

text \<open>
  \<^verbatim>\<open>internal/mid\<close>: the state of the application that a request works on, its configuration, and the
  seven middlewares. Each is a handler of \<open>Gin\<close>; what it does after \<^verbatim>\<open>c.Next()\<close> is behind
  \<open>and_then\<close>, so that a panic skips it, and \<^verbatim>\<open>Panic\<close> is the one that looks at the panic.
\<close>

section \<open>The application\<close>

datatype ctx_val = KClaims claims | KUser user | KMetrics

record span =
  sp_name :: string
  sp_attrs :: "(string \<times> json) list"
  sp_error :: bool

record 's app =
  ap_world :: "'s world"
  ap_metrics :: metrics
  ap_log :: "log_record list"
  ap_spans :: "span list"

text \<open>
  \<open>cf_client_ip\<close> is gin's \<^verbatim>\<open>ClientIP\<close>, \<open>cf_size\<close> the number of bytes of a body, \<open>cf_goroutines\<close> is what \<^verbatim>\<open>runtime.NumGoroutine\<close> reports, \<open>cf_trace_id\<close> the trace id of the span that
  the tracer starts for a request, if it has one, \<open>cf_stack\<close> the stack trace of a panic, \<open>cf_frames\<close> the
  frames of the call that logs a message.
\<close>

record ('s, 'k) config =
  cf_env :: env
  cf_text :: text_env
  cf_api :: "'s store_api"
  cf_auth :: "'k auth"
  cf_kid :: string
  cf_issuer :: string
  cf_token_max_age :: int
  cf_log :: logger
  cf_client_ip :: "request \<Rightarrow> string"
  cf_size :: "json list \<Rightarrow> int"
  cf_goroutines :: "nat \<Rightarrow> int"
  cf_trace_id :: "request \<Rightarrow> string option"
  cf_stack :: "panic_val \<Rightarrow> string"
  cf_runtime :: frame
  cf_frames :: "string \<Rightarrow> frame list"

type_synonym 's st = "(ctx_val, 's app) gin_st"

type_synonym 's hd = "(ctx_val, 's app) handler"

definition app_now :: "('s, 'k) config \<Rightarrow> 's app \<Rightarrow> gotime \<times> 's app" where
  "app_now C g = (case time_now (cf_env C) (ap_world g) of (t, w) \<Rightarrow> (t, g\<lparr>ap_world := w\<rparr>))"

definition app_log ::
  "log_method \<Rightarrow> ('s, 'k) config \<Rightarrow> 'v gin_ctx \<Rightarrow> string \<Rightarrow> log_val list \<Rightarrow> 's app \<Rightarrow> 's app" where
  "app_log f C c msg args g =
     g\<lparr>ap_log := f (cf_log C)
        \<lparr>lc_trace = rq_trace (gx_request c), lc_runtime = cf_runtime C, lc_stack = cf_frames C msg\<rparr>
        msg args (ap_log g)\<rparr>"

section \<open>authenticate.go\<close>

definition deny :: "int \<Rightarrow> string \<Rightarrow> 's st \<Rightarrow> 's st outcome" where
  "deny code msg s = Done (gin_abort (gin_json code (gin_H msg) (fst s)), snd s)"

definition mid_authenticate :: "('s, 'k) config \<Rightarrow> 's hd" where
  "mid_authenticate C nx s =
     (let (c, g) = s;
          token = header_get (gx_request c) ''Authorization'';
          (now, g) = app_now C g
      in case verify_token (cf_auth C) now token of
        Err err \<Rightarrow> deny StatusUnauthorized (err_msg err) (c, g)
      | Ok cl \<Rightarrow>
          if cl_subject cl = [] then
            deny StatusUnauthorized ''you are not authorized to take this action'' (c, g)
          else case uuid_parse (cl_subject cl) of
            Err err \<Rightarrow> deny StatusUnauthorized (''invalid subject: '' @ cl_subject cl) (c, g)
          | Ok user_id \<Rightarrow>
              (case bus_query_by_id (cf_api C) (ap_world g) user_id of
                 (Err err, w) \<Rightarrow>
                   let g = g\<lparr>ap_world := w\<rparr> in
                   if err_is err ErrUserNotFound then
                     deny StatusUnauthorized (status_text StatusUnauthorized) (c, g)
                   else
                     deny StatusInternalServerError (status_text StatusInternalServerError)
                       (c, app_log log_error C c ''queryByID'' [LStr ''error'', LStr (err_msg err)] g)
               | (Ok usr, w) \<Rightarrow>
                   let g = g\<lparr>ap_world := w\<rparr> in
                   if \<not> u_enabled usr then deny StatusUnauthorized ''user is disabled'' (c, g)
                   else nx (gin_set ''user'' (KUser usr) (gin_set ''claims'' (KClaims cl) c), g)))"

section \<open>authorized.go\<close>

definition mid_authorized :: "('s, 'k) config \<Rightarrow> string list \<Rightarrow> 's hd" where
  "mid_authorized C roles nx s =
     (case gin_get ''claims'' (fst s) of
        Some (KClaims cl) \<Rightarrow>
          (case authorized (cl_roles cl) roles of
             Some err \<Rightarrow> deny StatusUnauthorized (status_text StatusUnauthorized) s
           | None \<Rightarrow> nx s)
      | _ \<Rightarrow> deny StatusUnauthorized (status_text StatusUnauthorized) s)"

section \<open>errors.go\<close>

definition app_error_json :: "app_error \<Rightarrow> json" where
  "app_error_json a = JObj
     ([(''code'', JNum (itoa (er_code a))), (''message'', JStr (er_message a))]
      @ (if er_fields a = [] then []
         else [(''fields'', JObj (map (\<lambda>(k, v). (k, JStr v)) (er_fields a)))]))"

text \<open>The map of field errors: a later error of a field replaces an earlier one; JSON sorts the keys.\<close>

fun field_map :: "text_env \<Rightarrow> field_error list \<Rightarrow> (string \<times> string) list \<Rightarrow> (string \<times> string) list" where
  "field_map T [] m = m"
| "field_map T (e # es) m = field_map T es (AList.update (fe_field e) (translate T e) m)"

definition mid_error :: "('s, 'k) config \<Rightarrow> 's hd" where
  "mid_error C nx s =
     and_then (nx s) (\<lambda>(c, g).
       if gx_written c \<or> gx_errors c = [] then Done (c, g)
       else let err = last (gx_errors c) in
         case as_app err of
           Some a \<Rightarrow>
             let g = app_log log_error C c ''error while handling request''
                       [LStr ''err'', LAny (err_msg err), LStr ''fileName'', LStr (er_file a),
                        LStr ''funcName'', LStr (er_func a)] g;
                 a = (if er_code a = StatusInternalServerError
                      then a\<lparr>er_message := status_text StatusInternalServerError\<rparr> else a)
             in Done (gin_json (er_code a) (app_error_json a) c, g)
         | None \<Rightarrow>
             (case as_validation err of
                Some es \<Rightarrow>
                  let a = \<lparr>er_code = StatusBadRequest, er_message = ''validation failed'', er_func = [],
                           er_file = [], er_fields = sort_key fst (field_map (cf_text C) es [])\<rparr>
                  in Done (gin_json (er_code a) (app_error_json a) c, g)
              | None \<Rightarrow>
                  Done (gin_json StatusInternalServerError (gin_H (status_text StatusInternalServerError)) c,
                        app_log log_error C c ''unknown error'' [LStr ''error'', LAny (err_msg err)] g)))"

section \<open>logger.go\<close>

definition full_path :: "request \<Rightarrow> string" where
  "full_path rq =
     (if rq_raw_query rq \<noteq> [] then rq_path rq @ ''?'' @ rq_raw_query rq else rq_path rq)"

definition mid_logger :: "('s, 'k) config \<Rightarrow> 's hd" where
  "mid_logger C nx s =
     (let (c, g) = s;
          (started_at, g) = app_now C g;
          rq = gx_request c;
          p = full_path rq;
          about = [LStr ''method'', LStr (rq_method rq), LStr ''path'', LStr p,
                   LStr ''remoteAddr'', LStr (rq_remote rq)];
          g = app_log log_info C c ''request started'' about g
      in and_then (nx (c, g)) (\<lambda>(c, g).
           let (t, g) = app_now C g
           in Done (c, app_log log_info C c ''request completed''
                (about @ [LStr ''statusCode'', LAny (itoa (gx_status c)),
                          LStr ''took'', LAny (duration_string (time_sub t started_at))]) g)))"

section \<open>metrics.go\<close>

definition mid_metrics :: "('s, 'k) config \<Rightarrow> 's hd" where
  "mid_metrics C nx s =
     (let (c, g) = s;
          (reqs, m) = add_request (ap_metrics g);
          m = (if reqs mod 1000 = 0 then snd (add_goroutine (cf_goroutines C (reads (ap_world g))) m) else m);
          c = gin_set ''metrics'' KMetrics c
      in and_then (nx (c, g\<lparr>ap_metrics := m\<rparr>)) (\<lambda>(c, g).
           Done (c, if gx_status c \<ge> 400 then g\<lparr>ap_metrics := snd (add_error (ap_metrics g))\<rparr> else g)))"

section \<open>panics.go\<close>

definition panic_arg :: "panic_val \<Rightarrow> log_val" where
  "panic_arg p = (case p of PString m \<Rightarrow> LStr m | PRuntime m \<Rightarrow> LAny m)"

definition mid_panic :: "('s, 'k) config \<Rightarrow> 's hd" where
  "mid_panic C nx s =
     (case nx s of
        Panicked p (c, g) \<Rightarrow>
          let g = (case gin_get ''metrics'' c of
                     Some v \<Rightarrow> g\<lparr>ap_metrics := snd (add_panic (ap_metrics g))\<rparr>
                   | None \<Rightarrow> g);
              g = app_log log_error C c ''PANIC'' [panic_arg p, LStr ''STACK'', LStr (cf_stack C p)] g
          in Done (gin_abort (gin_json StatusInternalServerError
                    (gin_H (status_text StatusInternalServerError)) c), g)
      | out \<Rightarrow> out)"

section \<open>telemetry.go\<close>

text \<open>The span ends in any case, after a panic without what is known of the response.\<close>

definition request_attrs :: "('s, 'k) config \<Rightarrow> ctx_val gin_ctx \<Rightarrow> (string \<times> json) list" where
  "request_attrs C c =
     (let rq = gx_request c in
      [(''http.method'', JStr (rq_method rq)), (''http.route'', JStr (gx_full_path c)),
       (''http.url'', JStr (rq_url rq)), (''http.user_agent'', JStr (header_get rq ''User-Agent'')),
       (''http.client_ip'', JStr (cf_client_ip C rq)), (''net.host.name'', JStr (rq_host rq))])"

definition response_attrs :: "('s, 'k) config \<Rightarrow> ctx_val gin_ctx \<Rightarrow> (string \<times> json) list" where
  "response_attrs C c =
     [(''http.status_code'', JNum (itoa (gx_status c))),
      (''http.response_size'', JNum (itoa (if gx_written c then cf_size C (gx_body c) else - 1)))]"

definition end_span :: "span \<Rightarrow> 's st \<Rightarrow> 's st" where
  "end_span sp s = (fst s, (snd s)\<lparr>ap_spans := ap_spans (snd s) @ [sp]\<rparr>)"

text \<open>A function that starts a span of its own and ends it with \<^verbatim>\<open>defer\<close>, after a panic too.\<close>

definition span_of :: "string \<Rightarrow> span" where
  "span_of name = \<lparr>sp_name = name, sp_attrs = [], sp_error = False\<rparr>"

definition traced :: "string \<Rightarrow> 's st outcome \<Rightarrow> 's st outcome" where
  "traced name r = defer_then r (end_span (span_of name)) (end_span (span_of name))"

definition mid_telemetry :: "('s, 'k) config \<Rightarrow> 's hd" where
  "mid_telemetry C nx s =
     (let (c, g) = s;
          sp = \<lparr>sp_name = ''http.request'', sp_attrs = request_attrs C c, sp_error = False\<rparr>;
          ctx = rq_trace (gx_request c);
          ctx = (case cf_trace_id C (gx_request c) of Some t \<Rightarrow> set_trace_id ctx t | None \<Rightarrow> ctx);
          c = c\<lparr>gx_request := (gx_request c)\<lparr>rq_trace := ctx\<rparr>\<rparr>
      in defer_then (nx (c, g))
           (\<lambda>t. end_span (sp\<lparr>sp_attrs := sp_attrs sp @ response_attrs C (fst t),
                            sp_error := (gx_status (fst t) \<ge> 400)\<rparr>) t)
           (end_span sp))"

end
