(* ===== verification/Handlers.thy ===== *)
theory Handlers
  imports Middleware
begin

text \<open>
  \<^verbatim>\<open>internal/domains/user/handler/handler.go\<close>: the endpoints of the user domain. Each is a handler of
  \<open>Gin\<close> that never calls \<^verbatim>\<open>c.Next()\<close>; an early return after \<^verbatim>\<open>c.Error\<close> is \<open>fail_with\<close>. The span
  that each starts first and ends last, on every path, is \<open>traced\<close>.
\<close>

definition call_from :: "string \<Rightarrow> int \<Rightarrow> call_site" where
  "call_from f n =
     (''github.com/hamidoujand/jumble/internal/domains/user/handler.(*handler).'' @ f,
      ''handler.go:'' @ itoa n)"

definition fail_with :: "call_site \<Rightarrow> int \<Rightarrow> string \<Rightarrow> 's st \<Rightarrow> 's st outcome" where
  "fail_with site code msg s = Done (gin_error (errs_new site code msg) (fst s), snd s)"

definition unauthorized :: "call_site \<Rightarrow> 's st \<Rightarrow> 's st outcome" where
  "unauthorized site s = fail_with site StatusUnauthorized (status_text StatusUnauthorized) s"

definition put_world :: "'s world \<Rightarrow> 's app \<Rightarrow> 's app" where
  "put_world w g = g\<lparr>ap_world := w\<rparr>"

definition is_admin :: "role list \<Rightarrow> bool" where
  "is_admin roles \<longleftrightarrow> role_admin \<in> set roles"

definition token_claims :: "('s, 'k) config \<Rightarrow> string \<Rightarrow> string list \<Rightarrow> gotime \<Rightarrow> gotime \<Rightarrow> claims" where
  "token_claims C subject roles t1 t2 = no_claims
     \<lparr>cl_roles := roles,
      cl_issuer := cf_issuer C,
      cl_subject := subject,
      cl_issued_at := Some (new_numeric_date t1),
      cl_expires_at := Some (new_numeric_date (t2 + cf_token_max_age C))\<rparr>"

section \<open>CreateUser\<close>

definition h_create_user :: "('s, 'k) config \<Rightarrow> 's hd" where
  "h_create_user C nx s =
     traced ''user.handler.createUser''
     (let (c, g) = s; T = cf_text C; site = call_from ''CreateUser'' in
      case should_bind_json T ''newUser'' new_user_fields new_user_rules new_user_zero (gx_request c) of
        BindPanic m \<Rightarrow> Panicked (PString m) (c, g)
      | BindErr err \<Rightarrow> Done (gin_error err c, g)
      | Bound nu \<Rightarrow>
     (case to_bus_new_user T nu of
        Err err \<Rightarrow> fail_with (site 42) StatusBadRequest (''toBusNewUser: '' @ err_msg err) (c, g)
      | Ok bus_user \<Rightarrow>
     (case bus_create (cf_env C) (cf_api C) (ap_world g) bus_user of
        (Err err, w) \<Rightarrow>
          let g = put_world w g in
          if err_is err ErrDuplicatedEmail
          then fail_with (site 48) StatusBadRequest (''create: '' @ err_msg err) (c, g)
          else fail_with (site 53) StatusInternalServerError (''create: '' @ err_msg err) (c, g)
      | (Ok usr, w) \<Rightarrow>
          let g = put_world w g;
              app_user = to_app_user T usr;
              (t1, g) = app_now C g;
              (t2, g) = app_now C g;
              cl = token_claims C (us_id app_user) (us_roles app_user) t1 t2
          in case generate_token (cf_auth C) (cf_kid C) cl of
               Err err \<Rightarrow> fail_with (site 70) StatusInternalServerError (''generateToken: '' @ err_msg err) (c, g)
             | Ok token \<Rightarrow>
                 Done (gin_json StatusCreated (app_user_json (app_user\<lparr>us_token := token\<rparr>)) c, g))))"

section \<open>QueryUserByID\<close>

definition h_query_user_by_id :: "('s, 'k) config \<Rightarrow> 's hd" where
  "h_query_user_by_id C nx s =
     traced ''user.handler.queryByID''
     (let (c, g) = s; site = call_from ''QueryUserByID''; p = gin_param ''id'' c in
      case uuid_parse p of
        Err err \<Rightarrow> fail_with (site 86) StatusBadRequest (''invalid id: '' @ p) (c, g)
      | Ok user_id \<Rightarrow>
     (case bus_query_by_id (cf_api C) (ap_world g) user_id of
        (Err err, w) \<Rightarrow>
          let g = put_world w g in
          if err_is err ErrUserNotFound
          then fail_with (site 92) StatusNotFound (''queryByID: '' @ err_msg err) (c, g)
          else fail_with (site 97) StatusInternalServerError (''queryByID: '' @ err_msg err) (c, g)
      | (Ok usr, w) \<Rightarrow>
          Done (gin_json StatusOK (app_user_json (to_app_user (cf_text C) usr)) c, put_world w g)))"

section \<open>DeleteUser\<close>

definition h_delete_user :: "('s, 'k) config \<Rightarrow> 's hd" where
  "h_delete_user C nx s =
     traced ''user.handler.deleteUser''
     (let (c, g) = s; site = call_from ''DeleteUser''; p = gin_param ''id'' c in
      case uuid_parse p of
        Err err \<Rightarrow> fail_with (site 112) StatusBadRequest (''invalid user id: '' @ p) (c, g)
      | Ok user_id \<Rightarrow>
     (case gin_get ''user'' c of
        None \<Rightarrow> unauthorized (site 118) (c, g)
      | Some (KUser usr) \<Rightarrow>
          if user_id \<noteq> u_id usr \<and> \<not> is_admin (u_roles usr)
          then fail_with (site 130) StatusUnauthorized ''unauthorized to take this action'' (c, g)
          else
     (case bus_query_by_id (cf_api C) (ap_world g) user_id of
        (Err err, w) \<Rightarrow>
          let g = put_world w g in
          if err_is err ErrUserNotFound
          then fail_with (site 136) StatusNotFound (err_msg err) (c, g)
          else fail_with (site 141) StatusInternalServerError (''queryByID: '' @ err_msg err) (c, g)
      | (Ok target, w) \<Rightarrow>
     (case bus_delete (cf_api C) w target of
        (Some err, w) \<Rightarrow>
          fail_with (site 147) StatusInternalServerError (''delete: '' @ err_msg err) (c, put_world w g)
      | (None, w) \<Rightarrow> Done (gin_status StatusNoContent c, put_world w g)))
      | Some _ \<Rightarrow> unauthorized (site 124) (c, g)))"

section \<open>UpdateUser\<close>

definition h_update_user :: "('s, 'k) config \<Rightarrow> 's hd" where
  "h_update_user C nx s =
     traced ''user.handler.updateUser''
     (let (c, g) = s; T = cf_text C; site = call_from ''UpdateUser''; p = gin_param ''id'' c in
      case uuid_parse p of
        Err err \<Rightarrow> fail_with (site 161) StatusBadRequest (''invalid user id: '' @ p) (c, g)
      | Ok target_id \<Rightarrow>
     (case gin_get ''user'' c of
        None \<Rightarrow> unauthorized (site 167) (c, g)
      | Some (KUser usr) \<Rightarrow>
          if u_id usr \<noteq> target_id then unauthorized (site 178) (c, g)
          else
     (case should_bind_json T ''updateUser'' update_user_fields update_user_rules update_user_zero (gx_request c) of
        BindPanic m \<Rightarrow> Panicked (PString m) (c, g)
      | BindErr err \<Rightarrow> Done (gin_error err c, g)
      | Bound uu \<Rightarrow>
     (case to_bus_update_user T uu of
        ConvPanic m \<Rightarrow> Panicked (PRuntime m) (c, g)
      | ConvErr err \<Rightarrow> fail_with (site 190) StatusBadRequest (''toUpdateBusUser: '' @ err_msg err) (c, g)
      | Conv upd \<Rightarrow>
     (case bus_update (cf_env C) (cf_api C) (ap_world g) usr upd of
        (Err err, w) \<Rightarrow>
          let g = put_world w g in
          if err_is err ErrDuplicatedEmail
          then fail_with (site 196) StatusBadRequest (err_msg err) (c, g)
          else fail_with (site 201) StatusInternalServerError (''delete: '' @ err_msg err) (c, g)
      | (Ok updated, w) \<Rightarrow>
          Done (gin_json StatusOK (app_user_json (to_app_user T updated)) c, put_world w g))))
      | Some _ \<Rightarrow> unauthorized (site 173) (c, g)))"

section \<open>UpdateRole\<close>

definition h_update_role :: "('s, 'k) config \<Rightarrow> 's hd" where
  "h_update_role C nx s =
     traced ''user.handler.updateRole''
     (let (c, g) = s; T = cf_text C; site = call_from ''UpdateRole'' in
      case gin_get ''user'' c of
        None \<Rightarrow> unauthorized (site 214) (c, g)
      | Some (KUser admin) \<Rightarrow>
          if \<not> is_admin (u_roles admin) then unauthorized (site 226) (c, g)
          else (let p = gin_param ''id'' c in
     case uuid_parse p of
        Err err \<Rightarrow> fail_with (site 234) StatusBadRequest (''invalid user id: '' @ p) (c, g)
      | Ok user_id \<Rightarrow>
     (case should_bind_json T ''updateUserRoles'' update_roles_fields update_roles_rules update_roles_zero
             (gx_request c) of
        BindPanic m \<Rightarrow> Panicked (PString m) (c, g)
      | BindErr err \<Rightarrow> Done (gin_error err c, g)
      | Bound ur \<Rightarrow>
     (case to_bus_update_user_roles ur of
        Err err \<Rightarrow> fail_with (site 246) StatusBadRequest (''toBusUpdateUserRoles: '' @ err_msg err) (c, g)
      | Ok upd \<Rightarrow>
     (case bus_query_by_id (cf_api C) (ap_world g) user_id of
        (Err err, w) \<Rightarrow>
          let g = put_world w g in
          if err_is err ErrUserNotFound
          then fail_with (site 253) StatusNotFound (err_msg err) (c, g)
          else fail_with (site 258) StatusInternalServerError (''queryByID: '' @ err_msg err) (c, g)
      | (Ok usr, w) \<Rightarrow>
          let g = put_world w g in
          if \<not> u_enabled usr then fail_with (site 263) StatusBadRequest ''user is disabled'' (c, g)
          else
     (case bus_update (cf_env C) (cf_api C) (ap_world g) usr upd of
        (Err err, w) \<Rightarrow>
          fail_with (site 269) StatusInternalServerError (''queryByID: '' @ err_msg err) (c, put_world w g)
      | (Ok updated, w) \<Rightarrow>
          Done (gin_json StatusOK (app_user_json (to_app_user T updated)) c, put_world w g))))))
      | Some _ \<Rightarrow> unauthorized (site 220) (c, g))"

section \<open>DisableUser\<close>

text \<open>The error of \<^verbatim>\<open>toBusUpdateUser\<close> is dropped: with an error the update would be the zero value.\<close>

definition zero_update :: update_user where
  "zero_update = \<lparr>uu_name = None, uu_email = None, uu_roles = None, uu_department = None,
     uu_password = None, uu_enabled = None\<rparr>"

definition h_disable_user :: "('s, 'k) config \<Rightarrow> 's hd" where
  "h_disable_user C nx s =
     traced ''user.handler.disableUser''
     (let (c, g) = s; T = cf_text C; site = call_from ''DisableUser''; p = gin_param ''id'' c in
      case uuid_parse p of
        Err err \<Rightarrow> fail_with (site 284) StatusBadRequest (''invalid user id: '' @ p) (c, g)
      | Ok user_id \<Rightarrow>
     (case gin_get ''user'' c of
        None \<Rightarrow> unauthorized (site 291) (c, g)
      | Some (KUser usr) \<Rightarrow>
          if user_id \<noteq> u_id usr \<and> \<not> is_admin (u_roles usr) then unauthorized (site 302) (c, g)
          else
     (case bus_query_by_id (cf_api C) (ap_world g) user_id of
        (Err err, w) \<Rightarrow>
          let g = put_world w g in
          if err_is err ErrUserNotFound
          then fail_with (site 308) StatusNotFound (err_msg err) (c, g)
          else fail_with (site 313) StatusInternalServerError (''queryByID: '' @ err_msg err) (c, g)
      | (Ok target, w) \<Rightarrow>
          let g = put_world w g in
     (case (case to_bus_update_user T (update_user_zero\<lparr>up_enabled := Some False\<rparr>) of
              ConvPanic m \<Rightarrow> Inl m | ConvErr e \<Rightarrow> Inr zero_update | Conv upd \<Rightarrow> Inr upd) of
        Inl m \<Rightarrow> Panicked (PRuntime m) (c, g)
      | Inr upd \<Rightarrow>
     (case bus_update (cf_env C) (cf_api C) (ap_world g) target upd of
        (Err err, w) \<Rightarrow>
          fail_with (site 327) StatusInternalServerError (''update: '' @ err_msg err) (c, put_world w g)
      | (Ok updated, w) \<Rightarrow>
          Done (gin_json StatusOK (app_user_json (to_app_user T updated)) c, put_world w g))))
      | Some _ \<Rightarrow> unauthorized (site 296) (c, g)))"

section \<open>Query\<close>

definition h_query :: "('s, 'k) config \<Rightarrow> 's hd" where
  "h_query C nx s =
     traced ''user.handler.query''
     (let (c, g) = s; T = cf_text C; site = call_from ''Query'' in
      case page_parse (gin_query ''page'' c) (gin_query ''rows'' c) of
        Err err \<Rightarrow> fail_with (site 344) StatusBadRequest (''parse pagination: '' @ err_msg err) (c, g)
      | Ok page \<Rightarrow>
     (case should_bind_query T (gx_request c) of
        BindPanic m \<Rightarrow> Panicked (PString m) (c, g)
      | BindErr err \<Rightarrow> Done (gin_error err c, g)
      | Bound filters \<Rightarrow>
     (case to_bus_query_filter T filters of
        Err err \<Rightarrow> fail_with (site 357) StatusBadRequest (''toBusQueryFilter: '' @ err_msg err) (c, g)
      | Ok bus_filter \<Rightarrow>
     (case parse_order_by (gin_query ''order_by'' c) of
        Err err \<Rightarrow> fail_with (site 364) StatusBadRequest (''parse order_by query: '' @ err_msg err) (c, g)
      | Ok order_by \<Rightarrow>
     (case bus_query (cf_api C) (ap_world g) bus_filter order_by page of
        (Err err, w) \<Rightarrow>
          fail_with (site 370) StatusInternalServerError (''query: '' @ err_msg err) (c, put_world w g)
      | (Ok bus_users, w) \<Rightarrow>
     (case bus_count (cf_api C) w bus_filter of
        (Err err, w) \<Rightarrow>
          fail_with (site 376) StatusInternalServerError (''count: '' @ err_msg err) (c, put_world w g)
      | (Ok cnt, w) \<Rightarrow>
          let users = map (to_app_user T) bus_users;
              qr = new_query_result users cnt (pg_number page) (pg_rows page)
          in Done (gin_json StatusOK (query_result_json qr) c, put_world w g)))))))"

section \<open>Authenticate\<close>

definition h_authenticate :: "('s, 'k) config \<Rightarrow> 's hd" where
  "h_authenticate C nx s =
     traced ''user.handler.authenticate''
     (let (c, g) = s; T = cf_text C; site = call_from ''Authenticate'' in
      case should_bind_json T ''authenticate'' authenticate_fields authenticate_rules authenticate_zero
             (gx_request c) of
        BindPanic m \<Rightarrow> Panicked (PString m) (c, g)
      | BindErr err \<Rightarrow> Done (gin_error err c, g)
      | Bound d \<Rightarrow>
     (case mail_parse T (ar_email d) of
        Err err \<Rightarrow> fail_with (site 401) StatusBadRequest (''parseAddress: '' @ err_msg err) (c, g)
      | Ok email \<Rightarrow>
     (case bus_authenticate (cf_env C) (cf_api C) (ap_world g) email (ar_password d) of
        (Err err, w) \<Rightarrow>
          fail_with (site 407) StatusBadRequest (''invalid email or password: '' @ err_msg err) (c, put_world w g)
      | (Ok usr, w) \<Rightarrow>
          let g = put_world w g;
              (t1, g) = app_now C g;
              (t2, g) = app_now C g;
              cl = token_claims C (uuid_string (u_id usr)) (roles_to_string (u_roles usr)) t1 t2
          in case generate_token (cf_auth C) (cf_kid C) cl of
               Err err \<Rightarrow> fail_with (site 423) StatusInternalServerError (''generateToken: '' @ err_msg err) (c, g)
             | Ok token \<Rightarrow> Done (gin_json StatusOK (token_json token) c, g))))"

end
