(* ===== verification/Routes.thy ===== *)
theory Routes
  imports RouteRedirects Handlers
begin

text \<open>
  \<^verbatim>\<open>internal/domains/user/handler/routes.go\<close> and the middleware that \<^verbatim>\<open>cmd/services/main.go\<close> puts in
  front: the route table, the engine that runs in production, and the steadiness of every handler, so
  that no chain runs out of fuel.
\<close>

section \<open>RegisterRoutes\<close>

text \<open>A map literal that has a key twice is the map with the key once.\<close>

definition mid_admin :: "('s, 'k) config \<Rightarrow> 's hd" where
  "mid_admin C = mid_authorized C [role_string role_admin]"

definition mid_user :: "('s, 'k) config \<Rightarrow> 's hd" where
  "mid_user C = mid_authorized C [role_string role_user]"

definition mid_admin_or_user :: "('s, 'k) config \<Rightarrow> 's hd" where
  "mid_admin_or_user C = mid_authorized C (remdups [role_string role_user, role_string role_user])"

definition register_routes ::
  "('s, 'k) config \<Rightarrow> (ctx_val, 's app) engine \<Rightarrow> (ctx_val, 's app) engine" where
  "register_routes C r =
     (let users = gin_group r ''/v1/users'';
          authenticated = mid_authenticate C;
          r = group_handle users ''POST'' ''/'' [h_create_user C] r;
          r = group_handle users ''GET'' ''/:id'' [h_query_user_by_id C, authenticated] r;
          r = group_handle users ''DELETE'' ''/:id'' [h_delete_user C, authenticated, mid_admin_or_user C] r;
          r = group_handle users ''PUT'' ''/:id'' [h_update_user C, authenticated, mid_user C] r;
          r = group_handle users ''PUT'' ''/roles/:id'' [h_update_role C, authenticated, mid_admin C] r;
          r = group_handle users ''PUT'' ''/disable/:id''
                [h_disable_user C, authenticated, mid_admin_or_user C] r;
          r = group_handle users ''GET'' ''/'' [h_query C] r;
          r = group_handle users ''POST'' ''/login'' [h_authenticate C] r
      in r)"

text \<open>The stack of \<^verbatim>\<open>main.go\<close>.\<close>

definition main_stack ::
  "('s, 'k) config \<Rightarrow> (ctx_val, 's app) engine \<Rightarrow> (ctx_val, 's app) engine" where
  "main_stack C r = gin_use (mid_panic C) (gin_use (mid_metrics C) (gin_use (mid_logger C) (gin_use (mid_telemetry C) r)))"

definition main_engine :: "('s, 'k) config \<Rightarrow> (ctx_val, 's app) engine" where
  "main_engine C = register_routes C (main_stack C gin_new)"

definition handle_request ::
  "('s, 'k) config \<Rightarrow> request \<Rightarrow> 's app \<Rightarrow> 's st answer" where
  "handle_request C rq g = handle_http_request (main_engine C) rq g"

section \<open>The route table\<close>

text \<open>What follows the engine's own handlers, by method and path.\<close>

definition user_routes :: "('s, 'k) config \<Rightarrow> (string \<times> string \<times> 's hd list) list" where
  "user_routes C =
     [(''POST'', ''/v1/users/'', [h_create_user C]),
      (''POST'', ''/v1/users/login'', [h_authenticate C]),
      (''GET'', ''/v1/users/'', [h_query C]),
      (''GET'', ''/v1/users/:id'', [h_query_user_by_id C, mid_authenticate C]),
      (''DELETE'', ''/v1/users/:id'', [h_delete_user C, mid_authenticate C, mid_user C]),
      (''PUT'', ''/v1/users/roles/:id'', [h_update_role C, mid_authenticate C, mid_admin C]),
      (''PUT'', ''/v1/users/disable/:id'', [h_disable_user C, mid_authenticate C, mid_user C]),
      (''PUT'', ''/v1/users/:id'', [h_update_user C, mid_authenticate C, mid_user C])]"

lemma mid_admin_or_user: "mid_admin_or_user C = mid_user C"
  by (simp add: mid_admin_or_user_def mid_user_def)

text \<open>The trees of the routes, for a stack \<open>st\<close> of middlewares in front.\<close>

definition user_trees :: "('s, 'k) config \<Rightarrow> 's hd list \<Rightarrow> (string \<times> 's hd list node) list" where
  "user_trees C st =
     service_trees (st @ [h_create_user C]) (st @ [h_authenticate C]) (st @ [h_query C])
       (st @ [h_query_user_by_id C, mid_authenticate C])
       (st @ [h_delete_user C, mid_authenticate C, mid_user C])
       (st @ [h_update_user C, mid_authenticate C, mid_user C])
       (st @ [h_update_role C, mid_authenticate C, mid_admin C])
       (st @ [h_disable_user C, mid_authenticate C, mid_user C])"

lemma joined_paths:
  "join_paths ''/'' ''/v1/users'' = ''/v1/users''"
  "join_paths ''/v1/users'' ''/'' = ''/v1/users/''"
  "join_paths ''/v1/users'' ''/:id'' = ''/v1/users/:id''"
  "join_paths ''/v1/users'' ''/roles/:id'' = ''/v1/users/roles/:id''"
  "join_paths ''/v1/users'' ''/disable/:id'' = ''/v1/users/disable/:id''"
  "join_paths ''/v1/users'' ''/login'' = ''/v1/users/login''"
  by (simp_all add: join_paths_def)

lemma bindD: "(case x of Inl m \<Rightarrow> Inl m | Inr t \<Rightarrow> f t) = Inr y \<Longrightarrow> \<exists>t. x = Inr t \<and> f t = Inr y"
  by (auto split: sum.splits)

lemma handle_step:
  assumes "en_panic r = None" "length (en_use r) + length hs < 63" "hs \<noteq> []" "method \<noteq> []"
    and "join_paths base rel = p" "p \<noteq> []" "hd p = CHR ''/''"
    and "add_route p (en_use r @ hs) (case map_of ts method of None \<Rightarrow> empty_tree | Some t \<Rightarrow> t) = Inr t"
  shows "group_handle \<lparr>gr_handlers = en_use r, gr_base = base\<rparr> method rel hs (r\<lparr>en_trees := ts\<rparr>) =
    r\<lparr>en_trees := AList.update method t ts\<rparr>"
  using assms unfolding empty_tree_def by (cases r) (simp add: group_handle_def engine_add_route_def Let_def)

lemma register_routes_trees:
  assumes "en_trees r = []" "en_panic r = None" "length (en_use r) < 60"
  shows "register_routes C r = r\<lparr>en_trees := user_trees C (en_use r)\<rparr>"
proof -
  let ?st = "en_use r"
  let ?h = "\<lambda>method rel hs E. group_handle \<lparr>gr_handlers = ?st, gr_base = ''/v1/users''\<rparr> method rel hs E"
  note step = handle_step [where r = r and base = "''/v1/users''", OF assms(2)]
  obtain post where post: "add_route ''/v1/users/'' (?st @ [h_create_user C]) empty_tree = Inr post"
    "add_route ''/v1/users/login'' (?st @ [h_authenticate C]) post = Inr (post_tree (?st @ [h_create_user C]) (?st @ [h_authenticate C]))"
    using bindD [OF post_tree_made [where h = "?st @ [h_create_user C]" and k = "?st @ [h_authenticate C]"]] by (elim exE conjE)
  let ?put = "?st @ [h_update_user C, mid_authenticate C, mid_user C]"
  let ?roles = "?st @ [h_update_role C, mid_authenticate C, mid_admin C]"
  let ?disable = "?st @ [h_disable_user C, mid_authenticate C, mid_user C]"
  obtain put where put: "add_route ''/v1/users/roles/:id'' ?roles (delete_tree ?put) = Inr put"
    "add_route ''/v1/users/disable/:id'' ?disable put = Inr (put_tree ?put ?roles ?disable)"
    using bindD [OF put_tree_made [where h = ?roles and k = ?put and l = ?disable]] by (elim exE conjE)
  let ?get = "?st @ [h_query_user_by_id C, mid_authenticate C]"
  let ?delete = "?st @ [h_delete_user C, mid_authenticate C, mid_user C]"
  let ?ts = "[(''POST'', post), (''GET'', delete_tree ?get), (''DELETE'', delete_tree ?delete)]"
  have r: "r = r\<lparr>en_trees := []\<rparr>" using assms(1) by simp
  have 1: "?h ''POST'' ''/'' [h_create_user C] r = r\<lparr>en_trees := [(''POST'', post)]\<rparr>"
    using step [of "[h_create_user C]" "''POST''" "''/''" _ "[]" post] post(1) assms(3) joined_paths r by simp
  have 2: "?h ''GET'' ''/:id'' [h_query_user_by_id C, mid_authenticate C] (r\<lparr>en_trees := [(''POST'', post)]\<rparr>) =
      r\<lparr>en_trees := take 2 ?ts\<rparr>"
    using step [of "[h_query_user_by_id C, mid_authenticate C]" "''GET''" "''/:id''" _ "[(''POST'', post)]" "delete_tree ?get"]
      delete_tree_made [of ?get] assms(3) joined_paths by simp
  have 3: "?h ''DELETE'' ''/:id'' [h_delete_user C, mid_authenticate C, mid_user C] (r\<lparr>en_trees := take 2 ?ts\<rparr>) =
      r\<lparr>en_trees := ?ts\<rparr>"
    using step [of "[h_delete_user C, mid_authenticate C, mid_user C]" "''DELETE''" "''/:id''" _ "take 2 ?ts" "delete_tree ?delete"]
      delete_tree_made [of ?delete] assms(3) joined_paths by simp
  have 4: "?h ''PUT'' ''/:id'' [h_update_user C, mid_authenticate C, mid_user C] (r\<lparr>en_trees := ?ts\<rparr>) =
      r\<lparr>en_trees := ?ts @ [(''PUT'', delete_tree ?put)]\<rparr>"
    using step [of "[h_update_user C, mid_authenticate C, mid_user C]" "''PUT''" "''/:id''" _ ?ts "delete_tree ?put"]
      delete_tree_made [of ?put] assms(3) joined_paths by simp
  have 5: "?h ''PUT'' ''/roles/:id'' [h_update_role C, mid_authenticate C, mid_admin C]
      (r\<lparr>en_trees := ?ts @ [(''PUT'', delete_tree ?put)]\<rparr>) = r\<lparr>en_trees := ?ts @ [(''PUT'', put)]\<rparr>"
    using step [of "[h_update_role C, mid_authenticate C, mid_admin C]" "''PUT''" "''/roles/:id''" _ "?ts @ [(''PUT'', delete_tree ?put)]" put]
      put(1) assms(3) joined_paths by simp
  have 6: "?h ''PUT'' ''/disable/:id'' [h_disable_user C, mid_authenticate C, mid_user C]
      (r\<lparr>en_trees := ?ts @ [(''PUT'', put)]\<rparr>) = r\<lparr>en_trees := ?ts @ [(''PUT'', put_tree ?put ?roles ?disable)]\<rparr>"
    using step [of "[h_disable_user C, mid_authenticate C, mid_user C]" "''PUT''" "''/disable/:id''" _ "?ts @ [(''PUT'', put)]" "put_tree ?put ?roles ?disable"]
      put(2) assms(3) joined_paths by simp
  let ?ts = "?ts @ [(''PUT'', put_tree ?put ?roles ?disable)]"
  have 7: "?h ''GET'' ''/'' [h_query C] (r\<lparr>en_trees := ?ts\<rparr>) =
      r\<lparr>en_trees := AList.update ''GET'' (get_tree (?st @ [h_query C]) ?get) ?ts\<rparr>"
    using step [of "[h_query C]" "''GET''" "''/''" _ ?ts "get_tree (?st @ [h_query C]) ?get"]
      get_tree_made [of "?st @ [h_query C]" ?get] assms(3) joined_paths by simp
  let ?ts = "AList.update ''GET'' (get_tree (?st @ [h_query C]) ?get) ?ts"
  have 8: "?h ''POST'' ''/login'' [h_authenticate C] (r\<lparr>en_trees := ?ts\<rparr>) = r\<lparr>en_trees := user_trees C ?st\<rparr>"
    using step [of "[h_authenticate C]" "''POST''" "''/login''" _ ?ts "post_tree (?st @ [h_create_user C]) (?st @ [h_authenticate C])"]
      post(2) assms(3) joined_paths by (simp add: user_trees_def service_trees_def)
  show ?thesis
    unfolding register_routes_def gin_group_def joined_paths(1) Let_def mid_admin_or_user 1 2 3 4 5 6 7 8 ..
qed

lemma user_trees_routes:
  assumes "en_trees E = user_trees C st"
  shows "en_routes E = map (\<lambda>(m, p, hs). \<lparr>rt_method = m, rt_path = p, rt_handlers = st @ hs\<rparr>) (user_routes C)"
  unfolding service_routes [OF assms [unfolded user_trees_def]] user_routes_def by simp

definition main_handlers :: "('s, 'k) config \<Rightarrow> 's hd list" where
  "main_handlers C = [mid_telemetry C, mid_logger C, mid_metrics C, mid_panic C]"

lemma main_engine_trees:
  "main_engine C = \<lparr>en_use = main_handlers C, en_trees = user_trees C (main_handlers C), en_panic = None\<rparr>"
proof -
  have "main_stack C gin_new = \<lparr>en_use = main_handlers C, en_trees = [], en_panic = None\<rparr>"
    by (simp add: main_stack_def gin_use_def gin_new_def main_handlers_def)
  then show ?thesis
    unfolding main_engine_def by (simp add: register_routes_trees main_handlers_def)
qed

lemma main_engine_simps:
  "en_use (main_engine C) = main_handlers C"
  "en_routes (main_engine C) =
     map (\<lambda>(m, p, hs). \<lparr>rt_method = m, rt_path = p, rt_handlers = main_handlers C @ hs\<rparr>) (user_routes C)"
  by (simp_all add: main_engine_trees user_trees_routes)

section \<open>What becomes of a request\<close>

text \<open>The search of the radix tree is that of the reference.\<close>

lemma route_request:
  assumes "en_trees E = user_trees C st" "find_route E (rq_method rq) (rq_path rq) = Some (rt, ps)"
  shows "handle_http_request E rq g = Served (serve (rt_handlers rt) (new_ctx rq ps (rt_path rt), g))"
proof -
  note search = search_is_best [OF assms(1) [unfolded user_trees_def], of "rq_method rq" "rq_path rq", unfolded assms(2)]
  then obtain t where t: "map_of (en_trees E) (rq_method rq) = Some t" by (auto split: option.splits)
  then obtain v where v: "get_value t (rq_path rq) [] [] 0 = Inr v" "as_route (rq_method rq) v = Some (rt, ps)"
    using search by auto
  then obtain hs where "nv_handlers v = Some hs" "rt_handlers rt = hs" "nv_params v = ps" "nv_full v = rt_path rt"
    by (auto simp: as_route_def)
  then show ?thesis using t v(1) by (simp add: handle_http_request_def)
qed

lemma other_request:
  assumes "en_trees E = user_trees C st" "find_route E (rq_method rq) (rq_path rq) = None"
  shows "if recommended E (rq_method rq) (rq_path rq)
    then handle_http_request E rq g = Redirected (if rq_method rq = ''GET'' then 301 else 307)
    else \<exists>ps. handle_http_request E rq g = Served (serve_not_found (en_use E) (new_ctx rq ps [], g))"
proof -
  note trees = assms(1) [unfolded user_trees_def]
  note search = search_is_best [OF trees, of "rq_method rq" "rq_path rq"]
  have root: "find_route E m (other_slash ''/'') = None" "\<not> double_slash m ''/''" for m
    by (rule service_find(1) [OF trees]) (simp_all add: other_slash_def double_slash_def)
  show ?thesis
  proof (cases "map_of (en_trees E) (rq_method rq)")
    case None
    then have "rq_method rq \<notin> {''POST'', ''GET'', ''DELETE'', ''PUT''}" by (auto simp: trees service_trees_def)
    then have "find_route E (rq_method rq) (other_slash (rq_path rq)) = None" "\<not> double_slash (rq_method rq) (rq_path rq)"
      using service_find(6) [OF trees] by (auto simp: double_slash_def)
    then show ?thesis using None by (auto simp: handle_http_request_def recommended_def)
  next
    case (Some t)
    then obtain v where v: "get_value t (rq_path rq) [] [] 0 = Inr v" "as_route (rq_method rq) v = None"
      using search assms(2) by auto
    then have "nv_handlers v = None" by (simp add: as_route_def)
    moreover have "rq_method rq \<noteq> ''CONNECT''" using Some by (auto simp: trees service_trees_def split: if_splits)
    moreover note redirect_is_slash [OF trees Some v(1) assms(2)]
    ultimately show ?thesis using Some v(1) root [of "rq_method rq"] by (auto simp: handle_http_request_def recommended_def)
  qed
qed

lemmas main_trees = main_engine_trees [THEN arg_cong [where f = en_trees], simplified]

lemma request_found:
  "find_route (main_engine C) (rq_method rq) (rq_path rq) = Some (rt, ps) \<Longrightarrow>
     handle_request C rq g = Served (serve (rt_handlers rt) (new_ctx rq ps (rt_path rt), g))"
  unfolding handle_request_def by (rule route_request [OF main_trees])

lemma request_not_found:
  "find_route (main_engine C) (rq_method rq) (rq_path rq) = None \<Longrightarrow>
     (\<exists>code \<in> {301, 307}. handle_request C rq g = Redirected code) \<or>
     (\<exists>ps. handle_request C rq g = Served (serve_not_found (main_handlers C) (new_ctx rq ps [], g)))"
  using other_request [OF main_trees, of C rq g] unfolding handle_request_def main_engine_simps(1)
  by (auto split: if_splits)

end
