(* ===== verification/Endpoints.thy ===== *)
theory Endpoints
  imports Routes
begin

text \<open>
  What every request meets on its way: all handlers are steady, so no chain runs out of fuel; and what
  is left of a request after the stack of \<^verbatim>\<open>main.go\<close> is what the handlers behind it made, up to the
  log, the metrics, the spans and the clock.
\<close>

section \<open>Steady handlers\<close>

named_theorems steady_intros

lemma advances_fail [simp]: "advances s (fail_with site code msg t) \<longleftrightarrow> advances s (Done t)"
  by (simp add: fail_with_def)

lemma advances_unauthorized [simp]: "advances s (unauthorized site t) \<longleftrightarrow> advances s (Done t)"
  by (simp add: unauthorized_def)

lemma advances_deny [simp]: "advances s (deny code msg t)"
  by (simp add: deny_def abort_index_def min_def)

lemma advances_same [simp]: "min abort_index (gx_index (fst s)) \<le> gx_index (fst s)"
  by simp

lemma steadyI:
  "(\<And>nx s. (\<And>t. gx_index (fst t) = gx_index (fst s) \<Longrightarrow> advances s (nx t)) \<Longrightarrow> advances s (h nx s)) \<Longrightarrow>
     steady h"
  unfolding steady_def
proof (intro allI impI, goal_cases)
  case (1 nx s)
  have "advances s (nx t)" if "gx_index (fst t) = gx_index (fst s)" for t
    using 1(2) [rule_format, of t] that by (cases "nx t") simp_all
  then show ?case by (rule 1(1))
qed

lemma steadyI_leaf: "(\<And>nx s. advances s (h nx s)) \<Longrightarrow> steady h"
  by (simp add: steady_def)


lemma traced_simps:
  "traced n (Done (c, g)) = Done (c, g\<lparr>ap_spans := ap_spans g @ [span_of n]\<rparr>)"
  "traced n (Panicked p (c, g)) = Panicked p (c, g\<lparr>ap_spans := ap_spans g @ [span_of n]\<rparr>)"
  by (simp_all add: traced_def end_span_def)

lemma advances_traced [simp]: "advances s (traced n r) \<longleftrightarrow> advances s r"
  by (cases r) (simp_all add: traced_def end_span_def)

lemma steady_create_user [steady_intros]: "steady (h_create_user C)"
  by (rule steadyI_leaf)
    (simp add: h_create_user_def Let_def split: prod.split sum.split option.split ctx_val.split bound.split conv.split)

lemma steady_query_user_by_id [steady_intros]: "steady (h_query_user_by_id C)"
  by (rule steadyI_leaf)
    (simp add: h_query_user_by_id_def Let_def split: prod.split sum.split option.split ctx_val.split bound.split conv.split)

lemma steady_delete_user [steady_intros]: "steady (h_delete_user C)"
  by (rule steadyI_leaf)
    (simp add: h_delete_user_def Let_def split: prod.split sum.split option.split ctx_val.split bound.split conv.split)

lemma steady_update_user [steady_intros]: "steady (h_update_user C)"
  by (rule steadyI_leaf)
    (simp add: h_update_user_def Let_def split: prod.split sum.split option.split ctx_val.split bound.split conv.split)

lemma steady_update_role [steady_intros]: "steady (h_update_role C)"
  by (rule steadyI_leaf)
    (simp add: h_update_role_def Let_def split: prod.split sum.split option.split ctx_val.split bound.split conv.split)

lemma steady_disable_user [steady_intros]: "steady (h_disable_user C)"
  by (rule steadyI_leaf)
    (simp add: h_disable_user_def Let_def split: prod.split sum.split option.split ctx_val.split bound.split conv.split)

lemma steady_query [steady_intros]: "steady (h_query C)"
  by (rule steadyI_leaf)
    (simp add: h_query_def Let_def split: prod.split sum.split option.split ctx_val.split bound.split conv.split)

lemma steady_authenticate [steady_intros]: "steady (h_authenticate C)"
  by (rule steadyI_leaf)
    (simp add: h_authenticate_def Let_def split: prod.split sum.split option.split ctx_val.split bound.split conv.split)

lemma advances_and_then:
  assumes "advances s r" "\<And>u. r = Done u \<Longrightarrow> \<exists>v. f u = Done v \<and> gx_index (fst v) = gx_index (fst u)"
  shows "advances s (and_then r f)"
  using assms by (cases r) fastforce+

lemma steady_around:
  assumes "\<And>s. gx_index (fst (before s)) = gx_index (fst s)"
    and "\<And>s t. gx_index (fst (after s t)) = gx_index (fst t)"
    and "\<And>s t. gx_index (fst (crash s t)) = gx_index (fst t)"
    and "\<And>nx s. h nx s = defer_then (nx (before s)) (after s) (crash s)"
  shows "steady h"
proof (rule steadyI, goal_cases)
  case (1 nx s)
  then have "advances s (nx (before s))" using assms(1) by simp
  then show ?case
    unfolding assms(4) using assms(2,3) by (cases "nx (before s)") simp_all
qed

section \<open>The middlewares, around what follows them\<close>

definition telemetry_before :: "('s, 'k) config \<Rightarrow> 's st \<Rightarrow> 's st" where
  "telemetry_before C s =
     ((fst s)\<lparr>gx_request := (gx_request (fst s))\<lparr>rq_trace :=
        (case cf_trace_id C (gx_request (fst s)) of
           Some t \<Rightarrow> set_trace_id (rq_trace (gx_request (fst s))) t
         | None \<Rightarrow> rq_trace (gx_request (fst s)))\<rparr>\<rparr>, snd s)"

definition telemetry_crash :: "('s, 'k) config \<Rightarrow> 's st \<Rightarrow> 's st \<Rightarrow> 's st" where
  "telemetry_crash C s =
     end_span \<lparr>sp_name = ''http.request'', sp_attrs = request_attrs C (fst s), sp_error = False\<rparr>"

definition telemetry_after :: "('s, 'k) config \<Rightarrow> 's st \<Rightarrow> 's st \<Rightarrow> 's st" where
  "telemetry_after C s t =
     end_span \<lparr>sp_name = ''http.request'', sp_attrs = request_attrs C (fst s) @ response_attrs C (fst t),
       sp_error = (gx_status (fst t) \<ge> 400)\<rparr> t"

lemma mid_telemetry_around:
  "mid_telemetry C nx s = defer_then (nx (telemetry_before C s)) (telemetry_after C s) (telemetry_crash C s)"
  by (simp add: mid_telemetry_def telemetry_before_def telemetry_after_def [abs_def] telemetry_crash_def
      Let_def split_def cong: option.case_cong)

lemma and_then_defer: "and_then r (\<lambda>t. Done (f t)) = defer_then r f (\<lambda>t. t)"
  by (cases r) simp_all

definition logger_about :: "request \<Rightarrow> log_val list" where
  "logger_about rq =
     [LStr ''method'', LStr (rq_method rq), LStr ''path'', LStr (full_path rq), LStr ''remoteAddr'', LStr (rq_remote rq)]"

definition logger_before :: "('s, 'k) config \<Rightarrow> 's st \<Rightarrow> 's st" where
  "logger_before C s =
     (fst s, app_log log_info C (fst s) ''request started'' (logger_about (gx_request (fst s)))
               (snd (app_now C (snd s))))"

definition logger_after :: "('s, 'k) config \<Rightarrow> 's st \<Rightarrow> 's st \<Rightarrow> 's st" where
  "logger_after C s t =
     (fst t, app_log log_info C (fst t) ''request completed''
        (logger_about (gx_request (fst s)) @ [LStr ''statusCode'', LAny (itoa (gx_status (fst t))),
           LStr ''took'', LAny (duration_string (time_sub (fst (app_now C (snd t))) (fst (app_now C (snd s)))))])
        (snd (app_now C (snd t))))"

lemma mid_logger_around:
  "mid_logger C nx s = defer_then (nx (logger_before C s)) (logger_after C s) (\<lambda>t. t)"
  unfolding and_then_defer [symmetric]
  by (simp add: mid_logger_def logger_before_def logger_after_def logger_about_def Let_def split_def)

definition metrics_before :: "('s, 'k) config \<Rightarrow> 's st \<Rightarrow> 's st" where
  "metrics_before C s =
     (let (reqs, m) = add_request (ap_metrics (snd s));
          m = (if reqs mod 1000 = 0
               then snd (add_goroutine (cf_goroutines C (reads (ap_world (snd s)))) m) else m)
      in (gin_set ''metrics'' KMetrics (fst s), (snd s)\<lparr>ap_metrics := m\<rparr>))"

definition metrics_after :: "'s st \<Rightarrow> 's st" where
  "metrics_after t =
     (fst t, if gx_status (fst t) \<ge> 400
             then (snd t)\<lparr>ap_metrics := snd (add_error (ap_metrics (snd t)))\<rparr> else snd t)"

lemma mid_metrics_around:
  "mid_metrics C nx s = defer_then (nx (metrics_before C s)) metrics_after (\<lambda>t. t)"
  unfolding and_then_defer [symmetric]
  by (simp add: mid_metrics_def metrics_before_def metrics_after_def Let_def split_def)

definition recovered :: "('s, 'k) config \<Rightarrow> panic_val \<Rightarrow> 's st \<Rightarrow> 's st" where
  "recovered C p s =
     (gin_abort (gin_json StatusInternalServerError (gin_H (status_text StatusInternalServerError)) (fst s)),
      app_log log_error C (fst s) ''PANIC'' [panic_arg p, LStr ''STACK'', LStr (cf_stack C p)]
        (case gin_get ''metrics'' (fst s) of
           Some v \<Rightarrow> (snd s)\<lparr>ap_metrics := snd (add_panic (ap_metrics (snd s)))\<rparr> | None \<Rightarrow> snd s))"

lemma mid_panic_cases:
  "mid_panic C nx s = (case nx s of Panicked p t \<Rightarrow> Done (recovered C p t) | out \<Rightarrow> out)"
  by (simp add: mid_panic_def recovered_def Let_def split: outcome.split prod.split option.split)

lemma around_index [simp]:
  "gx_index (fst (telemetry_before C s)) = gx_index (fst s)" "gx_index (fst (telemetry_after C r s)) = gx_index (fst s)"
  "gx_index (fst (telemetry_crash C r s)) = gx_index (fst s)"
  "gx_index (fst (logger_before C s)) = gx_index (fst s)" "gx_index (fst (logger_after C r s)) = gx_index (fst s)"
  "gx_index (fst (metrics_before C s)) = gx_index (fst s)" "gx_index (fst (metrics_after s)) = gx_index (fst s)"
  "gx_index (fst (recovered C p s)) = 63"
  by (simp_all add: telemetry_before_def telemetry_after_def telemetry_crash_def end_span_def logger_before_def
      logger_after_def metrics_before_def metrics_after_def recovered_def Let_def split: prod.split)

lemma steady_telemetry [steady_intros]: "steady (mid_telemetry C)"
  by (rule steady_around [OF _ _ _ mid_telemetry_around]) simp_all

lemma steady_logger [steady_intros]: "steady (mid_logger C)"
  by (rule steady_around [OF _ _ _ mid_logger_around]) simp_all

lemma steady_metrics [steady_intros]: "steady (mid_metrics C)"
  by (rule steady_around [OF _ _ _ mid_metrics_around]) simp_all

lemma steady_panic [steady_intros]: "steady (mid_panic C)"
proof (rule steadyI, goal_cases)
  case (1 nx s)
  then have "advances s (nx s)" by simp
  then show ?case by (cases "nx s") (simp_all add: mid_panic_cases abort_index_def)
qed

lemma steady_error [steady_intros]: "steady (mid_error C)"
proof (rule steadyI, goal_cases)
  case (1 nx s)
  then have "advances s (nx s)" by simp
  then show ?case
    unfolding mid_error_def
    by (rule advances_and_then) (auto simp: Let_def split: option.split)
qed

lemma steady_authorized [steady_intros]: "steady (mid_authorized C roles)"
  by (rule steadyI) (simp add: mid_authorized_def split: option.split ctx_val.split)

lemma steady_mid_authenticate [steady_intros]: "steady (mid_authenticate C)"
  by (rule steadyI) (auto simp: mid_authenticate_def Let_def split: prod.split sum.split)

lemma user_routes_steady: "(m, p, hs) \<in> set (user_routes C) \<Longrightarrow> \<forall>h \<in> set (main_handlers C @ hs). steady h"
  by (auto simp: user_routes_def main_handlers_def mid_user_def mid_admin_def intro: steady_intros)

section \<open>Behind the stack of the program\<close>

text \<open>What the stack leaves alone.\<close>

definition view where
  "view (s :: 's st) =
     (let c = fst s in
      (gx_params c, (gx_request c)\<lparr>rq_trace := None\<rparr>, (gx_status c, gx_written c, gx_sent c, gx_body c),
       gx_errors c, (gx_keys c ''user'', gx_keys c ''claims''), wd_store (ap_world (snd s))))"

lemma around_view [simp]:
  "view (telemetry_before C s) = view s" "view (telemetry_after C r s) = view s"
  "view (telemetry_crash C r s) = view s"
  "view (logger_before C s) = view s" "view (logger_after C r s) = view s"
  "view (metrics_before C s) = view s" "view (metrics_after s) = view s"
  "view (step_index s) = view s" "view (end_span sp s) = view s"
  by (simp_all add: view_def Let_def telemetry_before_def telemetry_after_def telemetry_crash_def end_span_def logger_before_def logger_after_def
      app_log_def app_now_def time_now_def metrics_before_def metrics_after_def gin_set_def step_index_def
      split: prod.split)

lemma and_then_Done: "r = Done s \<Longrightarrow> and_then r f = f s"
  by simp

lemma next_loop_around:
  assumes "gx_index (fst s) = int i" "i < length hs"
    and "\<And>nx. (hs ! i) nx s = defer_then (nx (before s)) (after s) (crash s)"
    and "next_loop n hs (step_index (before s)) = Done t" "gx_index (fst (after s t)) = gx_index (fst t)"
    and "n \<noteq> 0"
  shows "next_loop (Suc n) hs s = Done (step_index (after s t))"
proof -
  obtain m where n: "n = Suc m" using assms(6) by (cases n) simp_all
  have "int (length hs) \<le> gx_index (fst t)" using next_loop_Done [OF assms(4)] .
  then have "next_loop n hs (step_index (after s t)) = Done (step_index (after s t))"
    unfolding n using assms(5) by (intro next_loop_end) simp
  then show ?thesis
    unfolding next_loop_step [OF assms(1,2)] assms(3) using assms(4) by simp
qed

text \<open>The outcome of a chain, as \<^verbatim>\<open>mid.Panic\<close> leaves it.\<close>

definition settles :: "('s, 'k) config \<Rightarrow> ('s st \<Rightarrow> bool) \<Rightarrow> 's st outcome \<Rightarrow> bool" where
  "settles C Q r =
     (case r of Done u \<Rightarrow> Q u | Panicked p u \<Rightarrow> Q (recovered C p u) | Exhausted \<Rightarrow> False)"

lemma settles_simps [simp]:
  "settles C Q (Done u) = Q u" "settles C Q (Panicked p u) = Q (recovered C p u)"
  "\<not> settles C Q Exhausted"
  by (simp_all add: settles_def)

text \<open>
  What the four middlewares do before the handlers behind them run (\<open>stack_before\<close>), what \<^verbatim>\<open>mid.Panic\<close> leaves
  of the outcome of these (\<open>caught\<close>), and what the others do to that afterwards (\<open>stack_after\<close>).
\<close>

definition stack_before :: "('s, 'k) config \<Rightarrow> 's st \<Rightarrow> 's st" where
  "stack_before C s =
     (let s1 = step_index (telemetry_before C (step_index s));
          s2 = step_index (logger_before C s1)
      in step_index (step_index (metrics_before C s2)))"

definition caught :: "('s, 'k) config \<Rightarrow> 's st outcome \<Rightarrow> 's st option" where
  "caught C r = (case r of Done u \<Rightarrow> Some u | Panicked p u \<Rightarrow> Some (recovered C p u) | Exhausted \<Rightarrow> None)"

definition stack_after :: "('s, 'k) config \<Rightarrow> 's st \<Rightarrow> 's st \<Rightarrow> 's st" where
  "stack_after C s u =
     (let s0 = step_index s; s1 = step_index (telemetry_before C s0);
          u1 = step_index (logger_after C s1 (step_index (metrics_after (step_index u))))
      in step_index (telemetry_after C s0 u1))"

lemma caught_simps [simp]:
  "caught C (Done u) = Some u" "caught C (Panicked p u) = Some (recovered C p u)" "caught C Exhausted = None"
  by (simp_all add: caught_def)

lemma settles_caught: "settles C Q r \<longleftrightarrow> (\<exists>u. caught C r = Some u \<and> Q u)"
  by (cases r) simp_all

lemma stack_view [simp]: "view (stack_before C s) = view s" "view (stack_after C s u) = view u"
  by (simp_all add: stack_before_def stack_after_def Let_def)

lemma stack_index [simp]: "gx_index (fst (stack_before C s)) = gx_index (fst s) + 5"
  by (simp add: stack_before_def Let_def)

lemma next_loop_panic:
  assumes "gx_index (fst t) = int i" "i < length hs" "hs ! i = mid_panic C" "length hs \<le> 63" "n \<noteq> 0"
    and "caught C (next_loop n hs (step_index t)) = Some u"
  shows "next_loop (Suc n) hs t = Done (step_index u)"
proof -
  let ?r = "next_loop n hs (step_index t)"
  obtain m where n: "n = Suc m" using assms(5) by (cases n) simp_all
  have out: "mid_panic C (\<lambda>t. next_loop n hs (step_index t)) t = Done u"
    using assms(6) by (cases ?r) (simp_all add: mid_panic_cases)
  have "int (length hs) \<le> gx_index (fst u)"
    using assms(4,6) next_loop_Done [of n hs "step_index t"] by (cases ?r) auto
  then have "next_loop n hs (step_index u) = Done (step_index u)"
    unfolding n by (intro next_loop_end) simp
  then show ?thesis unfolding next_loop_step [OF assms(1,2)] assms(3) out by simp
qed

lemma main_run:
  assumes "length hs < 59" "gx_index (fst s) = -1"
    and "caught C (next_loop (Suc (length hs)) (main_handlers C @ hs) (stack_before C s)) = Some u"
  shows "gin_next (Suc (length (main_handlers C @ hs))) (main_handlers C @ hs) s = Done (stack_after C s u)"
proof -
  let ?hs = "main_handlers C @ hs" and ?n = "Suc (length hs)"
  define s0 where "s0 = step_index s"
  define s1 where "s1 = step_index (telemetry_before C s0)"
  define s2 where "s2 = step_index (logger_before C s1)"
  define s3 where "s3 = step_index (metrics_before C s2)"
  have i: "gx_index (fst s0) = int 0" "gx_index (fst s1) = int 1" "gx_index (fst s2) = int 2" "gx_index (fst s3) = int 3"
    using assms(2) by (simp_all add: s0_def s1_def s2_def s3_def)
  have len: "length ?hs = length hs + 4" by (simp add: main_handlers_def)
  have nth: "?hs ! 0 = mid_telemetry C" "?hs ! 1 = mid_logger C" "?hs ! 2 = mid_metrics C" "?hs ! 3 = mid_panic C"
    by (simp_all add: main_handlers_def)
  have before: "stack_before C s = step_index s3"
    by (simp add: stack_before_def s0_def s1_def s2_def s3_def Let_def)
  have "next_loop (Suc ?n) ?hs s3 = Done (step_index u)"
    using assms(1,3) len by (intro next_loop_panic [OF i(4) _ nth(4)]) (simp_all add: before)
  then have "next_loop (Suc (Suc ?n)) ?hs s2 = Done (step_index (metrics_after (step_index u)))"
    using len unfolding s3_def
    by (intro next_loop_around [where before = "metrics_before C" and after = "\<lambda>s. metrics_after", OF i(3)])
      (simp_all add: nth mid_metrics_around del: next_loop.simps)
  then have "next_loop (Suc (Suc (Suc ?n))) ?hs s1 =
      Done (step_index (logger_after C s1 (step_index (metrics_after (step_index u)))))"
    using len unfolding s2_def
    by (intro next_loop_around [where before = "logger_before C" and after = "logger_after C", OF i(2)])
      (simp_all add: nth(2) [unfolded One_nat_def] mid_logger_around del: next_loop.simps)
  then have "next_loop (Suc (Suc (Suc (Suc ?n)))) ?hs s0 = Done (stack_after C s u)"
    using len unfolding s1_def stack_after_def s0_def [symmetric] Let_def
    by (intro next_loop_around [where before = "telemetry_before C" and after = "telemetry_after C", OF i(1)])
      (simp_all add: nth mid_telemetry_around del: next_loop.simps)
  then show ?thesis unfolding gin_next_def len s0_def by (simp add: eval_nat_numeral del: next_loop.simps)
qed

lemma next_main:
  assumes "length hs < 59"
    and post: "\<And>t n. gx_index (fst t) = 4 \<Longrightarrow> length hs < n \<Longrightarrow> view t = view s \<Longrightarrow>
        settles C Q (next_loop n (main_handlers C @ hs) t)"
    and Q: "\<And>t u. Q t \<Longrightarrow> view u = view t \<Longrightarrow> Q u"
    and s: "gx_index (fst s) = -1"
  shows "\<exists>t. gin_next (Suc (length (main_handlers C @ hs))) (main_handlers C @ hs) s = Done t \<and> Q t"
proof -
  have "settles C Q (next_loop (Suc (length hs)) (main_handlers C @ hs) (stack_before C s))"
    using s by (intro post) simp_all
  then obtain u where u: "caught C (next_loop (Suc (length hs)) (main_handlers C @ hs) (stack_before C s)) = Some u" "Q u"
    unfolding settles_caught by blast
  show ?thesis by (intro exI conjI, rule main_run [OF assms(1) s u(1)], rule Q [OF u(2)]) simp
qed

lemma serve_main:
  assumes "length hs < 59"
    and "\<And>t n. gx_index (fst t) = 4 \<Longrightarrow> length hs < n \<Longrightarrow> view t = view s \<Longrightarrow>
        settles C Q (next_loop n (main_handlers C @ hs) t)"
    and "\<And>t u. Q t \<Longrightarrow> view u = view t \<Longrightarrow> Q u"
    and "gx_index (fst s) = -1"
  shows "\<exists>t. serve (main_handlers C @ hs) s = Done (write_header_now (fst t), snd t) \<and> Q t"
proof -
  have "\<exists>t. gin_next (Suc (length (main_handlers C @ hs))) (main_handlers C @ hs) s = Done t \<and> Q t"
    by (rule next_main) (fact assms)+
  then obtain t where
    "gin_next (Suc (length (main_handlers C @ hs))) (main_handlers C @ hs) s = Done t" "Q t"
    by blast
  then show ?thesis unfolding serve_def by (intro exI [of _ t]) simp
qed

section \<open>Invariants of the chain\<close>

definition everywhere :: "('st \<Rightarrow> bool) \<Rightarrow> 'st outcome \<Rightarrow> bool" where
  "everywhere I r = (case r of Done u \<Rightarrow> I u | Panicked p u \<Rightarrow> I u | Exhausted \<Rightarrow> True)"

lemma everywhere_simps [simp]:
  "everywhere I (Done u) = I u" "everywhere I (Panicked p u) = I u" "everywhere I Exhausted"
  by (simp_all add: everywhere_def)

definition keeps :: "(('v, 'g) gin_st \<Rightarrow> bool) \<Rightarrow> ('v, 'g) handler \<Rightarrow> bool" where
  "keeps I h \<longleftrightarrow> (\<forall>nx s. (\<forall>t. I t \<longrightarrow> everywhere I (nx t)) \<longrightarrow> I s \<longrightarrow> everywhere I (h nx s))"

lemma keepsI:
  "(\<And>nx s. (\<And>t. I t \<Longrightarrow> everywhere I (nx t)) \<Longrightarrow> I s \<Longrightarrow> everywhere I (h nx s)) \<Longrightarrow> keeps I h"
  unfolding keeps_def by blast

lemma keepsD:
  "keeps I h \<Longrightarrow> (\<And>t. I t \<Longrightarrow> everywhere I (nx t)) \<Longrightarrow> I s \<Longrightarrow> everywhere I (h nx s)"
  unfolding keeps_def by blast

lemma everywhere_and_then:
  "everywhere I r \<Longrightarrow> (\<And>u. I u \<Longrightarrow> everywhere I (f u)) \<Longrightarrow> everywhere I (and_then r f)"
  by (cases r) simp_all

lemma everywhere_traced:
  "(\<And>sp t. I (end_span sp t) = I t) \<Longrightarrow> everywhere I (traced n r) = everywhere I r"
  by (cases r) (simp_all add: traced_def)

lemma next_loop_keeps_at:
  assumes "\<And>t. I t \<Longrightarrow> gx_index (fst t) < int (length hs) \<Longrightarrow> keeps I (hs ! nat (gx_index (fst t)))"
    and "\<And>t. I t \<Longrightarrow> I (step_index t)"
  shows "I s \<Longrightarrow> everywhere I (next_loop n hs s)"
proof (induction n arbitrary: s)
  case (Suc n)
  have rest: "I t \<Longrightarrow> everywhere I (next_loop n hs (step_index t))" for t
    using Suc.IH assms(2) by blast
  show ?case
  proof (cases "gx_index (fst s) < int (length hs)")
    case True
    have "everywhere I ((hs ! nat (gx_index (fst s))) (\<lambda>t. next_loop n hs (step_index t)) s)"
      by (rule keepsD [OF assms(1) [OF Suc.prems True]]) (fact rest, fact Suc.prems)
    then have "everywhere I (and_then ((hs ! nat (gx_index (fst s))) (\<lambda>t. next_loop n hs (step_index t)) s)
        (\<lambda>t. next_loop n hs (step_index t)))"
      by (rule everywhere_and_then) (fact rest)
    then show ?thesis using True by simp
  qed (use Suc.prems in simp)
qed simp

lemma next_loop_keeps:
  assumes "\<forall>h \<in> set hs. keeps I h" "\<And>t. I t \<Longrightarrow> I (step_index t)" "hs \<noteq> []"
  shows "I s \<Longrightarrow> everywhere I (next_loop n hs s)"
proof (rule next_loop_keeps_at)
  show "keeps I (hs ! nat (gx_index (fst t)))" if "gx_index (fst t) < int (length hs)" for t
  proof -
    have "nat (gx_index (fst t)) < length hs" using that assms(3) by (cases "gx_index (fst t) < 0") simp_all
    then show ?thesis using assms(1) by simp
  qed
qed (use assms(2) in blast)

end
