(* ===== verification/Service.thy ===== *)
theory Service
  imports Endpoints
begin

text \<open>
  The service as a client sees it: what \<open>handle_request\<close> answers on each route, for the engine that
  \<^verbatim>\<open>main.go\<close> builds.
\<close>

section \<open>Leaves that only report an error\<close>

lemma main_route:
  assumes "handle_request C rq g = Served r" "find_route (main_engine C) (rq_method rq) (rq_path rq) = Some (rt, ps)"
  shows "r = serve (rt_handlers rt) (new_ctx rq ps (rt_path rt), g)"
  using assms by (simp add: request_found)

lemma route_handlers:
  "find_route (main_engine C) m p = Some (rt, ps) \<Longrightarrow>
     \<exists>hs. rt_handlers rt = main_handlers C @ hs \<and> (m, rt_path rt, hs) \<in> set (user_routes C) \<and>
       match_path (pattern_of (rt_path rt)) (split_on CHR ''/'' p) = Some ps"
  unfolding find_route_def
  by (drule best_route_in) (auto simp: main_engine_simps)

lemma new_ctx_simps [simp]:
  "gx_index (new_ctx r p f) = -1" "gx_request (new_ctx r p f) = r" "gx_params (new_ctx r p f) = p"
  "gx_keys (new_ctx r p f) = Map.empty" "gx_errors (new_ctx r p f) = []" "gx_status (new_ctx r p f) = StatusOK"
  "\<not> gx_written (new_ctx r p f)" "gx_sent (new_ctx r p f) = None" "gx_body (new_ctx r p f) = []"
  by (simp_all add: new_ctx_def)

section \<open>The writer\<close>

definition w_ok :: "'s st \<Rightarrow> bool" where
  "w_ok s \<longleftrightarrow> writer_ok (fst s)"

lemma w_ok_pair [simp]: "w_ok (c, g) = writer_ok c"
  by (simp add: w_ok_def)

named_theorems keep_intros

lemma keepsI_leaf: "(\<And>nx c g. I (c, g) \<Longrightarrow> everywhere I (h nx (c, g))) \<Longrightarrow> keeps I h"
  by (rule keepsI) (metis prod.collapse)

lemma w_ok_view: "view u = view t \<Longrightarrow> w_ok t \<Longrightarrow> w_ok u"
  by (simp add: view_def Let_def w_ok_def writer_ok_def)

lemma w_ok_step: "w_ok t \<Longrightarrow> w_ok (step_index t)"
  by (rule w_ok_view [OF around_view(8)])

lemma w_ok_deny [simp]: "writer_ok c \<Longrightarrow> everywhere w_ok (deny code msg (c, g))"
  by (simp add: deny_def)

lemma w_ok_fail [simp]:
  "writer_ok c \<Longrightarrow> everywhere w_ok (fail_with site code msg (c, g))"
  "writer_ok c \<Longrightarrow> everywhere w_ok (unauthorized site (c, g))"
  by (simp_all add: fail_with_def unauthorized_def)

lemma w_ok_status [simp]: "writer_ok c \<Longrightarrow> writer_ok (gin_status n c)"
  by (simp add: gin_status_def)

lemma w_ok_traced [simp]: "everywhere w_ok (traced n r) = everywhere w_ok r"
  by (rule everywhere_traced) (auto elim: w_ok_view [rotated])

lemma w_ok_create_user [keep_intros]: "keeps w_ok (h_create_user C)"
  by (rule keepsI_leaf)
    (simp add: h_create_user_def Let_def split: prod.split sum.split option.split ctx_val.split bound.split conv.split)

lemma w_ok_query_user_by_id [keep_intros]: "keeps w_ok (h_query_user_by_id C)"
  by (rule keepsI_leaf)
    (simp add: h_query_user_by_id_def Let_def split: prod.split sum.split option.split ctx_val.split bound.split conv.split)

lemma w_ok_delete_user [keep_intros]: "keeps w_ok (h_delete_user C)"
  by (rule keepsI_leaf)
    (simp add: h_delete_user_def Let_def split: prod.split sum.split option.split ctx_val.split bound.split conv.split)

lemma w_ok_update_user [keep_intros]: "keeps w_ok (h_update_user C)"
  by (rule keepsI_leaf)
    (simp add: h_update_user_def Let_def split: prod.split sum.split option.split ctx_val.split bound.split conv.split)

lemma w_ok_update_role [keep_intros]: "keeps w_ok (h_update_role C)"
  by (rule keepsI_leaf)
    (simp add: h_update_role_def Let_def split: prod.split sum.split option.split ctx_val.split bound.split conv.split)

lemma w_ok_disable_user [keep_intros]: "keeps w_ok (h_disable_user C)"
  by (rule keepsI_leaf)
    (simp add: h_disable_user_def Let_def split: prod.split sum.split option.split ctx_val.split bound.split conv.split)

lemma w_ok_query [keep_intros]: "keeps w_ok (h_query C)"
  by (rule keepsI_leaf)
    (simp add: h_query_def Let_def split: prod.split sum.split option.split ctx_val.split bound.split conv.split)

lemma w_ok_authenticate [keep_intros]: "keeps w_ok (h_authenticate C)"
  by (rule keepsI_leaf)
    (simp add: h_authenticate_def Let_def split: prod.split sum.split option.split ctx_val.split bound.split conv.split)

lemma keeps_around:
  assumes "\<And>s. I s \<Longrightarrow> I (before s)" "\<And>s t. I t \<Longrightarrow> I (after s t)" "\<And>s t. I t \<Longrightarrow> I (crash s t)"
    and "\<And>nx s. h nx s = defer_then (nx (before s)) (after s) (crash s)"
  shows "keeps I h"
proof (rule keepsI, goal_cases)
  case (1 nx s)
  then have "everywhere I (nx (before s))" using assms(1) by blast
  then show ?case unfolding assms(4) using assms(2,3) by (cases "nx (before s)") simp_all
qed

lemma w_ok_around [simp]:
  "w_ok (telemetry_before C s) = w_ok s" "w_ok (telemetry_after C r s) = w_ok s"
  "w_ok (telemetry_crash C r s) = w_ok s" "w_ok (logger_before C s) = w_ok s"
  "w_ok (logger_after C r s) = w_ok s" "w_ok (metrics_before C s) = w_ok s" "w_ok (metrics_after s) = w_ok s"
  by (auto elim: w_ok_view [rotated])

lemma w_ok_telemetry [keep_intros]: "keeps w_ok (mid_telemetry C)"
  by (rule keeps_around [OF _ _ _ mid_telemetry_around]) simp_all

lemma w_ok_logger [keep_intros]: "keeps w_ok (mid_logger C)"
  by (rule keeps_around [OF _ _ _ mid_logger_around]) simp_all

lemma w_ok_metrics [keep_intros]: "keeps w_ok (mid_metrics C)"
  by (rule keeps_around [OF _ _ _ mid_metrics_around]) simp_all

lemma w_ok_recovered [simp]: "w_ok u \<Longrightarrow> w_ok (recovered C p u)"
  by (cases u) (simp add: recovered_def)

lemma w_ok_panic [keep_intros]: "keeps w_ok (mid_panic C)"
proof (rule keepsI, goal_cases)
  case (1 nx s)
  then have "everywhere w_ok (nx s)" by blast
  then show ?case by (cases "nx s") (simp_all add: mid_panic_cases)
qed

lemma w_ok_authorized [keep_intros]: "keeps w_ok (mid_authorized C roles)"
proof (rule keepsI, goal_cases)
  case (1 nx s)
  then show ?case
    by (cases s) (simp add: mid_authorized_def split: option.split ctx_val.split)
qed

lemma w_ok_mid_authenticate [keep_intros]: "keeps w_ok (mid_authenticate C)"
proof (rule keepsI, goal_cases)
  case (1 nx s)
  then show ?case
    by (cases s) (simp add: mid_authenticate_def Let_def split: prod.split sum.split)
qed

lemma w_ok_error [keep_intros]: "keeps w_ok (mid_error C)"
proof (rule keepsI, goal_cases)
  case (1 nx s)
  then have "everywhere w_ok (nx s)" by blast
  then show ?case
    unfolding mid_error_def
    by (rule everywhere_and_then) (auto simp: Let_def split: option.split)
qed

lemma user_routes_w_ok: "(m, p, hs) \<in> set (user_routes C) \<Longrightarrow> \<forall>h \<in> set (main_handlers C @ hs). keeps w_ok h"
  by (auto simp: user_routes_def main_handlers_def mid_user_def mid_admin_def intro: keep_intros)

section \<open>Every request is answered\<close>

lemma route_length: "(m, p, hs) \<in> set (user_routes C) \<Longrightarrow> length hs \<le> 3 \<and> hs \<noteq> []"
  by (auto simp: user_routes_def)

text \<open>The chain behind the stack settles, and keeps what every handler keeps.\<close>

lemma main_chain_settles:
  assumes "\<forall>h \<in> set (main_handlers C @ hs). steady h" "\<forall>h \<in> set (main_handlers C @ hs). keeps I h"
    and "length hs \<le> 3" "\<And>t u. I t \<Longrightarrow> view u = view t \<Longrightarrow> I u"
    and "\<And>p u. I u \<Longrightarrow> I (recovered C p u)"
    and "gx_index (fst t) = 4" "length hs < n" "I t"
  shows "settles C I (next_loop n (main_handlers C @ hs) t)"
proof -
  let ?hs = "main_handlers C @ hs"
  have "advances t (next_loop n ?hs t)"
  proof (rule next_loop_advances [OF _ assms(1)])
    show "length ?hs < 63" "0 \<le> gx_index (fst t)" "nat (int (length ?hs) - gx_index (fst t)) < n"
      using assms(3,6,7) by (simp_all add: main_handlers_def)
  qed
  moreover have "everywhere I (next_loop n ?hs t)"
  proof (rule next_loop_keeps [OF assms(2)])
    show "I u \<Longrightarrow> I (step_index u)" for u by (rule assms(4)) simp_all
    show "?hs \<noteq> []" by (simp add: main_handlers_def)
  qed (fact assms(8))
  ultimately show ?thesis
    using assms(5) by (cases "next_loop n ?hs t") (simp_all del: next_loop.simps)
qed

lemma next_main_keeps:
  assumes "\<forall>h \<in> set (main_handlers C @ hs). steady h" "\<forall>h \<in> set (main_handlers C @ hs). keeps I h"
    and "length hs \<le> 3" "\<And>t u. I t \<Longrightarrow> view u = view t \<Longrightarrow> I u"
    and "\<And>p u. I u \<Longrightarrow> I (recovered C p u)"
    and "gx_index (fst s) = -1" "I s"
  shows "\<exists>t. gin_next (Suc (length (main_handlers C @ hs))) (main_handlers C @ hs) s = Done t \<and> I t"
proof (rule next_main)
  fix t n
  assume t: "gx_index (fst t) = 4" "length hs < n" "view t = view s"
  then have "I t" using assms(4,7) by blast
  then show "settles C I (next_loop n (main_handlers C @ hs) t)"
    using t by (intro main_chain_settles [OF assms(1-5)])
next
  show "length hs < 59" using assms(3) by simp
next
  show "I u" if "I t" "view u = view t" for t u using assms(4) that .
qed (fact assms(6))

lemma main_answers:
  "(\<exists>code \<in> {301, 307}. handle_request C rq g = Redirected code) \<or>
   (\<exists>c h. handle_request C rq g = Served (Done (c, h)) \<and> writer_ok c \<and> gx_written c)"
proof (cases "find_route (main_engine C) (rq_method rq) (rq_path rq)")
  case (Some q)
  obtain rt ps where q: "q = (rt, ps)" by fastforce
  with Some obtain hs where hs: "rt_handlers rt = main_handlers C @ hs"
    "(rq_method rq, rt_path rt, hs) \<in> set (user_routes C)"
    using route_handlers by blast
  let ?s = "(new_ctx rq ps (rt_path rt), g)"
  have "\<exists>t. gin_next (Suc (length (main_handlers C @ hs))) (main_handlers C @ hs) ?s = Done t \<and> w_ok t"
    using route_length [OF hs(2)]
    by (intro next_main_keeps [OF user_routes_steady [OF hs(2)] user_routes_w_ok [OF hs(2)]] w_ok_recovered)
      (simp_all, erule w_ok_view)
  then obtain t where "serve (rt_handlers rt) ?s = Done (write_header_now (fst t), snd t)" "w_ok t"
    unfolding serve_def hs(1) by auto
  then show ?thesis
    using request_found [OF Some [unfolded q], of g] by (auto simp: w_ok_def)
next
  case None
  show ?thesis using request_not_found [OF None, of g]
  proof (elim disjE exE)
    fix ps
    assume served: "handle_request C rq g = Served (serve_not_found (main_handlers C) (new_ctx rq ps [], g))"
    let ?s = "((new_ctx rq ps [])\<lparr>gx_status := StatusNotFound\<rparr>, g)"
    have "\<exists>t. gin_next (Suc (length (main_handlers C @ []))) (main_handlers C @ []) ?s = Done t \<and> w_ok t"
    proof (rule next_main_keeps)
      show "\<forall>h \<in> set (main_handlers C @ []). steady h" "\<forall>h \<in> set (main_handlers C @ []). keeps w_ok h"
        by (auto simp: main_handlers_def intro: steady_intros keep_intros)
    qed (simp_all add: writer_ok_def, erule w_ok_view)
    then obtain t where t: "gin_next (Suc (length (main_handlers C))) (main_handlers C) ?s = Done t" "w_ok t"
      by auto
    have "\<exists>u. serve_not_found (main_handlers C) (new_ctx rq ps [], g) = Done u \<and> w_ok u \<and> gx_written (fst u)"
      using t by (auto simp: serve_not_found_def w_ok_def write_body_def Let_def writer_ok_def write_header_now_def)
    then show ?thesis
      using served by (auto simp: w_ok_def)
  qed simp
qed

end
