(* ===== verification/Safety.thy ===== *)
theory Safety
  imports Service
begin

text \<open>
  What no request can do, whatever it contains and however the connection to the database fails: the
  table of users keeps its invariant, and the routes that change or delete a user change nothing.
\<close>

section \<open>The database invariant\<close>

definition db_ok :: "('s \<Rightarrow> bool) \<Rightarrow> 's st \<Rightarrow> bool" where
  "db_ok good s \<longleftrightarrow> good (wd_store (ap_world (snd s))) \<and>
     (\<forall>usr. gx_keys (fst s) ''user'' = Some (KUser usr) \<longrightarrow> typed_user usr)"

lemma db_ok_view: "view u = view t \<Longrightarrow> db_ok good t \<Longrightarrow> db_ok good u"
  by (simp add: view_def Let_def db_ok_def)

lemma db_ok_around [simp]:
  "db_ok good (telemetry_before C s) = db_ok good s" "db_ok good (telemetry_after C r s) = db_ok good s"
  "db_ok good (telemetry_crash C r s) = db_ok good s" "db_ok good (logger_before C s) = db_ok good s"
  "db_ok good (logger_after C r s) = db_ok good s" "db_ok good (metrics_before C s) = db_ok good s"
  "db_ok good (metrics_after s) = db_ok good s"
  by (auto elim: db_ok_view [rotated])

lemma db_ok_ctx [simp]:
  "db_ok good (gin_error e c, g) = db_ok good (c, g)" "db_ok good (gin_json n j c, g) = db_ok good (c, g)"
  "db_ok good (gin_abort c, g) = db_ok good (c, g)" "db_ok good (gin_status n c, g) = db_ok good (c, g)"
  "db_ok good (gin_set ''claims'' v c, g) = db_ok good (c, g)"
  by (simp_all add: db_ok_def gin_status_def write_header_def gin_set_def)

lemma db_ok_app [simp]:
  "db_ok good (c, app_log f C c' msg args g) = db_ok good (c, g)"
  "app_now C g = (t, g') \<Longrightarrow> db_ok good (c, g') = db_ok good (c, g)"
  by (auto simp: db_ok_def app_log_def app_now_def time_now_def split: prod.splits)

lemma db_ok_now: "db_ok good (c, g) \<Longrightarrow> app_now C g = (t, g') \<Longrightarrow> db_ok good (c, g')"
  by simp

lemma db_ok_world:
  "db_ok good (c, g) \<Longrightarrow> (good (wd_store (ap_world g)) \<Longrightarrow> good (wd_store w)) \<Longrightarrow>
     db_ok good (c, g\<lparr>ap_world := w\<rparr>)"
  by (auto simp: db_ok_def)

lemma db_ok_deny [simp]: "everywhere (db_ok good) (deny code msg (c, g)) = db_ok good (c, g)"
  by (simp add: deny_def)

lemma db_ok_fail [simp]:
  "everywhere (db_ok good) (fail_with site code msg (c, g)) = db_ok good (c, g)"
  "everywhere (db_ok good) (unauthorized site (c, g)) = db_ok good (c, g)"
  by (simp_all add: fail_with_def unauthorized_def)

lemma db_ok_traced [simp]: "everywhere (db_ok good) (traced n r) = everywhere (db_ok good) r"
  by (rule everywhere_traced) (auto elim: db_ok_view [rotated])

lemma db_ok_user: "db_ok good (c, g) \<Longrightarrow> gin_get ''user'' c = Some (KUser usr) \<Longrightarrow> typed_user usr"
  by (simp add: db_ok_def gin_get_def)

lemma put_world_same [simp]: "put_world (ap_world g) g = g"
  by (simp add: put_world_def)

lemma put_world_simps [simp]:
  "ap_world (put_world w g) = w" "put_world w' (put_world w g) = put_world w' g"
  by (simp_all add: put_world_def)

text \<open>The conversions give well-formed roles.\<close>

lemma conv_roles:
  "to_bus_update_user T uu = Conv upd \<Longrightarrow> uu_roles upd = None"
  "to_bus_update_user_roles ur = Ok upd \<Longrightarrow> case uu_roles upd of None \<Rightarrow> True | Some rs \<Rightarrow> wf_roles rs"
  by (auto simp: to_bus_update_user_def to_bus_update_user_roles_def dest!: parse_many_roles_wf
      split: option.splits sum.splits)

context kept_store
begin

text \<open>A call that leaves a good store behind.\<close>

lemma db_ok_put:
  assumes "db_ok good (c, put_world w g)" "good (wd_store w) \<Longrightarrow> good (wd_store w')"
  shows "db_ok good (c, put_world w' g)"
  using assms by (auto simp: db_ok_def put_world_def)

lemma db_ok_create:
  assumes "db_ok good (c, put_world w g)" "rand_law E" "to_bus_new_user T nu = Ok bu" "bus_create E api w bu = (r, w')"
  shows "db_ok good (c, put_world w' g)"
proof -
  have "wf_roles (nu_roles bu)"
    using assms(3) by (auto simp: to_bus_new_user_def dest!: parse_many_roles_wf split: sum.splits)
  then show ?thesis
    using bus_create_good [OF _ assms(2), of w bu] assms(4) by (intro db_ok_put [OF assms(1)]) simp
qed

lemma db_ok_by_id:
  assumes "db_ok good (c, put_world w g)" "bus_query_by_id api w i = (r, w')"
  shows "db_ok good (c, put_world w' g)"
  using bus_by_id_good(1) [OF _ assms(2)] by (intro db_ok_put [OF assms(1)])

lemma db_ok_found:
  assumes "db_ok good (c, put_world w g)" "bus_query_by_id api w i = (Ok u, w')" "uuid_parse p = Ok i"
  shows "typed_user u"
  using bus_by_id_good(2) [OF _ assms(2) uuid_parse_wf [OF assms(3)] refl] assms(1) by (simp add: db_ok_def put_world_def)

lemma db_ok_update:
  assumes "db_ok good (c, put_world w g)" "typed_user usr" "bus_update E api w usr upd = (r, w')"
    and "case uu_roles upd of None \<Rightarrow> True | Some rs \<Rightarrow> wf_roles rs"
  shows "db_ok good (c, put_world w' g)"
proof -
  have "typed_user (final_update E n upd usr)" for n
    using assms(2,4) by (auto simp: typed_user_def final_update_def split: option.splits)
  then show ?thesis
    using bus_update_good [of w E upd usr] assms(3) by (intro db_ok_put [OF assms(1)]) simp
qed

lemma db_ok_delete:
  assumes "db_ok good (c, put_world w g)" "typed_user usr" "bus_delete api w usr = (r, w')"
  shows "db_ok good (c, put_world w' g)"
  using bus_delete_good [OF _ assms(2), of w] assms(3) by (intro db_ok_put [OF assms(1)]) simp

lemma db_ok_list:
  assumes "db_ok good (c, put_world w g)" "bus_query api w f ord p = (r, w')"
  shows "db_ok good (c, put_world w' g)"
  using bus_query_good [of w f ord p] assms(2) by (intro db_ok_put [OF assms(1)]) simp

lemma db_ok_count:
  assumes "db_ok good (c, put_world w g)" "bus_count api w f = (r, w')"
  shows "db_ok good (c, put_world w' g)"
  using bus_count_good [of w f] assms(2) by (intro db_ok_put [OF assms(1)]) simp

lemma db_ok_authenticate:
  assumes "db_ok good (c, put_world w g)" "bus_authenticate E api w m p = (r, w')"
  shows "db_ok good (c, put_world w' g)"
  using bus_authenticate_good [of w E m p] assms(2) by (intro db_ok_put [OF assms(1)]) simp

lemmas db_ok_create_first = db_ok_create [where w = "ap_world g" and g = g for g, simplified put_world_same]

lemmas db_ok_first =
  db_ok_by_id [where w = "ap_world g" and g = g for g, simplified put_world_same]
  db_ok_list [where w = "ap_world g" and g = g for g, simplified put_world_same]
  db_ok_authenticate [where w = "ap_world g" and g = g for g, simplified put_world_same]

lemmas db_ok_update_first = db_ok_update [where w = "ap_world g" and g = g for g, simplified put_world_same]
lemmas db_ok_found_first = db_ok_found [where w = "ap_world g" and g = g for g, simplified put_world_same]

text \<open>Every handler keeps the invariant of the database.\<close>

lemma db_keeps_create_user:
  assumes "cf_api C = api" "rand_law (cf_env C)"
  shows "keeps (db_ok good) (h_create_user C)"
  by (rule keepsI_leaf)
    (auto simp: assms(1) h_create_user_def Let_def split: prod.split sum.split bound.split
      intro: db_ok_create_first [OF _ assms(2)])

lemma db_keeps_query_user_by_id:
  assumes "cf_api C = api"
  shows "keeps (db_ok good) (h_query_user_by_id C)"
  by (rule keepsI_leaf)
    (auto simp: assms h_query_user_by_id_def Let_def split: prod.split sum.split intro: db_ok_first)

lemma db_keeps_delete_user:
  assumes "cf_api C = api"
  shows "keeps (db_ok good) (h_delete_user C)"
  by (rule keepsI_leaf)
    (auto simp: assms h_delete_user_def Let_def split: prod.split sum.split option.split ctx_val.split
      intro: db_ok_first db_ok_found_first db_ok_delete)

lemma db_keeps_update_user:
  assumes "cf_api C = api"
  shows "keeps (db_ok good) (h_update_user C)"
  by (rule keepsI_leaf)
    (auto simp: assms h_update_user_def Let_def conv_roles
      split: prod.split sum.split option.split ctx_val.split bound.split conv.split
      intro: db_ok_update_first db_ok_user)

lemma db_keeps_query:
  assumes "cf_api C = api"
  shows "keeps (db_ok good) (h_query C)"
  by (rule keepsI_leaf)
    (auto simp: assms h_query_def Let_def split: prod.split sum.split bound.split
      intro: db_ok_first db_ok_count)

lemma db_keeps_authenticate:
  assumes "cf_api C = api"
  shows "keeps (db_ok good) (h_authenticate C)"
  by (rule keepsI_leaf)
    (auto simp: assms h_authenticate_def Let_def split: prod.split sum.split bound.split
      intro: db_ok_first)

lemma db_keeps_update_role:
  assumes "cf_api C = api"
  shows "keeps (db_ok good) (h_update_role C)"
  by (rule keepsI_leaf)
    (auto simp: assms h_update_role_def Let_def
      split: prod.split sum.split option.split ctx_val.split bound.split
      intro: db_ok_first db_ok_update db_ok_found_first conv_roles)

lemma db_keeps_disable_user:
  assumes "cf_api C = api"
  shows "keeps (db_ok good) (h_disable_user C)"
  by (rule keepsI_leaf)
    (auto simp: assms h_disable_user_def Let_def to_bus_update_user_def update_user_zero_def
      split: prod.split sum.split option.split ctx_val.split
      intro: db_ok_first)

lemma db_keeps_mid_authenticate:
  assumes "cf_api C = api"
  shows "keeps (db_ok good) (mid_authenticate C)"
proof (rule keepsI, goal_cases)
  case (1 nx s)
  obtain c g where s: "s = (c, g)" by fastforce
  have set_user: "db_ok good (gin_set ''user'' (KUser u) (gin_set ''claims'' v c), g')"
    if "db_ok good (c, g')" "typed_user u" for u v g'
    using that by (simp add: db_ok_def gin_set_def)
  show ?case
    using 1(2) unfolding s
    by (auto simp: assms mid_authenticate_def Let_def put_world_def [symmetric] split: prod.split sum.split
        intro: db_ok_first db_ok_found_first db_ok_now set_user intro!: 1(1))
qed

lemma db_keeps_authorized: "keeps (db_ok good) (mid_authorized C roles)"
proof (rule keepsI, goal_cases)
  case (1 nx s)
  then show ?case by (cases s) (simp add: mid_authorized_def split: option.split ctx_val.split)
qed

lemma db_ok_recovered: "db_ok good u \<Longrightarrow> db_ok good (recovered C p u)"
  by (cases u) (auto simp: recovered_def db_ok_def app_log_def split: option.split)

lemma db_keeps_panic: "keeps (db_ok good) (mid_panic C)"
proof (rule keepsI, goal_cases)
  case (1 nx s)
  then have "everywhere (db_ok good) (nx s)" by blast
  then show ?case by (cases "nx s") (simp_all add: mid_panic_cases db_ok_recovered)
qed

lemma db_keeps_around:
  "keeps (db_ok good) (mid_telemetry C)" "keeps (db_ok good) (mid_logger C)" "keeps (db_ok good) (mid_metrics C)"
  by (rule keeps_around [OF _ _ _ mid_telemetry_around] keeps_around [OF _ _ _ mid_logger_around]
      keeps_around [OF _ _ _ mid_metrics_around]; simp)+

lemma db_keeps_stack: "h \<in> set (main_handlers C) \<Longrightarrow> keeps (db_ok good) h"
  using db_keeps_around db_keeps_panic by (auto simp: main_handlers_def)

lemma db_keeps_routes:
  assumes "cf_api C = api" "rand_law (cf_env C)" "(m, p, hs) \<in> set (user_routes C)"
  shows "\<forall>h \<in> set (main_handlers C @ hs). keeps (db_ok good) h"
  using assms(3) db_keeps_stack [of _ C] db_keeps_create_user [OF assms(1,2)] db_keeps_query_user_by_id [OF assms(1)]
    db_keeps_delete_user [OF assms(1)] db_keeps_update_user [OF assms(1)] db_keeps_query [OF assms(1)]
    db_keeps_authenticate [OF assms(1)] db_keeps_update_role [OF assms(1)] db_keeps_disable_user [OF assms(1)]
    db_keeps_mid_authenticate [OF assms(1)] db_keeps_authorized
  by (auto simp: user_routes_def mid_user_def mid_admin_def)

text \<open>Whatever the request and whatever the connection does, the store is good after it.\<close>

lemma request_keeps_good:
  assumes "cf_api C = api" "rand_law (cf_env C)" "good (wd_store (ap_world g))"
    and "handle_request C rq g = Served (Done (c, h))"
  shows "good (wd_store (ap_world h))"
proof (cases "find_route (main_engine C) (rq_method rq) (rq_path rq)")
  case (Some q)
  obtain rt ps where q: "q = (rt, ps)" by fastforce
  with Some obtain hs where hs: "rt_handlers rt = main_handlers C @ hs"
    "(rq_method rq, rt_path rt, hs) \<in> set (user_routes C)"
    using route_handlers by blast
  let ?s = "(new_ctx rq ps (rt_path rt), g)"
  have "\<exists>t. gin_next (Suc (length (main_handlers C @ hs))) (main_handlers C @ hs) ?s = Done t \<and> db_ok good t"
  proof (rule next_main_keeps [OF user_routes_steady [OF hs(2)] db_keeps_routes [OF assms(1,2) hs(2)]])
    show "db_ok good ?s" using assms(3) by (auto simp: db_ok_def)
  qed (use route_length [OF hs(2)] in \<open>auto intro: db_ok_recovered elim: db_ok_view [rotated]\<close>)
  then obtain t where "serve (rt_handlers rt) ?s = Done (write_header_now (fst t), snd t)" "db_ok good t"
    unfolding serve_def hs(1) by auto
  then show ?thesis
    using assms(4) request_found [OF Some [unfolded q], of g] by (auto simp: db_ok_def)
next
  case None
  obtain ps where served: "handle_request C rq g = Served (serve_not_found (main_handlers C) (new_ctx rq ps [], g))"
    using request_not_found [OF None, of g] assms(4) by auto
  let ?s = "((new_ctx rq ps [])\<lparr>gx_status := StatusNotFound\<rparr>, g)"
  have "\<exists>t. gin_next (Suc (length (main_handlers C @ []))) (main_handlers C @ []) ?s = Done t \<and> db_ok good t"
  proof (rule next_main_keeps)
    show "\<forall>h \<in> set (main_handlers C @ []). steady h" "\<forall>h \<in> set (main_handlers C @ []). keeps (db_ok good) h"
      using db_keeps_stack by (auto simp: main_handlers_def intro: steady_intros)
    show "db_ok good ?s" using assms(3) by (auto simp: db_ok_def)
  qed (auto intro: db_ok_recovered elim: db_ok_view [rotated])
  then obtain t where t: "gin_next (Suc (length (main_handlers C))) (main_handlers C) ?s = Done t" "db_ok good t"
    by auto
  then have "wd_store (ap_world h) = wd_store (ap_world (snd t))"
    using assms(4) served by (auto simp: serve_not_found_def split: if_splits)
  then show ?thesis using t(2) by (simp add: db_ok_def)
qed

end

context user_store
begin

text \<open>A request that has the store alone leaves well-formed users in the table.\<close>

lemma request_keeps_db:
  assumes "cf_api C = api" "rand_law (cf_env C)" "rep (wd_store (ap_world g)) us"
    and "handle_request C rq g = Served (Done (c, h))"
  shows "\<exists>us'. rep (wd_store (ap_world h)) us' \<and> users_ok us'"
  using kept.request_keeps_good [OF assms(1,2) _ assms(4)] assms(3) rep_ok by blast

end

end
