(* ===== verification/Effects.thy ===== *)
theory Effects
  imports Safety
begin

text \<open>
  What the routes of a single user do in the engine of \<^verbatim>\<open>main.go\<close>. A route runs its endpoint first and
  the authentication after it, so \<^verbatim>\<open>GET /v1/users/:id\<close> answers anybody, and the endpoints that change
  or delete a user never find one in the context and only record an error that nobody reports.
\<close>

section \<open>Endpoints without a user in the context\<close>

definition changing :: "('s, 'k) config \<Rightarrow> 's hd \<Rightarrow> bool" where
  "changing C h \<longleftrightarrow> h = h_delete_user C \<or> h = h_update_user C \<or> h = h_update_role C \<or> h = h_disable_user C"

lemma no_user_error:
  assumes "changing C h" "gx_keys c ''user'' = None"
  shows "\<exists>e g'. h nx (c, g) = Done (gin_error e c, g') \<and> ap_world g' = ap_world g"
  using assms
  by (auto simp: changing_def h_delete_user_def h_update_user_def h_update_role_def h_disable_user_def Let_def
      traced_simps gin_get_def fail_with_def unauthorized_def split: sum.split)

section \<open>The authentication behind an endpoint\<close>

text \<open>
  A response that is still to be sent with status 200 and no body, or one error that has been sent.
\<close>

definition quiet :: "'s st \<Rightarrow> bool" where
  "quiet s \<longleftrightarrow>
     (\<not> gx_written (fst s) \<and> gx_status (fst s) = StatusOK \<and> gx_body (fst s) = []) \<or>
     (gx_written (fst s) \<and> gx_sent (fst s) = Some (gx_status (fst s)) \<and>
        gx_status (fst s) \<in> {StatusUnauthorized, StatusInternalServerError} \<and>
        (\<exists>m. gx_body (fst s) = [gin_H m]))"

definition settled_quiet :: "('s \<Rightarrow> bool) \<Rightarrow> nat \<Rightarrow> 's st outcome \<Rightarrow> bool" where
  "settled_quiet R k r \<longleftrightarrow>
     (\<exists>u. r = Done u \<and> quiet u \<and> R (wd_store (ap_world (snd u))) \<and> int k \<le> gx_index (fst u))"

lemma deny_quiet:
  assumes "\<not> gx_written c" "gx_body c = []" "code \<in> {StatusUnauthorized, StatusInternalServerError}"
    and "R (wd_store (ap_world g))" "k \<le> 63"
  shows "settled_quiet R k (deny code msg (c, g))"
  using assms
  by (auto simp: settled_quiet_def deny_def quiet_def gin_json_fresh gin_abort_def abort_index_def)

lemma quiet_end:
  assumes "settled_quiet R (length hs) r"
  shows "settled_quiet R (length hs) (and_then r (\<lambda>t. next_loop (Suc n) hs (step_index t)))"
proof -
  obtain u where u: "r = Done u" "quiet u" "R (wd_store (ap_world (snd u)))" "int (length hs) \<le> gx_index (fst u)"
    using assms by (auto simp: settled_quiet_def)
  have "next_loop (Suc n) hs (step_index u) = Done (step_index u)"
    using u(4) by (intro next_loop_end) simp
  then show ?thesis
    using u by (simp add: settled_quiet_def quiet_def step_index_def)
qed

lemma authorized_quiet:
  assumes "gx_index (fst s) = int i" "Suc i = length hs" "hs ! i = mid_authorized C roles" "length hs < 63"
    and "\<not> gx_written (fst s)" "gx_status (fst s) = StatusOK" "gx_body (fst s) = []"
    and "R (wd_store (ap_world (snd s)))"
  shows "settled_quiet R (length hs) (next_loop (Suc (Suc n)) hs s)"
proof -
  have nx: "next_loop (Suc n) hs (step_index s) = Done (step_index s)"
    using assms(1,2) by (intro next_loop_end) simp
  have here: "settled_quiet R (length hs) (Done (step_index s))"
    using assms by (auto simp: settled_quiet_def quiet_def step_index_def)
  have "settled_quiet R (length hs) (mid_authorized C roles (\<lambda>t. next_loop (Suc n) hs (step_index t)) s)"
    using assms deny_quiet [of "fst s" StatusUnauthorized R "snd s" "length hs"] here nx
    by (simp add: mid_authorized_def split: option.split ctx_val.split)
  then show ?thesis
    unfolding next_loop_step [OF assms(1), of hs, unfolded assms(2) [symmetric], OF lessI] assms(3)
    by (rule quiet_end)
qed

text \<open>A response that has been sent with a user in front.\<close>

definition shows_user :: "app_user \<Rightarrow> ('s \<Rightarrow> bool) \<Rightarrow> 's st \<Rightarrow> bool" where
  "shows_user u R s \<longleftrightarrow> gx_written (fst s) \<and> gx_sent (fst s) = Some StatusOK \<and>
     gx_body (fst s) \<noteq> [] \<and> hd (gx_body (fst s)) = app_user_json u \<and> R (wd_store (ap_world (snd s)))"

lemma shows_user_view: "view u = view t \<Longrightarrow> shows_user a R t \<Longrightarrow> shows_user a R u"
  by (simp add: view_def Let_def shows_user_def)

lemma shows_user_deny [simp]:
  "gx_written c \<Longrightarrow> code \<in> {StatusUnauthorized, StatusInternalServerError} \<Longrightarrow> shows_user a R (c, g) \<Longrightarrow>
     everywhere (shows_user a R) (deny code msg (c, g))"
  by (auto simp: deny_def shows_user_def gin_json_late gin_abort_def)

lemma shows_user_step: "shows_user a R t \<Longrightarrow> shows_user a R (step_index t)"
  by (rule shows_user_view) simp_all

lemma shows_user_around [simp]:
  "shows_user a R (telemetry_before C s) = shows_user a R s" "shows_user a R (telemetry_after C r s) = shows_user a R s"
  "shows_user a R (telemetry_crash C r s) = shows_user a R s" "shows_user a R (logger_before C s) = shows_user a R s"
  "shows_user a R (logger_after C r s) = shows_user a R s" "shows_user a R (metrics_before C s) = shows_user a R s"
  "shows_user a R (metrics_after s) = shows_user a R s"
  by (auto elim: shows_user_view [rotated])

lemma shows_user_late:
  "shows_user a R (c, g) \<Longrightarrow> body_allowed n \<Longrightarrow> shows_user a R (gin_json n j c, g)"
  by (auto simp: shows_user_def gin_json_late)

lemma shows_user_recovered: "shows_user a R u \<Longrightarrow> shows_user a R (recovered C p u)"
  by (cases u) (auto simp: recovered_def shows_user_def gin_json_late app_log_def gin_abort_def split: option.split)

context user_store
begin

lemma authenticate_quiet:
  assumes "cf_api C = api"
    and "gx_index (fst s) = int i" "Suc (Suc i) = length hs" "hs ! i = mid_authenticate C"
    and "hs ! Suc i = mid_authorized C roles" "length hs < 63"
    and "\<not> gx_written (fst s)" "gx_status (fst s) = StatusOK" "gx_body (fst s) = []"
    and "rep (wd_store (ap_world (snd s))) us"
  shows "settled_quiet (\<lambda>d. rep d us) (length hs) (next_loop (Suc (Suc (Suc n))) hs s)"
proof -
  obtain c g where s: "s = (c, g)" by fastforce
  let ?R = "\<lambda>d. rep d us"
  obtain now g1 where now: "app_now C g = (now, g1)" by fastforce
  then have rep1: "rep (wd_store (ap_world g1)) us"
    using assms(10) by (auto simp: s app_now_def time_now_def split: prod.splits)
  have nx: "settled_quiet ?R (length hs)
      (next_loop (Suc (Suc n)) hs (step_index (gin_set a v (gin_set b v' c), g')))"
    if "?R (wd_store (ap_world g'))" for a v b v' g'
  proof (rule authorized_quiet [OF _ assms(3) assms(5) assms(6)])
    show "gx_index (fst (step_index (gin_set a v (gin_set b v' c), g'))) = int (Suc i)"
      using assms(2) by (simp add: s)
  qed (use assms(7-9) that in \<open>simp_all add: s step_index_def gin_set_def\<close>)
  have deny: "settled_quiet ?R (length hs) (deny code msg (c, g'))"
    if "code \<in> {StatusUnauthorized, StatusInternalServerError}" "?R (wd_store (ap_world g'))" for code msg g'
    using assms(6,7,9) that by (intro deny_quiet) (simp_all add: s)
  have log: "ap_world (app_log f C c' m as g') = ap_world g'" for f c' m as g' by (simp add: app_log_def)
  have "settled_quiet ?R (length hs) (mid_authenticate C (\<lambda>t. next_loop (Suc (Suc n)) hs (step_index t)) s)"
  proof (cases "verify_token (cf_auth C) now (header_get (gx_request c) ''Authorization'')")
    case (Inr cl)
    show ?thesis
    proof (cases "cl_subject cl = []")
      case named: False
      show ?thesis
      proof (cases "uuid_parse (cl_subject cl)")
        case (Inr i)
        obtain r w where q: "bus_query_by_id api (ap_world g1) i = (r, w)" by fastforce
        then have rep2: "rep (wd_store w) us" using bus_by_id_any [OF rep1] by blast
        show ?thesis
          using \<open>verify_token _ _ _ = Inr cl\<close> named Inr q rep2
          by (cases r) (simp_all add: s mid_authenticate_def now assms(1) deny nx log Let_def del: next_loop.simps)
      qed (use Inr named rep1 in \<open>simp add: s mid_authenticate_def now deny\<close>)
    qed (use Inr rep1 in \<open>simp add: s mid_authenticate_def now deny\<close>)
  qed (use rep1 in \<open>simp add: s mid_authenticate_def now deny\<close>)
  then show ?thesis
    unfolding next_loop_step [OF assms(2), of hs, unfolded assms(3) [symmetric], OF less_SucI [OF lessI]] assms(4)
    by (rule quiet_end)
qed

text \<open>A route with a changing endpoint.\<close>

lemma changing_route_settles:
  assumes "cf_api C = api" "hs = [h, mid_authenticate C, mid_authorized C roles]" "changing C h"
    and "gx_index (fst t) = 4" "length hs < n" "gx_keys (fst t) ''user'' = None"
    and "\<not> gx_written (fst t)" "gx_status (fst t) = StatusOK" "gx_body (fst t) = []"
    and "rep (wd_store (ap_world (snd t))) us"
  shows "settled_quiet (\<lambda>d. rep d us) 7 (next_loop n (main_handlers C @ hs) t)"
proof -
  let ?hs = "main_handlers C @ hs"
  have len: "length ?hs = 7" and nth: "?hs ! 4 = h" "?hs ! 5 = mid_authenticate C" "?hs ! 6 = mid_authorized C roles"
    using assms(2) by (simp_all add: main_handlers_def)
  obtain m where n: "n = Suc (Suc (Suc (Suc m)))"
  proof
    have "3 < n" using assms(2,5) by simp
    then show "n = Suc (Suc (Suc (Suc (n - 4))))" by arith
  qed
  let ?nx = "\<lambda>u. next_loop (Suc (Suc (Suc m))) ?hs (step_index u)"
  obtain e g' where e: "h ?nx t = Done (gin_error e (fst t), g')" "ap_world g' = ap_world (snd t)"
    using no_user_error [OF assms(3,6), of ?nx "snd t"] by auto
  let ?t = "step_index (gin_error e (fst t), g')"
  have i4: "gx_index (fst t) = int 4" "4 < length ?hs" using assms(4) len by simp_all
  have "settled_quiet (\<lambda>d. rep d us) (length ?hs) (next_loop (Suc (Suc (Suc m))) ?hs ?t)"
  proof (rule authenticate_quiet [OF assms(1)])
    show "gx_index (fst ?t) = int 5" using assms(4) by simp
    show "Suc (Suc 5) = length ?hs" "length ?hs < 63" using len by simp_all
    show "?hs ! 5 = mid_authenticate C" "?hs ! Suc 5 = mid_authorized C roles" using nth by simp_all
  qed (use assms(7-10) e(2) in \<open>simp_all add: step_index_def gin_error_def\<close>)
  then show ?thesis
    unfolding n next_loop_step [OF i4] nth e(1) len by simp
qed

lemma quiet_view: "view u = view t \<Longrightarrow> quiet t \<Longrightarrow> quiet u"
  by (simp add: view_def Let_def quiet_def)

lemma changing_routes:
  "m \<in> {''DELETE'', ''PUT''} \<Longrightarrow> (m, p, hs) \<in> set (user_routes C) \<Longrightarrow>
     \<exists>h roles. hs = [h, mid_authenticate C, mid_authorized C roles] \<and> changing C h"
  by (auto simp: user_routes_def mid_user_def mid_admin_def changing_def)

lemma changing_request:
  assumes "cf_api C = api" "rep (wd_store (ap_world g)) us" "rq_method rq \<in> {''DELETE'', ''PUT''}"
    and "find_route (main_engine C) (rq_method rq) (rq_path rq) \<noteq> None"
  shows "\<exists>c h. handle_request C rq g = Served (Done (c, h)) \<and> rep (wd_store (ap_world h)) us \<and>
    ((gx_sent c = Some StatusOK \<and> gx_body c = []) \<or>
     (gx_sent c \<in> {Some StatusUnauthorized, Some StatusInternalServerError} \<and> (\<exists>m. gx_body c = [gin_H m])))"
proof -
  obtain rt ps where q: "find_route (main_engine C) (rq_method rq) (rq_path rq) = Some (rt, ps)"
    using assms(4) by auto
  then obtain hs where hs: "rt_handlers rt = main_handlers C @ hs"
    "(rq_method rq, rt_path rt, hs) \<in> set (user_routes C)"
    using route_handlers by blast
  obtain h roles where h: "hs = [h, mid_authenticate C, mid_authorized C roles]" "changing C h"
    using changing_routes [OF assms(3) hs(2)] by blast
  let ?s = "(new_ctx rq ps (rt_path rt), g)"
  let ?Q = "\<lambda>t. quiet t \<and> rep (wd_store (ap_world (snd t))) us"
  have "\<exists>t. serve (main_handlers C @ hs) ?s = Done (write_header_now (fst t), snd t) \<and> ?Q t"
  proof (rule serve_main)
    fix t n
    assume t: "gx_index (fst t) = 4" "length hs < n" "view t = view ?s"
    have "settled_quiet (\<lambda>d. rep d us) 7 (next_loop n (main_handlers C @ hs) t)"
      using t(3) assms(2)
      by (intro changing_route_settles [OF assms(1) h t(1,2)]) (simp_all add: view_def Let_def)
    then show "settles C ?Q (next_loop n (main_handlers C @ hs) t)"
      by (auto simp: settled_quiet_def)
  next
    show "?Q u" if "?Q t" "view u = view t" for t u
      using that quiet_view [OF that(2)] by (simp add: view_def Let_def)
  qed (simp_all add: h)
  then obtain t where t: "serve (rt_handlers rt) ?s = Done (write_header_now (fst t), snd t)" "?Q t"
    unfolding hs(1) by blast
  then show ?thesis
    using request_found [OF q, of g] by (auto simp: quiet_def write_header_now_def)
qed

lemma shows_user_stack: "h \<in> set (main_handlers C) \<Longrightarrow> keeps (shows_user a R) h"
proof -
  have "keeps (shows_user a R) (mid_panic C)"
  proof (rule keepsI, goal_cases)
    case (1 nx s)
    then have "everywhere (shows_user a R) (nx s)" by blast
    then show ?case by (cases "nx s") (simp_all add: mid_panic_cases shows_user_recovered)
  qed
  moreover have "keeps (shows_user a R) (mid_telemetry C)" "keeps (shows_user a R) (mid_logger C)"
    "keeps (shows_user a R) (mid_metrics C)"
    by (rule keeps_around [OF _ _ _ mid_telemetry_around] keeps_around [OF _ _ _ mid_logger_around]
        keeps_around [OF _ _ _ mid_metrics_around]; simp)+
  ultimately show "h \<in> set (main_handlers C) \<Longrightarrow> keeps (shows_user a R) h"
    by (auto simp: main_handlers_def)
qed

lemma shows_user_authenticate:
  assumes "cf_api C = api"
  shows "keeps (shows_user a (\<lambda>d. rep d us)) (mid_authenticate C)"
proof (rule keepsI, goal_cases)
  case (1 nx s)
  let ?I = "shows_user a (\<lambda>d. rep d us)"
  obtain c g where s: "s = (c, g)" by fastforce
  obtain now g1 where now: "app_now C g = (now, g1)" by fastforce
  have I1: "?I (c, g1)" and w: "gx_written c"
    using 1(2) now by (auto simp: s shows_user_def app_now_def time_now_def split: prod.splits)
  have put: "?I (c, g1\<lparr>ap_world := w\<rparr>)" if "bus_query_by_id api (ap_world g1) i = (r, w)" for i r w
    using bus_by_id_any [OF _ that] I1 by (auto simp: shows_user_def)
  have log: "?I (c, app_log f C c m as g') = ?I (c, g')" for f m as g' by (simp add: shows_user_def app_log_def)
  have set: "?I (gin_set x v (gin_set y v' c), g') = ?I (c, g')" for x v y v' g'
    by (simp add: shows_user_def gin_set_def)
  show ?case
    using w I1
    by (auto simp: s mid_authenticate_def now Let_def assms log set put split: sum.split prod.split
        intro!: 1(1) shows_user_deny)
qed

text \<open>The endpoint on a working connection.\<close>

lemma query_user_shows:
  assumes "cf_api C = api" "rep (wd_store (ap_world g)) us" "up (wd_store (ap_world g))" "u \<in> set us"
    and "gin_param ''id'' c = uuid_string (u_id u)" "\<not> gx_written c" "gx_body c = []"
  shows "\<exists>t. h_query_user_by_id C nx (c, g) = Done t \<and> gx_index (fst t) = gx_index c \<and>
    shows_user (to_app_user (cf_text C) u) (\<lambda>d. rep d us) t"
proof -
  have "wf_uuid (u_id u)" "distinct (map u_id us)"
    using rep_ok [OF assms(2)] assms(4) by (auto simp: users_ok_def list_all_iff typed_user_def)
  moreover from this have "find (\<lambda>v. u_id v = u_id u) us = Some u"
    using assms(4) by (intro find_distinct) simp_all
  ultimately show ?thesis
    using bus_by_id_up [OF assms(2,3), of "u_id u"] assms(1,5-7)
    by (auto simp: h_query_user_by_id_def traced_simps Let_def uuid_parse_string put_world_def shows_user_def gin_json_fresh)
qed

lemma shows_user_endpoint:
  assumes "cf_api C = api"
  shows "keeps (shows_user a (\<lambda>d. rep d us)) (h_query_user_by_id C)"
proof (rule keepsI_leaf)
  fix nx c g
  let ?I = "shows_user a (\<lambda>d. rep d us)"
  assume I: "?I (c, g)"
  have put: "?I (c, put_world w g)" if "bus_query_by_id api (ap_world g) i = (r, w)" for i r w
    using bus_by_id_any [OF _ that] I by (auto simp: shows_user_def put_world_def)
  have err: "?I (gin_error e c, g')" if "?I (c, g')" for e g' using that by (simp add: shows_user_def)
  have ended: "everywhere ?I (traced n r) = everywhere ?I r" for n r
    by (rule everywhere_traced) (simp add: shows_user_def end_span_def)
  show "everywhere ?I (h_query_user_by_id C nx (c, g))"
    using I by (auto simp: h_query_user_by_id_def Let_def ended assms fail_with_def put err shows_user_late
        split: sum.split prod.split)
qed

lemma get_user_settles:
  assumes "cf_api C = api" "hs = [h_query_user_by_id C, mid_authenticate C]"
    and "gx_index (fst t) = 4" "length hs < n" "rep (wd_store (ap_world (snd t))) us"
    and "up (wd_store (ap_world (snd t)))" "u \<in> set us"
    and "gin_param ''id'' (fst t) = uuid_string (u_id u)" "\<not> gx_written (fst t)" "gx_body (fst t) = []"
  shows "settles C (shows_user (to_app_user (cf_text C) u) (\<lambda>d. rep d us)) (next_loop n (main_handlers C @ hs) t)"
proof -
  let ?hs = "main_handlers C @ hs" and ?I = "shows_user (to_app_user (cf_text C) u) (\<lambda>d. rep d us)"
  obtain m where n: "n = Suc (Suc m)" using assms(2,4) by (cases n; cases "n - 1") auto
  let ?nx = "\<lambda>u. next_loop (Suc m) ?hs (step_index u)"
  obtain v where v: "h_query_user_by_id C ?nx t = Done v" "gx_index (fst v) = 4" "?I v"
    using query_user_shows [OF assms(1), of "snd t" us u "fst t" ?nx] assms(3,5-10) by auto
  have rest: "next_loop n ?hs t = next_loop (Suc m) ?hs (step_index v)"
    unfolding n using assms(2,3) v by (simp add: main_handlers_def)
  have "advances t (next_loop n ?hs t)"
  proof (rule next_loop_advances)
    show "\<forall>h \<in> set ?hs. steady h" using assms(2) steady_intros by (auto simp: main_handlers_def)
  qed (use assms(2-4) in \<open>simp_all add: main_handlers_def\<close>)
  moreover have "everywhere ?I (next_loop (Suc m) ?hs (step_index v))"
  proof (rule next_loop_keeps)
    show "\<forall>h \<in> set ?hs. keeps ?I h"
      using shows_user_stack shows_user_authenticate [OF assms(1)] shows_user_endpoint [OF assms(1)] assms(2)
      by auto
    show "?I (step_index v)" using v(3) by (rule shows_user_step)
    show "?hs \<noteq> []" by (simp add: main_handlers_def)
  qed (rule shows_user_step)
  ultimately show ?thesis
    unfolding rest by (cases "next_loop (Suc m) ?hs (step_index v)") (simp_all add: shows_user_recovered)
qed

end

end
