(* ===== verification/LeafRoutes.thy ===== *)
theory LeafRoutes
  imports Effects
begin

text \<open>
  The routes with one endpoint and nothing behind it: sign-up, the list and log-in. Their endpoints
  never panic and either record one error or write one answer, which is then what the engine sends; and
  with \<^verbatim>\<open>mid.Error\<close> in front of it, the endpoint has its error reported.
\<close>

section \<open>Bindings that cannot panic\<close>

lemma verdict_seq_panic [simp]:
  "verdict_seq v w \<noteq> VPanic m \<longleftrightarrow> v \<noteq> VPanic m \<and> ((\<exists>n. v = VPanic n) \<or> w \<noteq> VPanic m)"
  by (auto simp: verdict_seq_def split: verdict.splits)

definition no_panic :: "verdict \<Rightarrow> bool" where
  "no_panic v \<longleftrightarrow> (\<forall>m. v \<noteq> VPanic m)"

lemma no_panic_simps [simp]:
  "no_panic (Errs es)" "\<not> no_panic (VPanic m)" "no_panic (verdict_seq v w) \<longleftrightarrow> no_panic v \<and> no_panic w"
  by (auto simp: no_panic_def verdict_seq_def split: verdict.splits)

text \<open>The tags that can check a text, and those that can check a list.\<close>

fun text_tag :: "vtag \<Rightarrow> bool" where
  "text_tag TDive = False"
| "text_tag _ = True"

lemma run_check_text [simp]: "text_tag t \<Longrightarrow> run_check T p (KString s) ptr t \<noteq> CheckPanic m"
  by (cases t) (auto simp: run_check_def split: sum.split)

lemma check_tags_text: "list_all text_tag ts \<Longrightarrow> no_panic (check_tags T p ns alt (KString s) ptr ts)"
proof (induction ts)
  case (Cons t ts)
  then show ?case
    using run_check_text [of t T p s ptr] by (cases t) (simp_all split: check.split)
qed simp

lemma check_elem_text: "list_all text_tag ts \<Longrightarrow> no_panic (check_elem T p ns alt s ts)"
proof (induction ts)
  case (Cons t ts)
  then show ?case
    using run_check_text [of t T p s False] by (cases t) (simp_all split: check.split)
qed simp

lemma check_elems_text: "list_all text_tag ts \<Longrightarrow> no_panic (check_elems T p ns alt i ss ts)"
  by (induction ss arbitrary: i) (simp_all add: check_elem_text)

lemma traverse_text:
  "vf_value f = VStr s \<Longrightarrow> list_all text_tag (vf_tags f) \<Longrightarrow> no_panic (traverse_field T p ns f)"
  "vf_value f = VStrPtr so \<Longrightarrow> list_all text_tag (vf_tags f) \<Longrightarrow> no_panic (traverse_field T p ns f)"
  by (cases so; simp add: traverse_field_def check_tags_text split: list.split)+

lemma traverse_slice:
  assumes "vf_value f = VSlice so" "vf_tags f = t # TDive # ts" "t = TOmitEmpty \<or> t = TGt n" "list_all text_tag ts"
  shows "no_panic (traverse_field T p ns f)"
  using assms by (auto simp: traverse_field_def run_check_def of_bool_def check_elems_text)

lemma bind_no_panic:
  assumes "\<And>r p. no_panic (traverse_fields T p (name @ ''.'') (rules r))"
  shows "should_bind_json T name fs rules z rq \<noteq> BindPanic m" "bind_validated T name rules r \<noteq> BindPanic m"
  using assms
  by (auto simp: should_bind_json_def bind_validated_def validate_struct_def no_panic_def
      split: sum.split prod.split option.split verdict.split)

lemma new_user_no_panic: "should_bind_json T name fs new_user_rules z rq \<noteq> BindPanic m"
  by (rule bind_no_panic) (simp add: new_user_rules_def traverse_text traverse_slice)

lemma authenticate_no_panic: "should_bind_json T name fs authenticate_rules z rq \<noteq> BindPanic m"
  by (rule bind_no_panic) (simp add: authenticate_rules_def traverse_text)

lemma filters_no_panic: "should_bind_query T rq \<noteq> BindPanic m"
  unfolding should_bind_query_def
  by (rule bind_no_panic) (simp add: filters_rules_def traverse_text traverse_slice)

section \<open>One error or one answer\<close>

definition leaf_outcome :: "ctx_val gin_ctx \<Rightarrow> 's st outcome \<Rightarrow> bool" where
  "leaf_outcome c r \<longleftrightarrow>
     (\<exists>e g. r = Done (gin_error e c, g)) \<or>
     (\<exists>code \<in> {StatusOK, StatusCreated}. \<exists>j g. r = Done (gin_json code j c, g))"

lemma leaf_outcome_simps [simp]:
  "leaf_outcome c (Done (gin_error e c, g))" "leaf_outcome c (fail_with site code msg (c, g))"
  "leaf_outcome c (Done (gin_json StatusOK j c, g))" "leaf_outcome c (Done (gin_json StatusCreated j c, g))"
  by (auto simp: leaf_outcome_def fail_with_def)

lemma leaf_outcome_traced [simp]: "leaf_outcome c (traced n r) = leaf_outcome c r"
  by (cases r) (auto simp: leaf_outcome_def traced_def end_span_def)

definition leaf :: "('s, 'k) config \<Rightarrow> 's hd \<Rightarrow> bool" where
  "leaf C h \<longleftrightarrow> h = h_create_user C \<or> h = h_query C \<or> h = h_authenticate C"

lemma leaf_outcomes: "leaf C h \<Longrightarrow> leaf_outcome c (h nx (c, g))"
  unfolding leaf_def
  by (elim disjE)
    (simp_all add: h_create_user_def h_query_def h_authenticate_def Let_def new_user_no_panic authenticate_no_panic
      filters_no_panic split: bound.split sum.split prod.split)

lemma leaf_routes:
  "(m, p, hs) \<in> set (user_routes C) \<Longrightarrow> length hs = 1 \<longleftrightarrow> (\<exists>h. hs = [h] \<and> leaf C h)"
  by (auto simp: user_routes_def leaf_def)

section \<open>The engine of the program\<close>

lemma single_settles:
  assumes "gx_index (fst t) = 4" "1 < n" "\<And>t u. Q t \<Longrightarrow> view u = view t \<Longrightarrow> Q u"
    and "\<And>nx. \<exists>u. h nx t = Done u \<and> gx_index (fst u) = 4 \<and> Q u"
  shows "settles C Q (next_loop n (main_handlers C @ [h]) t)"
proof -
  let ?hs = "main_handlers C @ [h]"
  obtain m where n: "n = Suc (Suc m)" using assms(2) by (cases n; cases "n - 1") auto
  obtain u where u: "h (\<lambda>t. next_loop (Suc m) ?hs (step_index t)) t = Done u" "gx_index (fst u) = 4" "Q u"
    using assms(4) by blast
  have len: "4 < length ?hs" "?hs ! 4 = h" by (simp_all add: main_handlers_def)
  have i4: "gx_index (fst t) = int 4" using assms(1) by simp
  have "next_loop n ?hs t = Done (step_index u)"
    unfolding n next_loop_step [OF i4 len(1)] len(2) u(1) and_then.simps
    using u(2) by (intro next_loop_end) (simp add: main_handlers_def)
  then show ?thesis using assms(3) [OF u(3), of "step_index u"] by simp
qed

lemma single_route:
  assumes "find_route (main_engine C) (rq_method rq) (rq_path rq) = Some (rt, ps)"
    and "rt_handlers rt = main_handlers C @ [h]" "\<And>t u. Q t \<Longrightarrow> view u = view t \<Longrightarrow> Q u"
    and "\<And>nx t. view t = view (new_ctx rq ps (rt_path rt), g) \<Longrightarrow> gx_index (fst t) = 4 \<Longrightarrow>
      \<exists>u. h nx t = Done u \<and> gx_index (fst u) = 4 \<and> Q u"
  shows "\<exists>t. handle_request C rq g = Served (Done (write_header_now (fst t), snd t)) \<and> Q t"
proof -
  let ?s = "(new_ctx rq ps (rt_path rt), g)"
  have "\<exists>t. serve (main_handlers C @ [h]) ?s = Done (write_header_now (fst t), snd t) \<and> Q t"
  proof (rule serve_main)
    show "settles C Q (next_loop n (main_handlers C @ [h]) t)"
      if "gx_index (fst t) = 4" "length [h] < n" "view t = view ?s" for t n
      using that assms(3,4) by (intro single_settles) simp_all
  qed (simp_all add: assms(3))
  then show ?thesis
    using request_found [OF assms(1), of g] assms(2) by auto
qed

lemma leaf_route:
  assumes "find_route (main_engine C) (rq_method rq) (rq_path rq) = Some (rt, ps)"
    and "rt_path rt = p" "p \<in> {''/v1/users/'', ''/v1/users/login''}"
  shows "\<exists>h. rt_handlers rt = main_handlers C @ [h] \<and> leaf C h"
proof -
  obtain hs where "rt_handlers rt = main_handlers C @ hs" "(rq_method rq, rt_path rt, hs) \<in> set (user_routes C)"
    using route_handlers [OF assms(1)] by blast
  then show ?thesis using assms(2,3) by (auto simp: user_routes_def leaf_def)
qed

text \<open>What the endpoint records is not seen, and what it answers is.\<close>

definition silent :: "'s st \<Rightarrow> bool" where
  "silent s \<longleftrightarrow>
     (gx_errors (fst s) = [] \<and> gx_written (fst s) \<and> gx_sent (fst s) \<in> {Some StatusOK, Some StatusCreated} \<and>
        length (gx_body (fst s)) = 1) \<or>
     (length (gx_errors (fst s)) = 1 \<and> \<not> gx_written (fst s) \<and> gx_status (fst s) = StatusOK \<and> gx_body (fst s) = [])"

lemma silent_view: "silent t \<Longrightarrow> view u = view t \<Longrightarrow> silent u"
  by (simp add: view_def Let_def silent_def)

lemma leaf_silent:
  assumes "leaf C h" "view t = view (new_ctx rq ps f, g)"
  shows "\<exists>u. h nx t = Done u \<and> gx_index (fst u) = gx_index (fst t) \<and> silent u"
proof -
  have c: "gx_errors (fst t) = []" "\<not> gx_written (fst t)" "gx_status (fst t) = StatusOK" "gx_body (fst t) = []"
    using assms(2) by (simp_all add: view_def Let_def)
  have "leaf_outcome (fst t) (h nx t)"
    using leaf_outcomes [OF assms(1), of "fst t" nx "snd t"] by simp
  then show ?thesis
    using c by (auto simp: leaf_outcome_def silent_def gin_json_fresh)
qed

section \<open>With mid.Error in front\<close>

text \<open>What a client can be told about an error.\<close>

definition client_error :: "go_err \<Rightarrow> bool" where
  "client_error e \<longleftrightarrow>
     (case as_app e of None \<Rightarrow> True | Some a \<Rightarrow> er_code a \<in> {StatusBadRequest, StatusInternalServerError})"

definition error_status :: "go_err \<Rightarrow> int" where
  "error_status e =
     (case as_app e of Some a \<Rightarrow> er_code a
      | None \<Rightarrow> (case as_validation e of Some es \<Rightarrow> StatusBadRequest | None \<Rightarrow> StatusInternalServerError))"

lemma client_error_simps [simp]:
  "client_error (errs_new site n m) \<longleftrightarrow> n \<in> {StatusBadRequest, StatusInternalServerError}"
  "client_error (ErrPlain s)" "client_error (ErrValidation es)" "client_error (type_error j f t)"
  by (simp_all add: client_error_def type_error_def)

definition plain_dec :: "'r field_dec \<Rightarrow> bool" where
  "plain_dec d \<longleftrightarrow> (\<forall>j r e. snd (d j r) = Some e \<longrightarrow> client_error e)"

lemma string_elems_plain: "snd (string_elems name js) = Some e \<Longrightarrow> client_error e"
  by (induction js arbitrary: e) (auto split: prod.splits json.splits)

lemma plain_decs [simp]:
  "plain_dec (dec_string n f)" "plain_dec (dec_string_slice n f')"
proof -
  show "plain_dec (dec_string n f)"
    by (auto simp: plain_dec_def dec_string_def split: json.splits)
  show "plain_dec (dec_string_slice n f')"
    using string_elems_plain [of n]
    by (auto simp: plain_dec_def dec_string_slice_def split: json.splits prod.splits) (metis snd_conv)
qed

lemma decode_members_plain:
  assumes "\<forall>(k, d) \<in> set fs. plain_dec d"
  shows "snd (decode_members fs ms r e) = Some x \<Longrightarrow> \<forall>y. e = Some y \<longrightarrow> client_error y \<Longrightarrow> client_error x"
proof (induction ms arbitrary: r e)
  case (Cons m ms)
  obtain k j where m: "m = (k, j)" by fastforce
  show ?case
  proof (cases "find_field fs k")
    case None
    then show ?thesis using Cons m by simp
  next
    case (Some d)
    then have "\<exists>k. (k, d) \<in> set fs"
      by (auto simp: find_field_def find_Some_iff split: option.splits dest: map_of_SomeD) (metis nth_mem surjective_pairing)
    then have "plain_dec d" using assms by blast
    then have d: "snd (d j r) = Some y \<Longrightarrow> client_error y" for y by (auto simp: plain_dec_def)
    obtain r' e' where "d j r = (r', e')" by fastforce
    then show ?thesis
      using Cons.prems d Some m Cons.IH [of r' "case e of None \<Rightarrow> e' | Some x \<Rightarrow> Some x"]
      by (cases e) simp_all
  qed
qed simp

lemma bind_client_error:
  assumes "should_bind_json T name fs rules z rq = BindErr e" "\<forall>(k, d) \<in> set fs. plain_dec d"
    and "\<And>x. rq_body rq = Err x \<Longrightarrow> as_app x = None"
  shows "client_error e"
proof -
  have v: "bind_validated T name rules r = BindErr e \<Longrightarrow> client_error e" for r
    by (auto simp: bind_validated_def split: verdict.splits if_splits)
  have d: "decode_struct n fs j z = (r, Some e) \<Longrightarrow> client_error e" for n j r
    using decode_members_plain [OF assms(2), of _ z None e]
    by (auto simp: decode_struct_def split: json.splits) (metis snd_conv)
  show ?thesis
  proof (cases "rq_body rq")
    case (Inl x)
    then show ?thesis using assms(1,3) by (simp add: should_bind_json_def client_error_def)
  next
    case (Inr j)
    then show ?thesis
      using assms(1) v d by (auto simp: should_bind_json_def split: prod.splits option.splits)
  qed
qed

lemma query_client_error: "should_bind_query T rq = BindErr e \<Longrightarrow> client_error e"
  by (auto simp: should_bind_query_def bind_validated_def split: verdict.splits if_splits)

definition leaf_error :: "'s st outcome \<Rightarrow> bool" where
  "leaf_error r \<longleftrightarrow> (\<forall>u. r = Done u \<longrightarrow> list_all client_error (gx_errors (fst u)))"

lemma leaf_error_traced [simp]: "leaf_error (traced n r) = leaf_error r"
  by (cases r) (auto simp: leaf_error_def traced_def end_span_def)

lemma leaf_bind_errors:
  assumes "\<And>x. rq_body rq = Err x \<Longrightarrow> as_app x = None"
  shows "should_bind_json T name new_user_fields new_user_rules z rq = BindErr e \<Longrightarrow> client_error e"
    and "should_bind_json T name authenticate_fields authenticate_rules z' rq = BindErr e \<Longrightarrow> client_error e"
  by (erule bind_client_error; simp add: assms new_user_fields_def authenticate_fields_def)+

lemma leaf_errors:
  assumes "leaf C h" "gx_errors c = []" "\<And>x. rq_body (gx_request c) = Err x \<Longrightarrow> as_app x = None"
  shows "leaf_error (h nx (c, g))"
proof -
  have error: "leaf_error (Done (gin_error e c, g')) \<longleftrightarrow> client_error e" for e g'
    using assms(2) by (simp add: leaf_error_def)
  have fail: "leaf_error (fail_with site code msg (c, g')) \<longleftrightarrow> code \<in> {StatusBadRequest, StatusInternalServerError}"
    for site code msg g'
    using assms(2) by (simp add: leaf_error_def fail_with_def)
  have json: "leaf_error (Done (gin_json code j c, g'))" for code j g'
    using assms(2) by (simp add: leaf_error_def)
  show ?thesis
    using assms(1) unfolding leaf_def
    by (elim disjE)
      (simp_all add: h_create_user_def h_query_def h_authenticate_def Let_def new_user_no_panic authenticate_no_panic
        filters_no_panic query_client_error leaf_bind_errors [OF assms(3)] error fail json
        split: bound.split sum.split prod.split)
qed

section \<open>mid.Error in front\<close>

text \<open>What \<^verbatim>\<open>mid.Error\<close> makes of the state that the handlers leave.\<close>

lemma mid_error_after: "mid_error C nx s = and_then (nx s) (mid_error C Done)"
  by (cases "nx s") (simp_all add: mid_error_def)

definition error_json :: "text_env \<Rightarrow> go_err \<Rightarrow> json" where
  "error_json T e =
     (case as_app e of
        Some a \<Rightarrow> app_error_json (if er_code a = StatusInternalServerError
                    then a\<lparr>er_message := status_text StatusInternalServerError\<rparr> else a)
      | None \<Rightarrow>
          (case as_validation e of
             Some es \<Rightarrow> app_error_json \<lparr>er_code = StatusBadRequest, er_message = ''validation failed'', er_func = [],
                          er_file = [], er_fields = sort_key fst (field_map T es [])\<rparr>
           | None \<Rightarrow> gin_H (status_text StatusInternalServerError)))"

lemma mid_error_reports:
  assumes "\<not> gx_written (fst u)" "gx_errors (fst u) = es @ [e]" "client_error e"
  shows "\<exists>h. mid_error C Done u = Done (gin_json (error_status e) (error_json (cf_text C) e) (fst u), h) \<and>
    ap_world h = ap_world (snd u)"
  using assms
  by (cases u)
    (auto simp: mid_error_def error_status_def error_json_def app_log_def Let_def split: option.split)

lemma client_status: "client_error e \<Longrightarrow> error_status e \<in> {StatusBadRequest, StatusInternalServerError}"
  by (auto simp: client_error_def error_status_def split: option.splits)

lemma mid_error_idle: "gx_written (fst u) \<or> gx_errors (fst u) = [] \<Longrightarrow> mid_error C Done u = Done u"
  by (cases u) (auto simp: mid_error_def)

lemma error_front_serve:
  assumes "h (\<lambda>t. next_loop 1 [mid_error C, h] (step_index t)) (step_index (step_index s)) = Done u"
    and "gx_index (fst s) = -1" "gx_index (fst u) = 1" "mid_error C Done (step_index u) = Done v"
    and "gx_index (fst v) = 2"
  shows "serve [mid_error C, h] s = Done (write_header_now (fst (step_index v)), snd v)"
proof -
  let ?hs = "[mid_error C, h]"
  have inner: "next_loop 2 ?hs (step_index (step_index s)) = Done (step_index u)"
    using assms(1-3) by (simp add: numeral_2_eq_2)
  have "next_loop 3 ?hs (step_index s) = Done (step_index v)"
    using assms(2,4,5) inner mid_error_after [of C "\<lambda>t. next_loop 2 ?hs (step_index t)" "step_index s"]
    by (simp add: numeral_3_eq_3 numeral_2_eq_2)
  then show ?thesis by (simp add: serve_def gin_next_def numeral_3_eq_3)
qed

text \<open>The answer of one endpoint behind \<^verbatim>\<open>mid.Error\<close>, which is how the tests of the package set it up.\<close>

lemma leaf_reported:
  assumes "leaf C h" "\<And>x. rq_body rq = Err x \<Longrightarrow> as_app x = None"
  shows "\<exists>c g'. serve [mid_error C, h] (new_ctx rq ps p, g) = Done (c, g') \<and>
    ((gx_errors c = [] \<and> gx_sent c \<in> {Some StatusOK, Some StatusCreated} \<and> length (gx_body c) = 1) \<or>
     (\<exists>e. gx_errors c = [e] \<and> gx_sent c = Some (error_status e) \<and> gx_body c = [error_json (cf_text C) e] \<and>
        error_status e \<in> {StatusBadRequest, StatusInternalServerError}))"
proof -
  let ?s = "(new_ctx rq ps p, g)"
  let ?s2 = "step_index (step_index ?s)"
  let ?nx = "\<lambda>t. next_loop 1 [mid_error C, h] (step_index t)"
  have c2: "gx_errors (fst ?s2) = []" "\<not> gx_written (fst ?s2)" "gx_request (fst ?s2) = rq" "gx_body (fst ?s2) = []"
    "gx_status (fst ?s2) = StatusOK"
    by (simp_all add: step_index_def)
  have i2: "gx_index (fst ?s2) = 1" by simp
  have s2: "(fst ?s2, g) = ?s2" by (simp add: step_index_def)
  have "leaf_outcome (fst ?s2) (h ?nx (fst ?s2, g))" by (rule leaf_outcomes [OF assms(1)])
  moreover have "leaf_error (h ?nx (fst ?s2, g))"
    by (rule leaf_errors [OF assms(1) c2(1)]) (rule assms(2), simp only: c2(3))
  ultimately have out: "leaf_outcome (fst ?s2) (h ?nx ?s2)" "leaf_error (h ?nx ?s2)"
    unfolding s2 by blast+
  have served: "serve [mid_error C, h] ?s = Done (write_header_now (fst (step_index v)), snd v)"
    if "h ?nx ?s2 = Done u" "mid_error C Done (step_index u) = Done v" "gx_index (fst u) = 1" "gx_index (fst v) = 2" for u v
    using that by (intro error_front_serve [of h C ?s u v]) (simp_all del: next_loop.simps)
  from out(1) consider (error) e g' where "h ?nx ?s2 = Done (gin_error e (fst ?s2), g')"
    | (answer) code j g' where "h ?nx ?s2 = Done (gin_json code j (fst ?s2), g')" "code \<in> {StatusOK, StatusCreated}"
    unfolding leaf_outcome_def by blast
  then show ?thesis
  proof cases
    case error
    let ?u = "step_index (gin_error e (fst ?s2), g')"
    have ce: "client_error e" using out(2) error c2(1) by (simp add: leaf_error_def)
    then obtain k where "mid_error C Done ?u = Done (gin_json (error_status e) (error_json (cf_text C) e) (fst ?u), k)"
      using mid_error_reports [of ?u "[]" e C] c2 by (auto simp: step_index_def)
    note served [OF error this]
    then show ?thesis
      using i2 c2 client_status [OF ce]
      by (auto simp: gin_json_fresh write_header_now_def step_index_def)
  next
    case answer
    let ?u = "step_index (gin_json code j (fst ?s2), g')"
    have "mid_error C Done ?u = Done ?u" by (rule mid_error_idle) (simp add: step_index_def)
    note served [OF answer(1) this]
    then show ?thesis
      using i2 c2 answer(2)
      by (auto simp: gin_json_fresh write_header_now_def step_index_def)
  qed
qed

end
