(* ===== verification/DataProperties.thy ===== *)
theory DataProperties
  imports UserBus
begin

text \<open>
  The properties of the user data: the round trips of roles and ids, the parameters \<^verbatim>\<open>order_by\<close>, \<^verbatim>\<open>page\<close> and
  \<^verbatim>\<open>rows\<close>, the list and its pages, passwords, the frame
  of an update, and the histories of the bus.
\<close>

section \<open>Texts\<close>

text \<open>
  C37: The roles of a user survive the database: \<^verbatim>\<open>Value\<close> writes any list of known roles as a Postgres
  array, and \<^verbatim>\<open>Scan\<close> reads that text back as the same list, into whatever the receiver held before.
\<close>

theorem roles_round_trip:
  assumes "set rs \<subseteq> {role_admin, role_user}"
  shows "\<exists>v. role_slice_value rs = Ok v \<and> role_slice_scan old v = (None, rs)"
proof -
  have wf: "wf_roles rs" using assms by (simp add: wf_roles_iff)
  obtain v where "role_slice_value rs = Ok v" using roles_codec.to_sql_ok [OF wf] by blast
  then show ?thesis using roles_codec.from_to_sql [OF wf] by blast
qed

theorem roles_round_trip_witness:
  "\<exists>v. role_slice_value [role_user, role_admin] = Ok v \<and> role_slice_scan [role_user] v = (None, [role_user, role_admin])"
  by (rule roles_round_trip) simp

text \<open>
  A role list is accepted exactly when every name is one of the two roles, and then
  \<^verbatim>\<open>RolesToString\<close> gives the names back.
\<close>

lemma parse_roles_exact:
  "(\<exists>rs. parse_many_roles ss = Ok rs \<and> roles_to_string rs = ss \<and> set rs \<subseteq> {role_admin, role_user}) =
   (set ss \<subseteq> {''admin'', ''user''})"
proof
  assume "\<exists>rs. parse_many_roles ss = Ok rs \<and> roles_to_string rs = ss \<and> set rs \<subseteq> {role_admin, role_user}"
  then show "set ss \<subseteq> {''admin'', ''user''}" using parse_many_roles_Ok_iff by blast
next
  assume "set ss \<subseteq> {''admin'', ''user''}"
  then obtain rs where "parse_many_roles ss = Ok rs" using parse_many_roles_Ok_iff by blast
  moreover from this have "wf_roles rs \<and> map role_value rs = ss" by (rule parse_many_roles_wf)
  ultimately show "\<exists>rs. parse_many_roles ss = Ok rs \<and> roles_to_string rs = ss \<and> set rs \<subseteq> {role_admin, role_user}"
    by (auto simp: wf_roles_iff roles_to_string_def role_string_def)
qed

text \<open>
  A user id is written as 36 characters that are parsed back to the id,
  and an id made from 16 random bytes has the version and the variant bits of a version-4 UUID.
\<close>

lemma uuid_round_trip:
  assumes "wf_uuid u"
  shows "uuid_parse (uuid_string u) = Ok u \<and> length (uuid_string u) = 36 \<and>
    and (uuid_from_random u ! 6) 0xf0 = 0x40 \<and> and (uuid_from_random u ! 8) 0xc0 = 0x80"
proof -
  have "and (or (and b 0x0f) 0x40) 0xf0 = (0x40 :: 8 word)" "and (or (and b 0x3f) 0x80) 0xc0 = (0x80 :: 8 word)" for b
    by (simp_all add: bit.conj_disj_distrib2 and.assoc)
  then show ?thesis
    using assms by (simp add: uuid_parse_string length_uuid_string uuid_from_random_def wf_uuid_def)
qed

lemma uuid_round_trip_witness:
  "uuid_parse (uuid_string (replicate 16 0xab)) = Ok (replicate 16 0xab)"
  using uuid_round_trip [of "replicate 16 0xab"] by (simp add: wf_uuid_def)

text \<open>
  C36: Nothing of an \<^verbatim>\<open>order_by\<close> parameter reaches a statement: whatever the text, either it is refused or
  the clause that is appended is one of eight fixed ones.
\<close>

theorem order_by_closed:
  assumes "parse_order_by q = Ok f"
  shows "\<exists>c \<in> {''name'', ''email'', ''created_at'', ''updated_at''}. \<exists>d \<in> {''asc'', ''desc''}.
    order_by_clause f = Ok ('' ORDER BY '' @ c @ '' '' @ d)"
proof -
  have wf: "wf_order f" using assms by (rule parse_order_by_wf)
  then obtain c where c: "c \<in> set order_columns" "order_by_clause f = Ok ('' ORDER BY '' @ c @ '' '' @ of_dir f)"
    by (rule order_by_clause_wf)
  have d: "of_dir f \<in> {''asc'', ''desc''}" using wf by (simp add: wf_order_def order_dirs_def)
  have "c \<in> {''name'', ''email'', ''created_at'', ''updated_at''}" using c(1) by (simp add: order_columns_def)
  then show ?thesis using c(2) d by (intro bexI [of _ c] bexI [of _ "of_dir f"]) simp_all
qed

theorem order_by_closed_witness:
  "\<exists>f. parse_order_by ''createdAt,desc'' = Ok f \<and>
     (\<exists>c \<in> {''name'', ''email'', ''created_at'', ''updated_at''}. \<exists>d \<in> {''asc'', ''desc''}.
        order_by_clause f = Ok ('' ORDER BY '' @ c @ '' '' @ d))"
proof -
  have "parse_order_by ''createdAt,desc'' = Ok \<lparr>of_name = ''createdAt'', of_dir = ''desc''\<rparr>"
    by code_simp
  then show ?thesis using order_by_closed by blast
qed

text \<open>
  C35: A page that is parsed has a number from 1 to 100 and at least one row, and its offset is the number
  of rows before it as long as a page has at most 93165374109644200 rows. Beyond that the product wraps
  around in Go's 64 bits, and a page that is accepted can have a negative offset.
\<close>

theorem page_bounds:
  assumes "page_parse s t = Ok p"
  shows "1 \<le> pg_number p \<and> pg_number p \<le> 100 \<and> 1 \<le> pg_rows p \<and> pg_rows p < 2 ^ 63 \<and>
    (pg_rows p \<le> 93165374109644200 \<longrightarrow> page_offset p = (pg_number p - 1) * pg_rows p) \<and>
    (\<exists>q. page_parse ''100'' ''93165374109644201'' = Ok q \<and> page_offset q < 0)"
proof -
  have wf: "wf_page p" using assms by (rule page_parse_wf)
  have "page_parse ''100'' ''93165374109644201'' = Ok \<lparr>pg_number = 100, pg_rows = 93165374109644201\<rparr>"
    by code_simp
  moreover have "page_offset \<lparr>pg_number = 100, pg_rows = 93165374109644201\<rparr> < 0"
    by (simp add: page_offset_def wrap64_mod)
  ultimately show ?thesis
    using wf page_offset_exact(1) [OF wf] by (auto simp: wf_page_def in_int64_def max_safe_rows_def)
qed

theorem page_bounds_witness:
  "page_parse ''3'' ''20'' = Ok \<lparr>pg_number = 3, pg_rows = 20\<rparr> \<and> page_offset \<lparr>pg_number = 3, pg_rows = 20\<rparr> = 40"
proof -
  have p: "page_parse ''3'' ''20'' = Ok \<lparr>pg_number = 3, pg_rows = 20\<rparr>" by code_simp
  then show ?thesis using page_bounds [OF p] by simp
qed

section \<open>The list of users\<close>

definition all_users :: query_filter where
  "all_users = \<lparr>qf_name = None, qf_department = None, qf_roles = None, qf_start_created_at = None,
     qf_end_created_at = None\<rparr>"

lemma all_users_ok [simp]: "filter_ok all_users" "user_matches all_users u"
  by (simp_all add: filter_ok_def user_matches_def all_users_def)

text \<open>
  C25: On a working connection \<^verbatim>\<open>Query\<close> with a filter, an order and a page returns a page of a list of the
  users that match the filter, each of them once and sorted by the field in its direction: those from the
  offset of the page on and at most as many as a page has. Users with equal keys come in any order.
  \<^verbatim>\<open>Count\<close> returns the number of all that match. Neither changes the table.
\<close>

theorem store_list_refines:
  assumes "holds_users d us" "healthy d" "wf_order ord" "wf_page p" "pg_rows p \<le> max_safe_rows" "filter_ok f"
  shows "(\<exists>d' vs. store_query d f ord p =
      (Ok (take (nat (pg_rows p)) (drop (nat ((pg_number p - 1) * pg_rows p)) vs)), d') \<and>
      mset vs = mset (filter (user_matches f) us) \<and>
      (if of_dir ord = ''desc'' then sorted (rev (map (user_key (collate d) (of_name ord)) vs))
       else sorted (map (user_key (collate d) (of_name ord)) vs)) \<and>
      holds_users d' us \<and> healthy d') \<and>
    (\<exists>d'. store_count d f = (Ok (int (length (filter (user_matches f) us))), d') \<and> holds_users d' us)"
proof
  obtain d' vs where l: "listing (collate d) f ord us vs" "store_query d f ord p = (Ok (page_of p vs), d')"
    "holds_users d' us" "healthy d'"
    using pg.query_up [OF assms] by auto
  show "\<exists>d' vs. store_query d f ord p =
      (Ok (take (nat (pg_rows p)) (drop (nat ((pg_number p - 1) * pg_rows p)) vs)), d') \<and>
      mset vs = mset (filter (user_matches f) us) \<and>
      (if of_dir ord = ''desc'' then sorted (rev (map (user_key (collate d) (of_name ord)) vs))
       else sorted (map (user_key (collate d) (of_name ord)) vs)) \<and>
      holds_users d' us \<and> healthy d'"
    using l by (intro exI [of _ d'] exI [of _ vs]) (simp add: page_of_def listing_def sorted_by_def Let_def)
  show "\<exists>d'. store_count d f = (Ok (int (length (filter (user_matches f) us))), d') \<and> holds_users d' us"
    using pg.count_up [OF assms(1,2,6)] by (auto simp: spec_count_def)
qed

definition by_name :: order_field where
  "by_name = \<lparr>of_name = ''name'', of_dir = ''asc''\<rparr>"

lemma by_name_wf [simp]: "wf_order by_name"
  by (simp add: by_name_def wf_order_def order_names_def order_dirs_def)

text \<open>The one list of two users whose keys differ.\<close>

lemma sorted_two:
  "mset vs = {#a, b#} \<Longrightarrow> sorted (map k vs) \<Longrightarrow> (k b :: int list) < k a \<Longrightarrow> vs = [b, a]"
proof -
  assume m: "mset vs = {#a, b#}" and s: "sorted (map k vs)" and k: "k b < k a"
  have "length vs = 2" using arg_cong [OF m, of size] by simp
  then obtain x y where vs: "vs = [x, y]" by (auto simp: length_Suc_conv numeral_2_eq_2)
  then have "{#x, y#} = {#a, b#}" using m by simp
  then have "x = a \<and> y = b \<or> x = b \<and> y = a" by (auto simp: add_eq_conv_ex)
  then show ?thesis using s k vs by auto
qed

theorem store_list_refines_witness:
  "\<exists>d'. store_query (db_of [bob, ann] []) all_users by_name \<lparr>pg_number = 1, pg_rows = 10\<rparr> = (Ok [ann, bob], d')"
proof -
  have p: "wf_page \<lparr>pg_number = 1, pg_rows = 10\<rparr>" by (simp add: wf_page_def in_int64_def)
  have ok: "users_ok [bob, ann]" using users_ok_samples(2) by (auto simp: users_ok_def)
  let ?k = "user_key (collate (db_of [bob, ann] [])) (of_name by_name)"
  have less: "?k ann < ?k bob"
    by (simp add: by_name_def user_key_def db_of_def ann_def bob_def sample_user_def)
  have asc: "of_dir by_name = ''asc''" by (simp add: by_name_def)
  obtain d' vs where q: "store_query (db_of [bob, ann] []) all_users by_name \<lparr>pg_number = 1, pg_rows = 10\<rparr> =
      (Ok (take 10 vs), d')" "mset vs = {#bob, ann#}" "sorted (map ?k vs)"
    using store_list_refines [of "db_of [bob, ann] []" "[bob, ann]" by_name "\<lparr>pg_number = 1, pg_rows = 10\<rparr>" all_users]
    by (auto simp: ok p max_safe_rows_def asc)
  have "vs = [ann, bob]" by (rule sorted_two [OF q(2,3) less])
  then show ?thesis using q(1) by simp
qed

text \<open>The first \<open>k\<close> pages, one after the other, each with a query of its own.\<close>

fun read_pages :: "database \<Rightarrow> query_filter \<Rightarrow> order_field \<Rightarrow> int \<Rightarrow> nat \<Rightarrow> user list \<times> database" where
  "read_pages d f ord r 0 = ([], d)"
| "read_pages d f ord r (Suc k) =
     (case read_pages d f ord r k of
        (us, d') \<Rightarrow>
          (case store_query d' f ord \<lparr>pg_number = int (Suc k), pg_rows = r\<rparr> of
             (Ok vs, d'') \<Rightarrow> (us @ vs, d'')
           | (Err e, d'') \<Rightarrow> (us, d'')))"

lemma page_of_nth: "1 \<le> r \<Longrightarrow> page_of \<lparr>pg_number = int (Suc k), pg_rows = r\<rparr> vs = take (nat r) (drop (k * nat r) vs)"
  by (simp add: page_of_def nat_mult_distrib)

text \<open>
  What the pages are when every query finds a list of its own: each page is a page of one of them, so that
  their sizes add up.
\<close>

lemma read_pages_lists:
  assumes "holds_users d us" "healthy d" "wf_order ord" "filter_ok f" "1 \<le> r" "r \<le> max_safe_rows"
  shows "k \<le> 100 \<Longrightarrow> \<exists>vss d'. length vss = k \<and> (\<forall>vs \<in> set vss. listing (collate d) f ord us vs) \<and>
    read_pages d f ord r k = (concat (map (\<lambda>i. take (nat r) (drop (i * nat r) (vss ! i))) [0..<k]), d') \<and>
    holds_users d' us \<and> healthy d' \<and> collate d' = collate d"
proof (induction k)
  case (Suc k)
  let ?p = "\<lparr>pg_number = int (Suc k), pg_rows = r\<rparr>"
  have p: "wf_page ?p" "pg_rows ?p \<le> max_safe_rows"
    using Suc.prems assms(5,6) by (auto simp: wf_page_def in_int64_def max_safe_rows_def)
  obtain vss d' where IH: "length vss = k" "\<forall>vs \<in> set vss. listing (collate d) f ord us vs"
    "read_pages d f ord r k = (concat (map (\<lambda>i. take (nat r) (drop (i * nat r) (vss ! i))) [0..<k]), d')"
    "holds_users d' us" "healthy d'" "collate d' = collate d"
    using Suc by auto
  obtain d'' vs where q: "listing (collate d) f ord us vs" "store_query d' f ord ?p = (Ok (page_of ?p vs), d'')"
    "holds_users d'' us" "healthy d''" "collate d'' = collate d"
    using pg.query_up [OF IH(4,5) assms(3) p assms(4)] IH(6) by auto
  have same: "map (\<lambda>i. take (nat r) (drop (i * nat r) ((vss @ [vs]) ! i))) [0..<k] =
      map (\<lambda>i. take (nat r) (drop (i * nat r) (vss ! i))) [0..<k]"
    by (rule map_cong) (simp_all add: nth_append IH(1))
  then have "read_pages d f ord r (Suc k) =
      (concat (map (\<lambda>i. take (nat r) (drop (i * nat r) ((vss @ [vs]) ! i))) [0..<Suc k]), d'')"
    unfolding read_pages.simps IH(3) prod.case q(2) sum.case page_of_nth [OF assms(5)]
      upt_Suc_append [OF le0] map_append concat_append same
    by (simp add: nth_append IH(1))
  then show ?case
    using IH(1,2) q by (intro exI [of _ "vss @ [vs]"] exI [of _ d'']) auto
qed (use assms in simp)

lemma concat_pages: "concat (map (\<lambda>i. take n (drop (i * n) xs)) [0..<k]) = take (k * n) xs"
proof (induction k)
  case (Suc k)
  then show ?case using take_add [of "k * n" n xs] by (simp add: add.commute)
qed simp

lemma length_pages:
  "\<forall>i < k. length (vss ! i) = m \<Longrightarrow>
     length (concat (map (\<lambda>i. take n (drop (i * n) (vss ! i))) [0..<k])) = min (k * n) m"
  by (induction k) (auto simp: min_def)

lemma listing_ids:
  assumes "holds_users d us" "listing coll f ord us vs"
  shows "distinct (map u_id vs)"
proof -
  have "mset (map u_id vs) = mset (map u_id (filter (user_matches f) us))"
    using assms(2) unfolding listing_def by (metis mset_map)
  moreover have "distinct (map u_id (filter (user_matches f) us))"
    using pg.rep_ok [OF assms(1)] by (simp add: users_ok_def distinct_map_filter)
  ultimately show ?thesis by (metis mset_eq_imp_distinct_iff)
qed

text \<open>
  C26: The pages of a list, read one after the other on a working connection, show as many users as
  \<^verbatim>\<open>Count\<close> reports, as far as the 100 pages that can be asked for reach. When no two of the users that
  match have the same value in the column of the order, the pages are the whole list, sorted: no user is
  missed and none is shown twice.
\<close>

theorem pages_cover_list:
  assumes "holds_users d us" "healthy d" "wf_order ord" "filter_ok f" "1 \<le> r" "r \<le> max_safe_rows"
    and "k \<le> 100" "fst (store_count d f) = Ok n" "n \<le> int k * r"
  shows "int (length (fst (read_pages d f ord r k))) = n \<and>
    (distinct (map (user_key (collate d) (of_name ord)) (filter (user_matches f) us)) \<longrightarrow>
      listing (collate d) f ord us (fst (read_pages d f ord r k)) \<and>
      set (fst (read_pages d f ord r k)) = {u \<in> set us. user_matches f u} \<and>
      distinct (map u_id (fst (read_pages d f ord r k))))"
proof -
  have n: "n = spec_count f us" using pg.count_up [OF assms(1,2,4)] assms(8) by auto
  obtain vss d' where vss: "length vss = k" "\<forall>vs \<in> set vss. listing (collate d) f ord us vs"
    "read_pages d f ord r k = (concat (map (\<lambda>i. take (nat r) (drop (i * nat r) (vss ! i))) [0..<k]), d')"
    using read_pages_lists [OF assms(1-7)] by blast
  let ?l = "found_list d f ord us"
  have l: "listing (collate d) f ord us ?l" by (rule listing_found)
  have enough: "length ?l \<le> k * nat r"
  proof -
    have "int (length ?l) \<le> int (k * nat r)" using assms(5,9) n listing_length [OF l] by simp
    then show ?thesis by (simp only: of_nat_le_iff)
  qed
  have "length (vss ! i) = length ?l" if "i < k" for i
  proof -
    have "listing (collate d) f ord us (vss ! i)" using vss(1,2) that by simp
    then have "int (length (vss ! i)) = int (length ?l)" using listing_length l by metis
    then show ?thesis by simp
  qed
  then have "length (fst (read_pages d f ord r k)) = length ?l"
    using length_pages [of k vss "length ?l" "nat r"] enough by (simp add: vss(3))
  moreover have "listing (collate d) f ord us (fst (read_pages d f ord r k)) \<and>
      set (fst (read_pages d f ord r k)) = {u \<in> set us. user_matches f u} \<and>
      distinct (map u_id (fst (read_pages d f ord r k)))"
    if keys: "distinct (map (user_key (collate d) (of_name ord)) (filter (user_matches f) us))"
  proof -
    have "vss ! i = ?l" if "i < k" for i
      using listing_unique [OF _ l keys] vss(1,2) that by simp
    then have "map (\<lambda>i. take (nat r) (drop (i * nat r) (vss ! i))) [0..<k] =
        map (\<lambda>i. take (nat r) (drop (i * nat r) ?l)) [0..<k]"
      by (intro map_cong) simp_all
    then have eq: "fst (read_pages d f ord r k) = ?l"
      unfolding vss(3) using enough by (simp only: concat_pages fst_conv take_all)
    show ?thesis unfolding eq using l listing_set [OF l] listing_ids [OF assms(1) l] by simp
  qed
  ultimately show ?thesis using n listing_length [OF l] by simp
qed

theorem pages_cover_list_witness:
  "int (length (fst (read_pages (db_of [ann, bob] []) all_users by_name 1 2))) = 2 \<and>
   set (fst (read_pages (db_of [ann, bob] []) all_users by_name 1 2)) = {ann, bob}"
proof -
  have c: "fst (store_count (db_of [ann, bob] []) all_users) = Ok 2"
    using pg.count_up [of "db_of [ann, bob] []" "[ann, bob]" all_users] by (auto simp: spec_count_def)
  have "distinct (map (user_key (collate (db_of [ann, bob] [])) (of_name by_name)) [ann, bob])"
    by (simp add: by_name_def user_key_def db_of_def ann_def bob_def sample_user_def)
  then show ?thesis
    using pages_cover_list [of "db_of [ann, bob] []" "[ann, bob]" by_name all_users 1 2 2] c
    by (auto simp: max_safe_rows_def)
qed

text \<open>
  C29: Where two users have the same value in the column of the order, the pages can show one of them twice and
  the other one never, on a working connection and with nobody writing: the clause orders by one column that need
  not be unique, PostgreSQL leaves the order of equal rows to each query, and the pages are separate
  queries.
\<close>

theorem equal_keys_miss_users:
  assumes "users_ok us" "wf_order ord" "filter_ok f" "filter (user_matches f) us = [a, b]"
    and "user_key coll (of_name ord) a = user_key coll (of_name ord) b"
  shows "\<exists>d. holds_users d us \<and> healthy d \<and> collate d = coll \<and> fst (store_count d f) = Ok 2 \<and>
    fst (read_pages d f ord 1 2) = [a, a] \<and> b \<in> set us \<and> u_id b \<noteq> u_id a"
proof -
  let ?place = "\<lambda>n r. if 0 < (n :: nat) \<and> r = user_to_row a then 1 else 0 :: int"
  let ?d = "\<lparr>tbl = map user_to_row us, collate = coll, scan_order = ?place, queries = 0, faults = [], st_spans = []\<rparr>"
  have d: "holds_users ?d us" "healthy ?d" using assms(1) by (simp_all add: holds_users_def healthy_def)
  have mem: "a \<in> set us" "b \<in> set us" using assms(4) by (metis filter_is_subset list.set_intros subsetD)+
  have "distinct (map u_id (filter (user_matches f) us))"
    using assms(1) by (simp add: users_ok_def distinct_map_filter)
  then have ne: "u_id b \<noteq> u_id a" unfolding assms(4) by simp
  then have rows: "user_to_row a \<noteq> user_to_row b"
    using assms(1) mem uuid_string_inj [of "u_id a" "u_id b"]
    by (auto simp: user_to_row_def users_ok_def list_all_iff typed_user_def)
  let ?k = "\<lambda>n u. ?place n (user_to_row u)"
  have found: "found_list e f ord us = order_users coll ord (sort_key (?k (queries e)) [a, b])"
    if "scan_order e = ?place" "collate e = coll" for e
    using that assms(4) by (simp add: found_list_def filter_sort)
  have two: "order_users coll ord [a, b] = [a, b]" "order_users coll ord [b, a] = [b, a]"
    using assms(5) by (auto simp: order_users_def)
  have p: "wf_page \<lparr>pg_number = n, pg_rows = 1\<rparr>" if "n \<in> {1, 2}" for n
    using that by (auto simp: wf_page_def in_int64_def)
  obtain d1 where d1: "store_query ?d f ord \<lparr>pg_number = 1, pg_rows = 1\<rparr> = (Ok [a], d1)"
    "holds_users d1 us" "healthy d1" "collate d1 = coll" "scan_order d1 = ?place" "queries d1 = 1"
    using store_query_found [OF d assms(2) p [of 1] _ assms(3)] found [of ?d] two
    by (auto simp: max_safe_rows_def page_of_def)
  obtain d2 where d2: "store_query d1 f ord \<lparr>pg_number = 2, pg_rows = 1\<rparr> = (Ok [a], d2)"
    using store_query_found [OF d1(2,3) assms(2) p [of 2] _ assms(3)] found [OF d1(5,4)] two rows d1(6)
    by (auto simp: max_safe_rows_def page_of_def)
  have "fst (read_pages ?d f ord 1 2) = [a, a]"
    using d1(1) d2 by (simp add: numeral_2_eq_2)
  moreover have "fst (store_count ?d f) = Ok 2"
    using pg.count_up [OF d assms(3)] by (auto simp: spec_count_def assms(4))
  ultimately show ?thesis
    using d mem ne by (intro exI [of _ ?d]) simp
qed

definition anna :: user where
  "anna = sample_user 3 ''Anna'' ''anna@x.io'' [role_user]"

theorem equal_keys_miss_users_witness:
  "\<exists>d. holds_users d [ann, anna] \<and> healthy d \<and> fst (store_count d all_users) = Ok 2 \<and>
     fst (read_pages d all_users by_name 1 2) = [ann, ann]"
proof -
  have u: "typed_user anna" "fits anna" "stored_user anna = anna" "addr anna = ''anna@x.io''" "u_id ann \<noteq> u_id anna"
    by (simp_all add: anna_def ann_def sample_user_def typed_user_def wf_uuid_def wf_roles_iff fits_def addr_def
        text_ok_ascii stored_user_def trunc_micro_def)
  then have "users_ok [ann, anna]" by (simp add: users_ok_def)
  moreover have "user_key coll (of_name by_name) ann = user_key coll (of_name by_name) anna" for coll
    by (simp add: by_name_def user_key_def ann_def anna_def sample_user_def)
  ultimately show ?thesis
    using equal_keys_miss_users [of "[ann, anna]" by_name all_users ann anna] by fastforce
qed

section \<open>The bus\<close>

text \<open>
  C15: A user that has been created can log in with the address and the password of the request, and gets
  the stored user back; another password that bcrypt can tell from it is refused.
\<close>

theorem created_user_logs_in:
  assumes "holds_users (wd_store w) us" "healthy (wd_store w)" "bcrypt_law E" "rand_law E" "new_user_fits nu"
    and "bus_create E userdb_store w nu = (Ok u, w')" "ma_address m = ma_address (nu_email nu)"
  shows "fst (bus_authenticate E userdb_store w' m (nu_password nu)) = Ok (stored_user u) \<and>
    (plain_password p \<and> plain_password (nu_password nu) \<and> p \<noteq> nu_password nu \<longrightarrow>
       (\<exists>e. fst (bus_authenticate E userdb_store w' m p) = Err e))"
  using pg.create_then_authenticate [OF assms] by fastforce

definition carl :: new_user where
  "carl = \<lparr>nu_name = ''Carl'', nu_email = \<lparr>ma_name = [], ma_address = ''carl@x.io''\<rparr>, nu_roles = [role_user],
     nu_department = ''sales'', nu_password = ''password1''\<rparr>"

lemma carl_simps [simp]: "ma_address (nu_email carl) = ''carl@x.io''" "nu_password carl = ''password1''"
  by (simp_all add: carl_def)

lemma carl_fits [simp]: "new_user_fits carl" "wf_roles (nu_roles carl)"
  by (simp_all add: new_user_fits_def carl_def wf_roles_iff text_ok_ascii)

definition sample_world :: "user list \<Rightarrow> database world" where
  "sample_world us = \<lparr>wd_store = db_of us [], reads = 7\<rparr>"

lemma sample_world_simps [simp]: "wd_store (sample_world us) = db_of us []" "reads (sample_world us) = 7"
  by (simp_all add: sample_world_def)

lemma carl_created:
  "\<exists>w'. bus_create sample_env userdb_store (sample_world [ann]) carl = (Ok (created_user sample_env 7 carl), w')"
proof -
  have "u_id (created_user sample_env 7 carl) ! 0 = 9" "u_id ann ! 0 = 0"
    by (simp_all add: created_user_def sample_env_def ann_def sample_user_def uuid_from_random_def nth_append)
  then have "u_id (created_user sample_env 7 carl) \<noteq> u_id ann" by auto
  then show ?thesis
    using pg.bus_create_fresh [of "sample_world [ann]" "[ann]" sample_env carl]
    by auto
qed

theorem created_user_logs_in_witness:
  "\<exists>w' u. bus_create sample_env userdb_store (sample_world [ann]) carl = (Ok u, w') \<and>
     fst (bus_authenticate sample_env userdb_store w' (nu_email carl) ''password1'') = Ok (stored_user u)"
proof -
  obtain w' where w: "bus_create sample_env userdb_store (sample_world [ann]) carl = (Ok (created_user sample_env 7 carl), w')"
    using carl_created by blast
  show ?thesis
    using created_user_logs_in [OF _ _ sample_env_laws carl_fits(1) w, of "[ann]"] w by auto
qed


definition disable :: update_user where
  "disable = \<lparr>uu_name = None, uu_email = None, uu_roles = None, uu_department = None, uu_password = None,
     uu_enabled = Some False\<rparr>"

lemma bob_disabled:
  "\<exists>u w'. bus_update sample_env userdb_store (sample_world [ann, bob]) bob disable = (Ok u, w')"
proof -
  let ?u = "final_update sample_env 7 disable bob"
  have u: "typed_user ?u" "fits ?u" "u_id ?u = u_id bob" "addr ?u = addr bob"
    using sample_typed(2) sample_fits(2) by (simp_all add: final_update_def disable_def typed_user_def fits_def addr_def)
  have "addr (x\<lparr>u_created_at := t\<rparr>) = addr x" for x t by (simp add: addr_def)
  then have "distinct (map addr (updated_users [ann, bob] ?u))"
    by (simp add: updated_users_def u)
  then show ?thesis
    using pg.update_up [of "db_of [ann, bob] []" "[ann, bob]" ?u] u(1,2)
    by (auto simp: bus_update_store disable_def spec_update_def)
qed


section \<open>Histories\<close>

text \<open>
  A step of the service on its users: one operation of the bus, on a connection that may fail in any way
  from step to step. Updates and deletes are for users that have been read from the store.
\<close>

inductive bus_step :: "env \<Rightarrow> database world \<Rightarrow> database world \<Rightarrow> bool" for E where
  create: "wf_roles (nu_roles nu) \<Longrightarrow> bus_step E w (snd (bus_create E userdb_store w nu))"
| update: "typed_user u \<Longrightarrow> (case uu_roles upd of None \<Rightarrow> True | Some rs \<Rightarrow> wf_roles rs) \<Longrightarrow>
    bus_step E w (snd (bus_update E userdb_store w u upd))"
| delete: "typed_user u \<Longrightarrow> bus_step E w (snd (bus_delete userdb_store w u))"
| by_id: "bus_step E w (snd (bus_query_by_id userdb_store w i))"
| by_email: "bus_step E w (snd (bus_query_by_email userdb_store w m))"
| log_in: "bus_step E w (snd (bus_authenticate E userdb_store w m p))"
| fail: "bus_step E w (w\<lparr>wd_store := (wd_store w)\<lparr>faults := fs\<rparr>\<rparr>)"

text \<open>
  In every history of operations and failures that starts with an empty table, the table holds
  well-formed users at every moment: no two have the same id or the same address, each fits the columns
  and has known roles.
\<close>

lemma histories_keep_users:
  assumes "rand_law E" "(bus_step E)\<^sup>*\<^sup>* w0 w" "holds_users (wd_store w0) []"
  shows "\<exists>us. holds_users (wd_store w) us \<and> distinct (map u_id us) \<and> distinct (map addr us) \<and>
    list_all (\<lambda>u. typed_user u \<and> fits u) us"
proof -
  have "\<exists>us. holds_users (wd_store w) us"
    using assms(2)
  proof (induction rule: rtranclp_induct)
    case base
    then show ?case using assms(3) by blast
  next
    case (step v w)
    from step(2) show ?case
    proof cases
      case (update u upd)
      then have "typed_user (final_update E (reads v) upd u)"
        by (auto simp: typed_user_def final_update_def split: option.splits)
      then show ?thesis using pg.kept.bus_update_good [OF step(3)] update(1) by simp
    next
      case (by_id i)
      then show ?thesis
        using pg.kept.bus_by_id_good(1) [OF step(3), of i "fst (bus_query_by_id userdb_store v i)" w] by simp
    next
      case (fail fs)
      then show ?thesis using step(3) by (auto simp: holds_users_def)
    qed (use pg.kept.bus_create_good [OF step(3) assms(1)] pg.kept.bus_delete_good [OF step(3)]
        pg.kept.bus_by_email_good [OF step(3)] pg.kept.bus_authenticate_good [OF step(3)] in simp_all)
  qed
  then show ?thesis using pg.rep_ok by (auto simp: users_ok_def list_all_iff)
qed

lemma histories_keep_users_witness:
  "\<exists>us. holds_users (wd_store (snd (bus_create sample_env userdb_store (sample_world []) carl))) us \<and>
     distinct (map addr us)"
proof -
  have "(bus_step sample_env)\<^sup>*\<^sup>* (sample_world []) (snd (bus_create sample_env userdb_store (sample_world []) carl))"
    by (rule r_into_rtranclp) (rule bus_step.create, simp)
  then show ?thesis using histories_keep_users [of sample_env "sample_world []"] by fastforce
qed

end
