(* ===== verification/SampleJson.thy ===== *)
theory SampleJson
  imports Gin
begin

text \<open>
  A text for JSON values that can be read back, to instantiate the parameters \<open>json_marshal\<close>,
  \<open>json_unmarshal\<close> and \<open>json_decode\<close> in the examples. It is not the text of \<^verbatim>\<open>encoding/json\<close>.
\<close>

fun put_text :: "string \<Rightarrow> string" where
  "put_text [] = ''.''"
| "put_text (c # s) = CHR ''+'' # c # put_text s"

fun get_text :: "string \<Rightarrow> (string \<times> string) option" where
  "get_text (t # c # s) =
     (if t = CHR ''+'' then map_option (\<lambda>(v, r). (c # v, r)) (get_text s)
      else if t = CHR ''.'' then Some ([], c # s) else None)"
| "get_text [t] = (if t = CHR ''.'' then Some ([], []) else None)"
| "get_text [] = None"

lemma get_put_text [simp]: "get_text (put_text s @ r) = Some (s, r)"
  by (induction s) (simp, cases r, simp_all)

fun put_json :: "json \<Rightarrow> string" where
  "put_json JNull = ''n''"
| "put_json (JBool b) = (if b then ''t'' else ''f'')"
| "put_json (JNum s) = CHR ''#'' # put_text s"
| "put_json (JStr s) = CHR ''s'' # put_text s"
| "put_json (JArr js) = CHR ''['' # concat (map (\<lambda>j. CHR ''+'' # put_json j) js) @ ''.''"
| "put_json (JObj ms) = CHR ''{'' # concat (map (\<lambda>(k, j). CHR ''+'' # put_text k @ put_json j) ms) @ ''.''"

fun get_json :: "nat \<Rightarrow> string \<Rightarrow> (json \<times> string) option"
  and get_elems :: "nat \<Rightarrow> string \<Rightarrow> (json list \<times> string) option"
  and get_members :: "nat \<Rightarrow> string \<Rightarrow> ((string \<times> json) list \<times> string) option" where
  "get_json (Suc n) (c # s) =
     (if c = CHR ''n'' then Some (JNull, s)
      else if c = CHR ''t'' then Some (JBool True, s)
      else if c = CHR ''f'' then Some (JBool False, s)
      else if c = CHR ''#'' then map_option (\<lambda>(v, r). (JNum v, r)) (get_text s)
      else if c = CHR ''s'' then map_option (\<lambda>(v, r). (JStr v, r)) (get_text s)
      else if c = CHR ''['' then map_option (\<lambda>(v, r). (JArr v, r)) (get_elems n s)
      else if c = CHR ''{'' then map_option (\<lambda>(v, r). (JObj v, r)) (get_members n s)
      else None)"
| "get_json n s = None"
| "get_elems (Suc n) (c # s) =
     (if c = CHR ''.'' then Some ([], s)
      else (case get_json n s of None \<Rightarrow> None
            | Some (j, r) \<Rightarrow> map_option (\<lambda>(js, r). (j # js, r)) (get_elems n r)))"
| "get_elems n s = None"
| "get_members (Suc n) (c # s) =
     (if c = CHR ''.'' then Some ([], s)
      else (case get_text s of None \<Rightarrow> None
            | Some (k, r) \<Rightarrow>
                (case get_json n r of None \<Rightarrow> None
                 | Some (j, r) \<Rightarrow> map_option (\<lambda>(ms, r). ((k, j) # ms, r)) (get_members n r))))"
| "get_members n s = None"

text \<open>A step of fuel for each value, element and member is enough.\<close>

fun json_fuel :: "json \<Rightarrow> nat" where
  "json_fuel (JArr js) = Suc (Suc (sum_list (map (\<lambda>j. Suc (json_fuel j)) js)))"
| "json_fuel (JObj ms) = Suc (Suc (sum_list (map (\<lambda>(k, j). Suc (json_fuel j)) ms)))"
| "json_fuel j = 1"

lemma get_put_json:
  "json_fuel j \<le> n \<Longrightarrow> get_json n (put_json j @ r) = Some (j, r)"
  "Suc (sum_list (map (\<lambda>j. Suc (json_fuel j)) js)) \<le> n \<Longrightarrow>
     get_elems n (concat (map (\<lambda>j. CHR ''+'' # put_json j) js) @ CHR ''.'' # r) = Some (js, r)"
  "Suc (sum_list (map (\<lambda>(k, j). Suc (json_fuel j)) ms)) \<le> n \<Longrightarrow>
     get_members n (concat (map (\<lambda>(k, j). CHR ''+'' # put_text k @ put_json j) ms) @ CHR ''.'' # r) = Some (ms, r)"
proof (induction n arbitrary: j js ms r)
  case 0
  { case 1 then show ?case by (cases j) simp_all
  next case 2 then show ?case by simp
  next case 3 then show ?case by simp }
next
  case (Suc n)
  { case 1
    then show ?case using Suc.IH by (cases j) simp_all
  next
    case 2
    then show ?case using Suc.IH by (cases js) simp_all
  next
    case 3
    then show ?case using Suc.IH by (cases ms) (auto simp: split_def) }
qed

lemma put_text_length: "length s < length (put_text s)"
  by (induction s) simp_all

lemma json_fuel_length: "json_fuel j \<le> 2 * length (put_json j)"
proof (induction j)
  case (JArr js)
  have "sum_list (map (\<lambda>j. Suc (json_fuel j)) js) \<le> 2 * length (concat (map (\<lambda>j. CHR ''+'' # put_json j) js))"
    using JArr by (induction js) (simp, fastforce)
  then show ?case by simp
next
  case (JObj ms)
  have "sum_list (map (\<lambda>(k, j). Suc (json_fuel j)) ms) \<le>
      2 * length (concat (map (\<lambda>(k, j). CHR ''+'' # put_text k @ put_json j) ms))"
    using JObj by (induction ms) (simp, fastforce)
  then show ?case by simp
qed simp_all

definition read_json :: "string \<Rightarrow> json res" where
  "read_json s =
     (case get_json (2 * length s) s of Some (j, []) \<Rightarrow> Ok j | _ \<Rightarrow> Err (ErrPlain ''invalid JSON''))"

lemma read_put_json [simp]: "read_json (put_json j) = Ok j"
  using get_put_json(1) [OF json_fuel_length, of j "[]"] by (simp add: read_json_def)

end
