(* ===== verification/AccessProperties.thy ===== *)
theory AccessProperties
  imports Auth UserBus SampleJson
begin

text \<open>
  The properties of the key store and of tokens: what a load leaves in the store, the active key under
  any interleaving, and that a token is accepted exactly when a key of the store has signed it.
\<close>

section \<open>Loading keys\<close>

lemma add_files_ok:
  "(\<exists>ks'. add_files X fs ks = (WNil, ks')) \<longleftrightarrow> list_all (\<lambda>(p, r). \<exists>k. r = Ok k) fs"
  by (induction X fs ks rule: add_files.induct) auto

lemma private_add_key:
  "ks_private_key (add_key X (p, k) ks) i = (if i = key_id p then Ok k else ks_private_key ks i)"
  by (simp add: ks_private_key_def add_key_def update_conv')

text \<open>The keys of the files that were read, by id; of two files with one id the later counts.\<close>

definition files_by_id :: "(string \<times> rsa_private res) list \<Rightarrow> (string \<times> rsa_private res) list" where
  "files_by_id fs = rev (map (\<lambda>(p, r). (key_id p, r)) fs)"

lemma add_files_lookup:
  "add_files X fs ks = (WNil, ks') \<Longrightarrow>
     ks_private_key ks' i = (case map_of (files_by_id fs) i of None \<Rightarrow> ks_private_key ks i | Some r \<Rightarrow> r)"
proof (induction X fs ks rule: add_files.induct)
  case (3 X p k fs ks)
  have "map_of (files_by_id ((p, Ok k) # fs)) i =
      (case map_of (files_by_id fs) i of Some r \<Rightarrow> Some r | None \<Rightarrow> if i = key_id p then Some (Ok k) else None)"
    by (simp add: files_by_id_def map_add_def split: option.split)
  then show ?case using 3 by (auto simp: private_add_key split: option.split)
qed (simp_all add: files_by_id_def)

lemma add_files_ids:
  "add_files X fs ks = (WNil, ks') \<Longrightarrow>
     fst ` set (ks_store ks') = fst ` set (ks_store ks) \<union> (key_id \<circ> fst) ` set fs"
  by (induction X fs ks rule: add_files.induct) (auto simp: add_key_ids)

text \<open>
  C30: Loading keys into a new store succeeds exactly when every file with a \<^verbatim>\<open>.pem\<close> name that the walk
  reaches (hidden directories are skipped) can be read and holds an RSA private key. Then the store
  gives each of them under its id, the public half of the pair with it, and nothing else, and the number
  that is returned is the number of ids.
\<close>

theorem load_is_exact:
  assumes "fs = key_files X ''.'' ''.'' n"
  shows "(\<exists>m ks. ks_load_from_file_system X ks_new (Ok n) = (Ok m, ks)) = list_all (\<lambda>(p, r). \<exists>k. r = Ok k) fs \<and>
    (\<forall>m ks. ks_load_from_file_system X ks_new (Ok n) = (Ok m, ks) \<longrightarrow>
       m = card ((key_id \<circ> fst) ` set fs) \<and>
       (\<forall>i. ks_private_key ks i =
              (case map_of (files_by_id fs) i of None \<Rightarrow> Err ErrKeyNotFound | Some r \<Rightarrow> r) \<and>
            (\<forall>k. ks_private_key ks i = Ok k \<longrightarrow> ks_public_key ks i = Ok (public_of X k))))"
proof (intro conjI allI impI)
  have load: "ks_load_from_file_system X ks_new (Ok n) =
      (case add_files X fs ks_new of (WErr e, ks) \<Rightarrow> (Err (ErrWrap ''walkDir'' e), ks) | (_, ks) \<Rightarrow> (Ok (length (ks_store ks)), ks))"
    by (simp add: ks_load_from_file_system_def walk_is_add assms)
  have "(\<exists>m ks. ks_load_from_file_system X ks_new (Ok n) = (Ok m, ks)) = (\<exists>ks. add_files X fs ks_new = (WNil, ks))"
    using add_files_no_skip [of X fs ks_new] by (auto simp: load split: prod.splits walk_res.splits)
  then show "(\<exists>m ks. ks_load_from_file_system X ks_new (Ok n) = (Ok m, ks)) = list_all (\<lambda>(p, r). \<exists>k. r = Ok k) fs"
    by (simp add: add_files_ok)
  fix m ks
  assume l: "ks_load_from_file_system X ks_new (Ok n) = (Ok m, ks)"
  then have ok: "add_files X fs ks_new = (WNil, ks)" and m: "m = length (ks_store ks)"
    using add_files_no_skip [of X fs ks_new] by (auto simp: load split: prod.splits walk_res.splits)
  have wf: "wf_keys X ks" using wf_add_files [OF wf_ks_new, of X fs] ok by simp
  have "length (ks_store ks) = card (fst ` set (ks_store ks))"
    using wf distinct_card [of "map fst (ks_store ks)"] by (simp add: wf_keys_def)
  then show "m = card ((key_id \<circ> fst) ` set fs)"
    using m add_files_ids [OF ok] by (simp add: ks_new_def)
  fix i
  have new: "ks_private_key ks_new i = Err ErrKeyNotFound" by (simp add: ks_private_key_def ks_new_def)
  show "ks_private_key ks i = (case map_of (files_by_id fs) i of None \<Rightarrow> Err ErrKeyNotFound | Some r \<Rightarrow> r)"
    unfolding add_files_lookup [OF ok, of i] new ..
  fix k
  assume "ks_private_key ks i = Ok k"
  then show "ks_public_key ks i = Ok (public_of X k)"
    using ks_loader.pair [OF wf, of i k] by (simp add: keystore_api_def)
qed

definition sample_crypto :: crypto where
  "sample_crypto =
     \<lparr>pem_decode = (\<lambda>s. if s = [] then None else Some (''PRIVATE KEY'', s)),
      parse_pkcs1 = (\<lambda>s. Err (ErrPlain ''asn1'')), parse_pkcs8 = (\<lambda>s. Ok (RsaKey s)), public_of = (\<lambda>k. k)\<rparr>"

definition sample_tree :: fsnode where
  "sample_tree = FDir None
     [(''..data'', FDir None [(''k1.pem'', FFile None (Ok ''key one''))]),
      (''k1.pem'', FFile None (Ok ''key one'')), (''note.txt'', FFile None (Ok ''x''))]"

theorem load_is_exact_witness:
  "\<exists>ks. ks_load_from_file_system sample_crypto ks_new (Ok sample_tree) = (Ok 1, ks) \<and>
     ks_private_key ks ''k1'' = Ok ''key one'' \<and> ks_private_key ks ''note'' = Err ErrKeyNotFound"
proof -
  let ?fs = "key_files sample_crypto ''.'' ''.'' sample_tree"
  have fs: "?fs = [(''k1.pem'', Ok ''key one'')]"
    by (simp add: sample_tree_def sample_crypto_def path_ext_def path_join_def load_key_def max_pem_size_def)
  have id: "key_id ''k1.pem'' = ''k1''" by code_simp
  obtain m ks where l: "ks_load_from_file_system sample_crypto ks_new (Ok sample_tree) = (Ok m, ks)"
    using load_is_exact [OF refl, of sample_crypto sample_tree] by (auto simp: fs)
  then show ?thesis
    using load_is_exact [OF refl, of sample_crypto sample_tree] by (auto simp: fs files_by_id_def id)
qed

lemma sample_tree_loads:
  "\<exists>ks. ks_load_from_file_system sample_crypto ks_new (Ok sample_tree) = (Ok 1, ks) \<and>
     ks_private_key ks ''k1'' = Ok ''key one''"
proof -
  have fs: "key_files sample_crypto ''.'' ''.'' sample_tree = [(''k1.pem'', Ok ''key one'')]"
    by (simp add: sample_tree_def sample_crypto_def path_ext_def path_join_def load_key_def max_pem_size_def)
  have id: "key_id ''k1.pem'' = ''k1''" by code_simp
  show ?thesis
    by (simp add: ks_load_from_file_system_def walk_is_add fs add_key_def id ks_new_def ks_private_key_def)
qed

lemma stored_key:
  assumes "wf_keys X ks" "kid \<in> key_ids ks"
  shows "\<exists>k. ks_private_key ks kid = Ok k \<and> ks_public_key ks kid = Ok (public_of X k)"
proof -
  obtain k where k: "ks_private_key ks kid = Ok k"
    using assms(2) by (auto simp: ks_private_key_def key_ids_iff)
  then show ?thesis
    using ks_loader.pair [OF assms(1), of kid k] by (simp add: keystore_api_def)
qed

text \<open>
  C31: However loads, lookups and activations of several goroutines interleave, each section under its lock,
  starting from a new store: the active key is none or a key of the store, whose public part belongs to its
  private one, although \<^verbatim>\<open>SetActiveKey\<close> checks and sets under two different locks. An activation that has
  succeeded named a key that is still in the store, and so does any answer about the active key.
\<close>

theorem active_key_exists:
  assumes "prog_turn\<^sup>*\<^sup>* (ks_new, map (ks_prog X) calls) (ks, ps)"
  shows "(ks_get_active_kid ks = [] \<or>
      (\<exists>k. ks_private_key ks (ks_get_active_kid ks) = Ok k \<and>
           ks_public_key ks (ks_get_active_kid ks) = Ok (public_of X k))) \<and>
    (\<forall>i < length calls. \<forall>kid. calls ! i = SetActive kid \<and> ps ! i = Return (ActiveSet None) \<longrightarrow>
      (\<exists>k. ks_private_key ks kid = Ok k)) \<and>
    (\<forall>i < length calls. \<forall>kid. ps ! i = Return (ActiveIs kid) \<and> kid \<noteq> [] \<longrightarrow>
      (\<exists>k. ks_private_key ks kid = Ok k))"
proof (intro conjI allI impI)
  note keep = ks_calls_keep [OF assms wf_ks_new]
  show "ks_get_active_kid ks = [] \<or> (\<exists>k. ks_private_key ks (ks_get_active_kid ks) = Ok k \<and>
      ks_public_key ks (ks_get_active_kid ks) = Ok (public_of X k))"
    using keep(1) stored_key [OF keep(1)] by (auto simp: wf_keys_def key_ids_def ks_get_active_kid_def)
  fix i kid
  assume i: "i < length calls"
  show "\<exists>k. ks_private_key ks kid = Ok k" if "calls ! i = SetActive kid \<and> ps ! i = Return (ActiveSet None)"
    using keep(3) [OF i, of "ActiveSet None"] stored_key [OF keep(1), of kid] that by (auto simp: ks_promise_def)
  show "\<exists>k. ks_private_key ks kid = Ok k" if "ps ! i = Return (ActiveIs kid) \<and> kid \<noteq> []"
    using keep(3) [OF i, of "ActiveIs kid"] stored_key [OF keep(1), of kid] that by (auto simp: ks_promise_def)
qed

theorem active_key_exists_witness:
  "\<exists>ks. prog_turn\<^sup>*\<^sup>* (ks_new, map (ks_prog sample_crypto) [LoadKeys (Ok sample_tree), SetActive ''k1''])
       (ks, [Return (Loaded (Ok 1)), Return (ActiveSet None)]) \<and>
     ks_get_active_kid ks = ''k1'' \<and> (\<exists>k. ks_private_key ks ''k1'' = Ok k)"
proof -
  let ?calls = "[LoadKeys (Ok sample_tree), SetActive ''k1'']" and ?P = "ks_prog sample_crypto"
  obtain ks where ks: "ks_load_from_file_system sample_crypto ks_new (Ok sample_tree) = (Ok 1, ks)"
    "ks_private_key ks ''k1'' = Ok ''key one''"
    using sample_tree_loads by blast
  then obtain k where "map_of (ks_store ks) ''k1'' = Some k" by (auto simp: ks_private_key_def split: option.splits)
  then have set: "ks_set_active_key ks ''k1'' = (None, ks\<lparr>ks_active := ''k1''\<rparr>)" by (simp add: set_active_alone)
  have "run_prog (?P (LoadKeys (Ok sample_tree))) ks_new = (Loaded (Ok 1), ks)"
    unfolding run_ks_prog using ks(1) by simp
  then have "prog_turn\<^sup>*\<^sup>* (ks_new, map ?P ?calls) (ks, [Return (Loaded (Ok 1)), ?P (SetActive ''k1'')])"
    using run_in_pool [of 0 "map ?P ?calls" "?P (LoadKeys (Ok sample_tree))" ks_new] by (simp del: ks_prog.simps)
  moreover have "run_prog (?P (SetActive ''k1'')) ks = (ActiveSet None, ks\<lparr>ks_active := ''k1''\<rparr>)"
    unfolding run_ks_prog set by simp
  then have "prog_turn\<^sup>*\<^sup>* (ks, [Return (Loaded (Ok 1)), ?P (SetActive ''k1'')])
      (ks\<lparr>ks_active := ''k1''\<rparr>, [Return (Loaded (Ok 1)), Return (ActiveSet None)])"
    using run_in_pool [of 1 "[Return (Loaded (Ok 1)), ?P (SetActive ''k1'')]" "?P (SetActive ''k1'')" ks]
    by (simp del: ks_prog.simps)
  ultimately have reach: "prog_turn\<^sup>*\<^sup>* (ks_new, map ?P ?calls)
      (ks\<lparr>ks_active := ''k1''\<rparr>, [Return (Loaded (Ok 1)), Return (ActiveSet None)])"
    by (rule rtranclp_trans)
  have "\<exists>k. ks_private_key (ks\<lparr>ks_active := ''k1''\<rparr>) ''k1'' = Ok k"
    using conjunct1 [OF active_key_exists [OF reach]] by (auto simp: ks_get_active_kid_def)
  then show ?thesis using reach by (intro exI [of _ "ks\<lparr>ks_active := ''k1''\<rparr>"]) (simp add: ks_get_active_kid_def)
qed

section \<open>Tokens\<close>

text \<open>
  C10: A token is accepted only if it is \<^verbatim>\<open>Bearer\<close> and three parts of which the last is the RS256
  signature of the first two with a private key of the store, the one that the header names, and only
  within the times of its claims; the claims that are returned are those that were signed.
\<close>

theorem accepted_token_was_signed:
  assumes "au_keys a = keystore_api" "wf_keys (jw_crypto (au_env a)) (au_state a)" "rsa_law (au_env a)"
    and "verify_token a now bearer = Ok c"
  shows "\<exists>token. bearer = ''Bearer '' @ token \<and> signed_token a c token \<and> in_time now c"
  using assms by (rule ks_loader.verify_sound)

text \<open>An environment for tokens.\<close>

definition sample_claims :: claims where
  "sample_claims = no_claims
     \<lparr>cl_issuer := ''anybody'', cl_subject := uuid_string (u_id ann), cl_roles := [''user''], cl_expires_at := Some (60 * 1000000000)\<rparr>"

definition sample_jwt :: jwt_env where
  "sample_jwt =
     \<lparr>jw_crypto = sample_crypto,
      rsa_sign = (\<lambda>k m. Ok (k @ m)),
      rsa_verify = (\<lambda>p m s. if s = p @ m then None else Some (ErrPlain ''crypto/rsa: verification error'')),
      json_marshal = put_json, json_unmarshal = read_json, json_decode = read_json,
      num_seconds = (\<lambda>s. case atoi s of Inr n \<Rightarrow> Some n | Inl e \<Rightarrow> None)\<rparr>"

lemma atoi_small: "\<bar>n\<bar> < 9007199254740992 \<Longrightarrow> atoi (itoa n) = Inr n"
  by (rule atoi_itoa) (simp add: in_int64_def abs_less_iff)

lemma sample_jwt_laws [simp]: "rsa_law sample_jwt" "num_law sample_jwt" "jw_crypto sample_jwt = sample_crypto"
  by (auto simp: rsa_law_def num_law_def sample_jwt_def sample_crypto_def atoi_small)

lemma sample_jwt_json [simp]: "json_law sample_jwt j"
  by (simp add: json_law_def sample_jwt_def)

definition sample_ks :: keystore where
  "sample_ks = add_key sample_crypto (''k1.pem'', ''key one'') ks_new"

lemma key_id_k1: "key_id ''k1.pem'' = ''k1''"
  by code_simp

lemma sample_ks_simps [simp]:
  "wf_keys sample_crypto sample_ks" "ks_private_key sample_ks ''k1'' = Ok ''key one''"
  by (simp_all add: sample_ks_def wf_add_key private_add_key key_id_k1)

definition sample_auth :: "keystore auth" where
  "sample_auth = auth_new keystore_api sample_ks sample_jwt () ''jumble''"

lemma sample_auth_simps [simp]:
  "au_keys sample_auth = keystore_api" "au_state sample_auth = sample_ks" "au_env sample_auth = sample_jwt"
  by (simp_all add: sample_auth_def auth_new_def)

lemma sample_token: "\<exists>token. generate_token sample_auth ''k1'' sample_claims = Ok token"
  by (simp add: generate_token_def keystore_api_def signed_string_def sample_jwt_def Let_def)

lemma sample_claims_ok [simp]: "claims_ok sample_claims" "in_time 0 sample_claims" "in_time 7000000000 sample_claims"
  by (simp_all add: claims_ok_def date_ok_def sample_claims_def no_claims_def trunc_second_def in_time_def)

text \<open>
  C11: A token that \<^verbatim>\<open>GenerateToken\<close> has made is accepted by \<^verbatim>\<open>VerifyToken\<close>, which returns the claims that
  went in, as long as the time is within them. The issuer plays no part: \<^verbatim>\<open>auth.New\<close> is given one and
  drops it, and claims of any issuer are accepted.
\<close>

theorem generated_token_accepted:
  assumes "a = auth_new keystore_api ks J usr_bus issuer" "wf_keys (jw_crypto J) ks" "rsa_law J" "num_law J"
    and "claims_ok c" "json_law J (token_header kid)" "json_law J (claims_to_json c)" "in_time now c"
    and "generate_token a kid c = Ok token"
  shows "verify_token a now (''Bearer '' @ token) = Ok c"
  using assms by (intro ks_loader.verify_generated) (simp_all add: auth_new_def)

theorem generated_token_accepted_witness:
  "\<exists>token. generate_token sample_auth ''k1'' sample_claims = Ok token \<and>
     verify_token sample_auth 0 (''Bearer '' @ token) = Ok sample_claims"
proof -
  obtain token where t: "generate_token sample_auth ''k1'' sample_claims = Ok token" using sample_token by blast
  then show ?thesis
    using generated_token_accepted [of sample_auth sample_ks sample_jwt "()" "''jumble''" sample_claims "''k1''" 0 token]
    by (simp add: sample_auth_def)
qed

lemma sample_token_ok:
  assumes "in_time now sample_claims"
  shows "\<exists>token. verify_token sample_auth now (''Bearer '' @ token) = Ok sample_claims"
  using assms sample_token ks_loader.verify_generated [of sample_auth sample_claims "''k1''" now] by auto

theorem accepted_token_was_signed_witness:
  "\<exists>token. signed_token sample_auth sample_claims token \<and> in_time 0 sample_claims"
proof -
  obtain token where "verify_token sample_auth 0 (''Bearer '' @ token) = Ok sample_claims"
    using sample_token_ok [OF sample_claims_ok(2)] by blast
  then show ?thesis
    using accepted_token_was_signed [of sample_auth 0 "''Bearer '' @ token" sample_claims] by auto
qed

end
