(* ===== verification/Samples.thy ===== *)
theory Samples
  imports Effects DataProperties AccessProperties
begin

text \<open>
  A configuration, a state and requests to evaluate the properties on, and the routes of the paths that
  the properties name.
\<close>

section \<open>A configuration and requests to evaluate the properties on\<close>

definition sample_text :: text_env where
  "sample_text =
     \<lparr>mail_parse = (\<lambda>s. if CHR ''@'' \<in> set s then Ok \<lparr>ma_name = [], ma_address = s\<rparr>
                      else Err (ErrPlain ''mail: missing @ or angle-addr'')),
      email_regex = (\<lambda>s. CHR ''@'' \<in> set s),
      time_parse = (\<lambda>s. Ok 0), time_format = itoa, translate = fe_tag\<rparr>"

definition config_over :: "'s store_api \<Rightarrow> ('s, keystore) config" where
  "config_over api =
     \<lparr>cf_env = sample_env, cf_text = sample_text, cf_api = api, cf_auth = sample_auth,
      cf_kid = ''k1'', cf_issuer = ''jumble'', cf_token_max_age = 3600 * 1000000000,
      cf_log = logger_new False LevelInfo ''jumble'' (Some get_trace_id),
      cf_client_ip = rq_remote, cf_size = (\<lambda>js. int (length js)), cf_goroutines = (\<lambda>n. 4),
      cf_trace_id = (\<lambda>rq. None), cf_stack = (\<lambda>p. ''goroutine 1''),
      cf_runtime = (''extern.go'', 0), cf_frames = (\<lambda>msg. [(''main.go'', 1)])\<rparr>"

definition sample_config :: "(database, keystore) config" where
  "sample_config = config_over userdb_store"

lemma config_over_simps [simp]: "cf_env (config_over api) = sample_env" "cf_api (config_over api) = api"
  by (simp_all add: config_over_def)

lemma sample_config_simps [simp]:
  "cf_env sample_config = sample_env" "cf_text sample_config = sample_text"
  "cf_api sample_config = userdb_store" "cf_auth sample_config = sample_auth" "cf_kid sample_config = ''k1''"
  by (simp_all add: sample_config_def config_over_def)

definition sample_app :: "user list \<Rightarrow> database app" where
  "sample_app us = \<lparr>ap_world = sample_world us, ap_metrics = metrics_new, ap_log = [], ap_spans = []\<rparr>"

lemma sample_app_simps [simp]:
  "ap_world (sample_app us) = sample_world us" "ap_metrics (sample_app us) = metrics_new"
  by (simp_all add: sample_app_def)

definition sample_request :: "string \<Rightarrow> string \<Rightarrow> json res \<Rightarrow> request" where
  "sample_request m p body =
     \<lparr>rq_method = m, rq_path = p, rq_raw_query = [], rq_query = [], rq_headers = [], rq_body = body,
      rq_remote = ''10.0.0.1'', rq_host = ''api'', rq_url = p, rq_trace = None\<rparr>"

lemma sample_request_simps [simp]:
  "rq_method (sample_request m p b) = m" "rq_path (sample_request m p b) = p" "rq_body (sample_request m p b) = b"
  "rq_headers (sample_request m p b) = []"
  by (simp_all add: sample_request_def)

text \<open>A context behind the authentication of \<open>caller\<close>, on a path that names a user.\<close>

definition sample_ctx :: "user \<Rightarrow> uuid \<Rightarrow> json \<Rightarrow> ctx_val gin_ctx" where
  "sample_ctx caller i body =
     gin_set ''user'' (KUser caller) (new_ctx (sample_request ''PUT'' [] (Ok body)) [(''id'', uuid_string i)] [])"

lemma sample_ctx_simps [simp]:
  "gin_get ''user'' (sample_ctx a i b) = Some (KUser a)" "gin_param ''id'' (sample_ctx a i b) = uuid_string i"
  "gx_request (sample_ctx a i b) = sample_request ''PUT'' [] (Ok b)"
  by (simp_all add: sample_ctx_def gin_get_def gin_param_def gin_set_def new_ctx_def)

lemma sample_id_parse [simp]:
  "uuid_parse (uuid_string (u_id ann)) = Ok (u_id ann)" "uuid_parse (uuid_string (u_id bob)) = Ok (u_id bob)"
  using sample_typed by (simp_all add: typed_user_def uuid_parse_string)

lemma sample_admin [simp]: "role_admin \<in> set (u_roles ann)"
  by (simp add: ann_def sample_user_def)

section \<open>Routes\<close>

lemma not_redirected:
  "find_route (main_engine C) (rq_method rq) (rq_path rq) \<noteq> None \<Longrightarrow> handle_request C rq g \<noteq> Redirected code"
  by (auto simp: request_found)

text \<open>The route of each kind of path.\<close>

lemma user_path_segments:
  "CHR ''/'' \<notin> set s \<Longrightarrow> split_on CHR ''/'' (''/v1/users/'' @ s) = [[], ''v1'', ''users'', s]"
  by (simp add: split_on_no_sep)

lemma find_user_route:
  assumes "CHR ''/'' \<notin> set s" "s \<noteq> []"
  shows "find_route (main_engine C) ''GET'' (''/v1/users/'' @ s) =
      Some (\<lparr>rt_method = ''GET'', rt_path = ''/v1/users/:id'',
             rt_handlers = main_handlers C @ [h_query_user_by_id C, mid_authenticate C]\<rparr>, [(''id'', s)])"
    and "find_route (main_engine C) ''DELETE'' (''/v1/users/'' @ s) =
      Some (\<lparr>rt_method = ''DELETE'', rt_path = ''/v1/users/:id'',
             rt_handlers = main_handlers C @ [h_delete_user C, mid_authenticate C, mid_user C]\<rparr>, [(''id'', s)])"
  using assms
  by (simp_all add: find_route_def user_path_segments main_engine_simps user_routes_def del: append.simps)

end
