(* ===== verification/SignUp.thy ===== *)
theory SignUp
  imports LeafRoutes Samples
begin

text \<open>
  Sign-up and log-in from end to end: what a client that posts a valid user gets from the engine of
  \<^verbatim>\<open>main.go\<close>, what the table holds afterwards and what the token that was issued is worth.
\<close>

section \<open>The issuer of tokens\<close>

text \<open>
  A configuration whose key signs, whose clock stays within 64-bit nanoseconds and whose claims the JSON
  library reads back.
\<close>

definition issuer_ok :: "('s, keystore) config \<Rightarrow> bool" where
  "issuer_ok C \<longleftrightarrow>
     (let a = cf_auth C; J = au_env a in
      au_keys a = keystore_api \<and> wf_keys (jw_crypto J) (au_state a) \<and> rsa_law J \<and> num_law J \<and>
      (\<exists>k. ks_private_key (au_state a) (cf_kid C) = Ok k \<and> (\<forall>m. \<exists>sig. rsa_sign J k m = Ok sig)) \<and>
      json_law J (token_header (cf_kid C)) \<and>
      (\<forall>u t1 t2. typed_user u \<longrightarrow>
         json_law J (claims_to_json (token_claims C (uuid_string (u_id u)) (roles_to_string (u_roles u)) t1 t2))) \<and>
      (\<forall>n. \<bar>now_at (cf_env C) n\<bar> < 2 ^ 62) \<and> \<bar>cf_token_max_age C\<bar> < 2 ^ 62)"

lemma div_below:
  fixes t :: gotime
  assumes "\<bar>t\<bar> < 2 ^ 63"
  shows "\<bar>trunc_second t div 1000000000\<bar> < 9007199254740992"
proof -
  have "trunc_second t div 1000000000 = t div 1000000000"
    by (simp add: trunc_second_def minus_mod_eq_div_mult)
  moreover have "t div 1000000000 \<le> 2 ^ 63 div 1000000000" "- (2 ^ 63) div 1000000000 \<le> t div 1000000000"
    using assms by (intro zdiv_mono1; simp add: abs_less_iff)+
  ultimately show ?thesis by simp
qed

lemma date_ok_numeric: "\<bar>t\<bar> < 2 ^ 63 \<Longrightarrow> date_ok (Some (new_numeric_date t))"
  using div_below [of t] by (simp add: date_ok_def new_numeric_date_def) (simp add: trunc_second_def)

text \<open>A token for a user that is accepted as what it says.\<close>

definition token_for :: "('s, keystore) config \<Rightarrow> user \<Rightarrow> string \<Rightarrow> bool" where
  "token_for C u token \<longleftrightarrow>
     (\<exists>cl. cl_subject cl = uuid_string (u_id u) \<and> cl_roles cl = roles_to_string (u_roles u) \<and>
        cl_issuer cl = cf_issuer C \<and>
        (\<forall>now. in_time now cl \<longrightarrow> verify_token (cf_auth C) now (''Bearer '' @ token) = Ok cl))"

lemma issued_token:
  assumes "issuer_ok C" "typed_user u" "\<bar>t1\<bar> < 2 ^ 62" "\<bar>t2\<bar> < 2 ^ 62"
    and "cl = token_claims C (uuid_string (u_id u)) (roles_to_string (u_roles u)) t1 t2"
  shows "\<exists>token. generate_token (cf_auth C) (cf_kid C) cl = Ok token \<and> token_for C u token"
proof -
  let ?a = "cf_auth C"
  note i = assms(1) [unfolded issuer_ok_def Let_def]
  obtain k where k: "ks_private_key (au_state ?a) (cf_kid C) = Ok k" "\<And>m. \<exists>sig. rsa_sign (au_env ?a) k m = Ok sig"
    using i by blast
  have "\<exists>token. signed_string (au_env ?a) (token_header (cf_kid C)) cl k = Ok token"
    using k(2) [of "signing_string (au_env ?a) (token_header (cf_kid C)) cl"] by (auto simp: signed_string_def Let_def)
  moreover have "au_keys ?a = keystore_api" using i by blast
  ultimately have gen: "\<exists>token. generate_token ?a (cf_kid C) cl = Ok token"
    using k(1) by (auto simp: generate_token_def keystore_api_def)
  then obtain token where token: "generate_token ?a (cf_kid C) cl = Ok token" by blast
  have "\<bar>t1\<bar> < 2 ^ 63" "\<bar>t2 + cf_token_max_age C\<bar> < 2 ^ 63" using assms(3,4) i by (simp_all add: abs_less_iff)
  then have "claims_ok cl"
    using date_ok_numeric [of t1] date_ok_numeric [of "t2 + cf_token_max_age C"]
    by (simp add: assms(5) claims_ok_def token_claims_def no_claims_def) (simp add: date_ok_def)
  moreover have "json_law (au_env ?a) (claims_to_json cl)" using i assms(2,5) by blast
  ultimately have "verify_token ?a now (''Bearer '' @ token) = Ok cl" if "in_time now cl" for now
    using ks_loader.verify_generated [of ?a cl "cf_kid C" now token] that i token by blast
  moreover have "cl_subject cl = uuid_string (u_id u)" "cl_roles cl = roles_to_string (u_roles u)"
    "cl_issuer cl = cf_issuer C"
    by (simp_all add: assms(5) token_claims_def)
  ultimately show ?thesis using token unfolding token_for_def by blast
qed

section \<open>Sign-up\<close>

lemma create_user_answers:
  assumes "cf_api C = userdb_store" "holds_users (wd_store (ap_world g)) us" "healthy (wd_store (ap_world g))"
    and "bcrypt_law (cf_env C)" "rand_law (cf_env C)" "issuer_ok C"
    and "should_bind_json (cf_text C) ''newUser'' new_user_fields new_user_rules new_user_zero (gx_request c) = Bound nr"
    and "to_bus_new_user (cf_text C) nr = Ok nu" "new_user_fits nu"
    and "\<forall>n. u_id (created_user (cf_env C) n nu) \<notin> u_id ` set us" "ma_address (nu_email nu) \<notin> addr ` set us"
  shows "\<exists>u token h. h_create_user C nx (c, g) =
      Done (gin_json StatusCreated (app_user_json ((to_app_user (cf_text C) u)\<lparr>us_token := token\<rparr>)) c, h) \<and>
    (\<exists>n. u = created_user (cf_env C) n nu) \<and> holds_users (wd_store (ap_world h)) (us @ [stored_user u]) \<and> token_for C u token"
proof -
  let ?u = "created_user (cf_env C) (reads (ap_world g)) nu"
  obtain w where w: "bus_create (cf_env C) userdb_store (ap_world g) nu = (Ok ?u, w)"
    "holds_users (wd_store w) (us @ [stored_user ?u])"
    using pg.bus_create_fresh [OF assms(2-5,9)] assms(10,11) by blast
  have "wf_roles (nu_roles nu)" using assms(9) by (simp add: new_user_fits_def)
  then have ty: "typed_user ?u" using created_user_typed [OF assms(5)] by blast
  let ?t1 = "now_at (cf_env C) (reads w)" and ?t2 = "now_at (cf_env C) (Suc (reads w))"
  obtain token where token: "generate_token (cf_auth C) (cf_kid C)
      (token_claims C (uuid_string (u_id ?u)) (roles_to_string (u_roles ?u)) ?t1 ?t2) = Ok token" "token_for C ?u token"
    using issued_token [OF assms(6) ty, of ?t1 ?t2] assms(6) by (auto simp: issuer_ok_def Let_def)
  have "us_id (to_app_user (cf_text C) ?u) = uuid_string (u_id ?u)"
    "us_roles (to_app_user (cf_text C) ?u) = roles_to_string (u_roles ?u)"
    by (simp_all add: to_app_user_def)
  then show ?thesis
    using token w assms(1,7,8)
    by (auto simp: h_create_user_def traced_simps Let_def put_world_def app_now_def time_now_def simp del: created_user_simps)
qed

lemma find_post_route:
  "find_route (main_engine C) ''POST'' ''/v1/users/'' =
     Some (\<lparr>rt_method = ''POST'', rt_path = ''/v1/users/'', rt_handlers = main_handlers C @ [h_create_user C]\<rparr>, [])"
  "find_route (main_engine C) ''POST'' ''/v1/users/login'' =
     Some (\<lparr>rt_method = ''POST'', rt_path = ''/v1/users/login'', rt_handlers = main_handlers C @ [h_authenticate C]\<rparr>, [])"
  "find_route (main_engine C) ''GET'' ''/v1/users/'' =
     Some (\<lparr>rt_method = ''GET'', rt_path = ''/v1/users/'', rt_handlers = main_handlers C @ [h_query C]\<rparr>, [])"
  by (simp_all add: find_route_def main_engine_simps user_routes_def)

text \<open>What an endpoint finds behind the stack.\<close>

definition query_value :: "request \<Rightarrow> string \<Rightarrow> string" where
  "query_value rq k = (case map_of (rq_query rq) k of Some (v # vs) \<Rightarrow> v | _ \<Rightarrow> [])"

lemma gin_query_value: "gin_query k c = query_value (gx_request c) k"
  by (simp add: gin_query_def query_value_def)

lemma fresh_view:
  assumes "view t = view (new_ctx rq ps p, g)"
  shows "wd_store (ap_world (snd t)) = wd_store (ap_world g)" "\<not> gx_written (fst t)" "gx_body (fst t) = []"
    "should_bind_json T n fs rules z (gx_request (fst t)) = should_bind_json T n fs rules z rq"
    "should_bind_query T (gx_request (fst t)) = should_bind_query T rq" "gin_query k (fst t) = query_value rq k"
proof -
  have "rq_body (gx_request (fst t)) = rq_body rq" "rq_query (gx_request (fst t)) = rq_query rq"
    using assms by (auto simp: view_def Let_def dest: arg_cong [where f = rq_body] arg_cong [where f = rq_query])
  then show "should_bind_json T n fs rules z (gx_request (fst t)) = should_bind_json T n fs rules z rq"
    "should_bind_query T (gx_request (fst t)) = should_bind_query T rq" "gin_query k (fst t) = query_value rq k"
    by (simp_all add: should_bind_json_def should_bind_query_def gin_query_value query_value_def)
qed (use assms in \<open>simp_all add: view_def Let_def\<close>)

text \<open>
  C34: What the binding of \<^verbatim>\<open>newUser\<close> lets through can be converted: the name has at least four runes,
  the address parses, there is at least one role and each is a known one, the department is one of
  three, the password has from 8 to 128 runes and is confirmed. So \<^verbatim>\<open>toBusNewUser\<close> does not fail after it.
\<close>

theorem bound_new_user_converts:
  assumes "should_bind_json T ''newUser'' new_user_fields new_user_rules new_user_zero rq = Bound nr"
  shows "4 \<le> rune_count (nr_name nr) \<and> email_regex T (nr_email nr) \<and>
    (\<exists>rs. nr_roles nr = Some rs \<and> rs \<noteq> [] \<and> set rs \<subseteq> {''admin'', ''user''}) \<and>
    nr_department nr \<in> {''sales'', ''shipping'', ''marketing''} \<and>
    8 \<le> rune_count (nr_password nr) \<and> rune_count (nr_password nr) \<le> 128 \<and>
    nr_password_confirm nr = nr_password nr \<and>
    (\<exists>nu. to_bus_new_user T nr = Ok nu \<and> nu_roles nu \<noteq> [] \<and> mail_parse T (nr_email nr) = Ok (nu_email nu))"
proof -
  have ok: "validate_struct T ''newUser'' (new_user_rules nr) = Errs []"
    using assms by (auto simp: should_bind_json_def bind_validated_ok split: sum.splits prod.splits option.splits)
  have dive: "check_tags T p ns alt (KSlice ss) ptr (TDive # ts) =
      check_elems T p ns alt 0 (case ss of None \<Rightarrow> [] | Some l \<Rightarrow> l) ts" for p ns alt ss ptr ts
    by simp
  note checks = validate_struct_def new_user_rules_def traverse_field_def run_check_def is_eq_field_def is_email_def
    slice_len_def check_tags_ok_Cons dive check_elems_ok check_elem_ok_Cons
  have f: "rune_count (nr_name nr) \<ge> 4" "email_regex T (nr_email nr) \<and> (\<exists>m. mail_parse T (nr_email nr) = Ok m)"
    "nr_department nr \<in> {''sales'', ''shipping'', ''marketing''}"
    "8 \<le> rune_count (nr_password nr)" "rune_count (nr_password nr) \<le> 128" "nr_password_confirm nr = nr_password nr"
    using ok by (auto simp: checks simp del: check_tags.simps(2) check_elem.simps(2) split: sum.splits)
  have r: "\<exists>rs. nr_roles nr = Some rs \<and> rs \<noteq> [] \<and> (\<forall>j < length rs. rs ! j \<in> {''admin'', ''user''})"
    using ok by (auto simp: checks simp del: check_tags.simps(2) check_elem.simps(2) split: option.splits)
  then obtain rs where rs: "nr_roles nr = Some rs" "rs \<noteq> []" "set rs \<subseteq> {''admin'', ''user''}"
    by (metis in_set_conv_nth subsetI)
  obtain m where m: "mail_parse T (nr_email nr) = Ok m" using f(2) by blast
  obtain roles where roles: "parse_many_roles rs = Ok roles" using rs(3) parse_many_roles_Ok_iff by blast
  then have "map role_value roles = rs" using parse_many_roles_wf by blast
  then have "roles \<noteq> []" using rs(2) by auto
  then have "\<exists>nu. to_bus_new_user T nr = Ok nu \<and> nu_roles nu \<noteq> [] \<and> mail_parse T (nr_email nr) = Ok (nu_email nu)"
    using roles rs(1) m by (simp add: to_bus_new_user_def)
  then show ?thesis using rs f by blast
qed

text \<open>
  C12: A client that posts a valid new user gets 201, the user and a token. The table then holds the user
  in addition to those it held, and the token is accepted, within its times, as one for that user with
  the roles of the request: nobody has to be authenticated, and the roles may include \<^verbatim>\<open>admin\<close>.
\<close>

theorem sign_up_creates_user:
  assumes "cf_api C = userdb_store" "holds_users (wd_store (ap_world g)) us" "healthy (wd_store (ap_world g))"
    and "bcrypt_law (cf_env C)" "rand_law (cf_env C)" "issuer_ok C"
    and "rq_method rq = ''POST''" "rq_path rq = ''/v1/users/''"
    and "should_bind_json (cf_text C) ''newUser'' new_user_fields new_user_rules new_user_zero rq = Bound nr"
    and "to_bus_new_user (cf_text C) nr = Ok nu" "new_user_fits nu"
    and "\<forall>n. u_id (created_user (cf_env C) n nu) \<notin> u_id ` set us" "ma_address (nu_email nu) \<notin> addr ` set us"
  shows "\<exists>c h n u token. handle_request C rq g = Served (Done (c, h)) \<and> gx_sent c = Some StatusCreated \<and>
    gx_body c = [app_user_json ((to_app_user (cf_text C) u)\<lparr>us_token := token\<rparr>)] \<and>
    u = created_user (cf_env C) n nu \<and> u_roles u = nu_roles nu \<and>
    holds_users (wd_store (ap_world h)) (us @ [stored_user u]) \<and> token_for C u token"
proof -
  let ?Q = "\<lambda>t. \<exists>n u token. gx_written (fst t) \<and> gx_sent (fst t) = Some StatusCreated \<and>
    gx_body (fst t) = [app_user_json ((to_app_user (cf_text C) u)\<lparr>us_token := token\<rparr>)] \<and>
    u = created_user (cf_env C) n nu \<and> holds_users (wd_store (ap_world (snd t))) (us @ [stored_user u]) \<and> token_for C u token"
  let ?s = "(new_ctx rq [] ''/v1/users/'', g)"
  have "\<exists>t. handle_request C rq g = Served (Done (write_header_now (fst t), snd t)) \<and> ?Q t"
  proof (rule single_route [where h = "h_create_user C" and ps = "[]"])
    show "find_route (main_engine C) (rq_method rq) (rq_path rq) = Some
        (\<lparr>rt_method = ''POST'', rt_path = ''/v1/users/'', rt_handlers = main_handlers C @ [h_create_user C]\<rparr>, [])"
      unfolding assms(7,8) by (rule find_post_route)
    show "?Q u" if "?Q t" "view u = view t" for t u
      using that by (simp add: view_def Let_def)
    fix nx and t :: "database st"
    assume t: "view t = view (new_ctx rq [] (rt_path \<lparr>rt_method = ''POST'', rt_path = ''/v1/users/'',
      rt_handlers = main_handlers C @ [h_create_user C]\<rparr>), g)" "gx_index (fst t) = 4"
    note v = fresh_view [OF t(1)]
    have b: "should_bind_json (cf_text C) ''newUser'' new_user_fields new_user_rules new_user_zero (gx_request (fst t)) = Bound nr"
      unfolding v(4) by (fact assms(9))
    show "\<exists>u. h_create_user C nx t = Done u \<and> gx_index (fst u) = 4 \<and> ?Q u"
      using create_user_answers [OF assms(1) assms(2,3) [folded v(1)] assms(4-6) b assms(10-13), of nx] t(2) v(2,3)
      by (auto simp: gin_json_fresh) blast
  qed simp
  then show ?thesis by (fastforce simp: write_header_now_def)
qed

section \<open>Log-in\<close>

lemma authenticate_answers:
  assumes "cf_api C = userdb_store" "holds_users (wd_store (ap_world g)) us" "healthy (wd_store (ap_world g))"
    and "issuer_ok C" "u \<in> set us" "addr u = ma_address m" "text_ok (ma_address m)"
    and "should_bind_json (cf_text C) ''authenticate'' authenticate_fields authenticate_rules authenticate_zero
      (gx_request c) = Bound d" "mail_parse (cf_text C) (ar_email d) = Ok m"
  shows "\<exists>h. holds_users (wd_store (ap_world h)) us \<and>
    (if bcrypt_compare (cf_env C) (u_password_hash u) (ar_password d) = None
     then \<exists>token. h_authenticate C nx (c, g) = Done (gin_json StatusOK (token_json token) c, h) \<and> token_for C u token
     else \<exists>e. h_authenticate C nx (c, g) = Done (gin_error e c, h))"
proof -
  obtain s where s: "bus_authenticate (cf_env C) userdb_store (ap_world g) m (ar_password d) =
      ((case bcrypt_compare (cf_env C) (u_password_hash u) (ar_password d) of
          None \<Rightarrow> Ok u | Some err \<Rightarrow> Err (ErrWrap ''compareHashAndPass'' err)), (ap_world g)\<lparr>wd_store := s\<rparr>)"
    "holds_users s us"
    using pg.bus_authenticate_up [OF assms(2,3,7,5,6)] by blast
  have ty: "typed_user u" using pg.rep_ok [OF assms(2)] assms(5) by (auto simp: users_ok_def list_all_iff)
  let ?t1 = "now_at (cf_env C) (reads (ap_world g))" and ?t2 = "now_at (cf_env C) (Suc (reads (ap_world g)))"
  obtain token where token: "generate_token (cf_auth C) (cf_kid C)
      (token_claims C (uuid_string (u_id u)) (roles_to_string (u_roles u)) ?t1 ?t2) = Ok token" "token_for C u token"
    using issued_token [OF assms(4) ty, of ?t1 ?t2] assms(4) by (auto simp: issuer_ok_def Let_def)
  show ?thesis
    using token s assms(1,8,9)
    by (cases "bcrypt_compare (cf_env C) (u_password_hash u) (ar_password d)")
      (force simp: h_authenticate_def traced_simps Let_def put_world_def app_now_def time_now_def fail_with_def)+
qed

text \<open>
  C13: A client that posts the address of a user and its password gets 200 and a token that is accepted,
  within its times, for that user with the roles that the table has, whether or not the user is enabled.
  With another password it gets no token; but the status is 200 all the same, with an empty body, since
  \<^verbatim>\<open>main.go\<close> does not install the middleware that reports errors.
\<close>

theorem log_in_issues_token:
  assumes "cf_api C = userdb_store" "holds_users (wd_store (ap_world g)) us" "healthy (wd_store (ap_world g))"
    and "issuer_ok C" "u \<in> set us" "addr u = ma_address m" "text_ok (ma_address m)"
    and "rq_method rq = ''POST''" "rq_path rq = ''/v1/users/login''"
    and "should_bind_json (cf_text C) ''authenticate'' authenticate_fields authenticate_rules authenticate_zero rq = Bound d"
    and "mail_parse (cf_text C) (ar_email d) = Ok m"
  shows "\<exists>c h. handle_request C rq g = Served (Done (c, h)) \<and> gx_sent c = Some StatusOK \<and>
    holds_users (wd_store (ap_world h)) us \<and>
    (if bcrypt_compare (cf_env C) (u_password_hash u) (ar_password d) = None
     then \<exists>token. gx_body c = [token_json token] \<and> token_for C u token else gx_body c = [])"
proof -
  let ?ok = "bcrypt_compare (cf_env C) (u_password_hash u) (ar_password d) = None"
  let ?Q = "\<lambda>t. holds_users (wd_store (ap_world (snd t))) us \<and>
    (if ?ok then gx_written (fst t) \<and> gx_sent (fst t) = Some StatusOK \<and>
       (\<exists>token. gx_body (fst t) = [token_json token] \<and> token_for C u token)
     else \<not> gx_written (fst t) \<and> gx_status (fst t) = StatusOK \<and> gx_body (fst t) = [])"
  have "\<exists>t. handle_request C rq g = Served (Done (write_header_now (fst t), snd t)) \<and> ?Q t"
  proof (rule single_route [where h = "h_authenticate C" and ps = "[]"])
    show "find_route (main_engine C) (rq_method rq) (rq_path rq) = Some
        (\<lparr>rt_method = ''POST'', rt_path = ''/v1/users/login'', rt_handlers = main_handlers C @ [h_authenticate C]\<rparr>, [])"
      unfolding assms(8,9) by (rule find_post_route)
    show "?Q u" if "?Q t" "view u = view t" for t u
      using that by (simp add: view_def Let_def)
    fix nx and t :: "database st"
    assume t: "view t = view (new_ctx rq [] (rt_path \<lparr>rt_method = ''POST'', rt_path = ''/v1/users/login'',
      rt_handlers = main_handlers C @ [h_authenticate C]\<rparr>), g)" "gx_index (fst t) = 4"
    note v = fresh_view [OF t(1)]
    have st: "gx_status (fst t) = StatusOK" using t(1) by (simp add: view_def Let_def)
    have b: "should_bind_json (cf_text C) ''authenticate'' authenticate_fields authenticate_rules authenticate_zero
        (gx_request (fst t)) = Bound d"
      unfolding v(4) by (fact assms(10))
    show "\<exists>u. h_authenticate C nx t = Done u \<and> gx_index (fst u) = 4 \<and> ?Q u"
      using authenticate_answers [OF assms(1) assms(2,3) [folded v(1)] assms(4-7) b assms(11), of nx] t(2) v(2,3) st
      by (cases ?ok) (auto simp: gin_json_fresh)
  qed simp
  then show ?thesis by (cases ?ok) (auto simp: write_header_now_def)
qed

section \<open>The list\<close>

lemma query_answers:
  assumes "cf_api C = userdb_store" "holds_users (wd_store (ap_world g)) us" "healthy (wd_store (ap_world g))"
    and "page_parse (gin_query ''page'' c) (gin_query ''rows'' c) = Ok p" "pg_rows p \<le> max_safe_rows"
    and "should_bind_query (cf_text C) (gx_request c) = Bound f" "to_bus_query_filter (cf_text C) f = Ok q" "filter_ok q"
    and "parse_order_by (gin_query ''order_by'' c) = Ok ord"
  shows "\<exists>h vs. h_query C nx (c, g) = Done (gin_json StatusOK (query_result_json (new_query_result
      (map (to_app_user (cf_text C)) (page_of p vs)) (spec_count q us) (pg_number p) (pg_rows p))) c, h) \<and>
    listing (collate (wd_store (ap_world g))) q ord us vs \<and> holds_users (wd_store (ap_world h)) us"
proof -
  obtain s vs where s: "bus_query userdb_store (ap_world g) q ord p = (Ok (page_of p vs), (ap_world g)\<lparr>wd_store := s\<rparr>)"
    "holds_users s us" "healthy s" "listing (collate (wd_store (ap_world g))) q ord us vs"
    using pg.bus_list_up [OF assms(2,3) parse_order_by_wf [OF assms(9)] page_parse_wf [OF assms(4)] assms(5,8)] by blast
  then obtain s' where "bus_count userdb_store ((ap_world g)\<lparr>wd_store := s\<rparr>) q =
      (Ok (spec_count q us), (ap_world g)\<lparr>wd_store := s'\<rparr>)" "holds_users s' us"
    using pg.bus_count_up [of "(ap_world g)\<lparr>wd_store := s\<rparr>" us q] assms(8) by auto
  then show ?thesis
    using s assms by (intro exI [of _ vs] exI) (auto simp: h_query_def traced_simps Let_def put_world_def)
qed

text \<open>
  C14: The list endpoint, for anybody and on a working connection: valid parameters give 200 and one JSON
  object with the page that was asked for of a list of the users that match the filter, each of them once and
  sorted by the field in its direction, and with the number of all users that match. Users with equal keys
  come in any order. Nothing of the table changes.
\<close>

theorem list_shows_page:
  assumes "cf_api C = userdb_store" "holds_users (wd_store (ap_world g)) us" "healthy (wd_store (ap_world g))"
    and "rq_method rq = ''GET''" "rq_path rq = ''/v1/users/''"
    and "page_parse (query_value rq ''page'') (query_value rq ''rows'') = Ok p"
    and "pg_rows p \<le> max_safe_rows" "should_bind_query (cf_text C) rq = Bound f"
    and "to_bus_query_filter (cf_text C) f = Ok q" "filter_ok q"
    and "parse_order_by (query_value rq ''order_by'') = Ok ord"
  shows "\<exists>c h vs. handle_request C rq g = Served (Done (c, h)) \<and> gx_sent c = Some StatusOK \<and>
    holds_users (wd_store (ap_world h)) us \<and>
    mset vs = mset (filter (user_matches q) us) \<and>
    (if of_dir ord = ''desc'' then sorted (rev (map (user_key (collate (wd_store (ap_world g))) (of_name ord)) vs))
     else sorted (map (user_key (collate (wd_store (ap_world g))) (of_name ord)) vs)) \<and>
    gx_body c = [query_result_json (new_query_result
      (map (to_app_user (cf_text C)) (take (nat (pg_rows p)) (drop (nat ((pg_number p - 1) * pg_rows p)) vs)))
      (int (length (filter (user_matches q) us))) (pg_number p) (pg_rows p))]"
proof -
  let ?j = "\<lambda>vs. query_result_json (new_query_result
      (map (to_app_user (cf_text C)) (page_of p vs)) (spec_count q us) (pg_number p) (pg_rows p))"
  let ?Q = "\<lambda>t. holds_users (wd_store (ap_world (snd t))) us \<and> gx_written (fst t) \<and>
    gx_sent (fst t) = Some StatusOK \<and>
    (\<exists>vs. listing (collate (wd_store (ap_world g))) q ord us vs \<and> gx_body (fst t) = [?j vs])"
  have "\<exists>t. handle_request C rq g = Served (Done (write_header_now (fst t), snd t)) \<and> ?Q t"
  proof (rule single_route [where h = "h_query C" and ps = "[]"])
    show "find_route (main_engine C) (rq_method rq) (rq_path rq) = Some
        (\<lparr>rt_method = ''GET'', rt_path = ''/v1/users/'', rt_handlers = main_handlers C @ [h_query C]\<rparr>, [])"
      unfolding assms(4,5) by (rule find_post_route)
    show "?Q u" if "?Q t" "view u = view t" for t u
      using that by (simp add: view_def Let_def)
    fix nx and t :: "database st"
    assume t: "view t = view (new_ctx rq [] (rt_path \<lparr>rt_method = ''GET'', rt_path = ''/v1/users/'',
      rt_handlers = main_handlers C @ [h_query C]\<rparr>), g)" "gx_index (fst t) = 4"
    note v = fresh_view [OF t(1), unfolded route.simps]
    have "\<exists>h vs. h_query C nx (fst t, snd t) = Done (gin_json StatusOK (?j vs) (fst t), h) \<and>
        listing (collate (wd_store (ap_world g))) q ord us vs \<and> holds_users (wd_store (ap_world h)) us"
      using query_answers [OF assms(1) assms(2,3) [folded v(1)] _ assms(7) _ assms(9,10), of "fst t" ord nx]
        assms(6,8,11) unfolding v by simp
    then show "\<exists>u. h_query C nx t = Done u \<and> gx_index (fst u) = 4 \<and> ?Q u"
      using t(2) v(2,3) by (auto simp: gin_json_fresh)
  qed simp
  then show ?thesis
    by (fastforce simp: write_header_now_def page_of_def spec_count_def listing_def sorted_by_def Let_def)
qed

section \<open>An example\<close>

lemma sample_issuer: "issuer_ok sample_config"
proof -
  have "1953125 * int (n mod 1000) < 9007199254740992" for n
  proof -
    have "int (n mod 1000) < 1000" by simp
    then show ?thesis by linarith
  qed
  then show ?thesis
    by (simp add: issuer_ok_def Let_def) (simp add: sample_config_def config_over_def sample_env_def sample_jwt_def abs_less_iff)
qed

definition carl_body :: json where
  "carl_body = JObj [(''name'', JStr ''Carl''), (''email'', JStr ''carl@x.io''), (''roles'', JArr [JStr ''user'']),
     (''department'', JStr ''sales''), (''password'', JStr ''password1''), (''passwordConfirm'', JStr ''password1'')]"

definition carl_req :: new_user_req where
  "carl_req = \<lparr>nr_name = ''Carl'', nr_email = ''carl@x.io'', nr_roles = Some [''user''], nr_department = ''sales'',
     nr_password = ''password1'', nr_password_confirm = ''password1''\<rparr>"

lemma carl_binds:
  "should_bind_json sample_text ''newUser'' new_user_fields new_user_rules new_user_zero
     (sample_request ''POST'' p (Ok carl_body)) = Bound carl_req"
  by (simp add: should_bind_json_def carl_body_def decode_struct_def new_user_fields_def dec_string_def
      dec_string_slice_def find_field_def new_user_zero_def bind_validated_ok carl_req_def)
   (code_simp)

lemma carl_converts: "to_bus_new_user sample_text carl_req = Ok carl"
  by (simp add: to_bus_new_user_def carl_req_def carl_def sample_text_def) (code_simp)

lemma carl_is_new: "u_id (created_user sample_env n carl) \<noteq> u_id ann"
proof -
  have "u_id (created_user sample_env n carl) ! 6 \<noteq> 0" "u_id ann ! 6 = 0"
    by (simp_all add: created_user_def sample_env_def ann_def sample_user_def uuid_from_random_def nth_append or_eq_0_iff)
  then show ?thesis by metis
qed

theorem sign_up_creates_user_witness:
  "\<exists>c h u token. handle_request sample_config (sample_request ''POST'' ''/v1/users/'' (Ok carl_body)) (sample_app [ann]) =
       Served (Done (c, h)) \<and> gx_sent c = Some StatusCreated \<and>
     holds_users (wd_store (ap_world h)) [ann, stored_user u] \<and> token_for sample_config u token"
  using sign_up_creates_user [of sample_config "sample_app [ann]" "[ann]"
      "sample_request ''POST'' ''/v1/users/'' (Ok carl_body)" carl_req carl]
    sample_issuer carl_binds carl_converts carl_is_new
  by fastforce

text \<open>A user whose password is known.\<close>

definition dora :: user where
  "dora = ann\<lparr>u_password_hash := sample_hash ''password1''\<rparr>"

lemma dora_ok [simp]: "users_ok [dora]" "addr dora = ''ann@x.io''" "u_password_hash dora = sample_hash ''password1''"
proof -
  have "typed_user dora" using sample_typed(1) by (simp add: dora_def typed_user_def)
  moreover have "fits dora"
    using sample_fits(1) sample_hash_text by (simp add: dora_def fits_def addr_def)
  moreover have "stored_user dora = dora"
    using sample_stored(1) by (simp add: dora_def stored_user_def ann_def sample_user_def)
  ultimately show "users_ok [dora]" by (simp add: users_ok_def)
qed (simp_all add: dora_def addr_def ann_def sample_user_def)

definition log_in_body :: "string \<Rightarrow> json" where
  "log_in_body p = JObj [(''email'', JStr ''ann@x.io''), (''password'', JStr p), (''passwordConfirm'', JStr p)]"

lemma log_in_binds:
  "should_bind_json sample_text ''authenticate'' authenticate_fields authenticate_rules authenticate_zero
     (sample_request ''POST'' p (Ok (log_in_body ''password1''))) =
   Bound \<lparr>ar_email = ''ann@x.io'', ar_password = ''password1'', ar_password_confirm = ''password1''\<rparr>"
  by (simp add: should_bind_json_def log_in_body_def decode_struct_def authenticate_fields_def dec_string_def
      find_field_def authenticate_zero_def bind_validated_ok) (code_simp)

theorem log_in_issues_token_witness:
  "\<exists>c h token. handle_request sample_config (sample_request ''POST'' ''/v1/users/login'' (Ok (log_in_body ''password1'')))
       (sample_app [dora]) = Served (Done (c, h)) \<and> gx_body c = [token_json token] \<and> token_for sample_config dora token"
proof -
  have m: "mail_parse (cf_text sample_config) ''ann@x.io'' = Ok \<lparr>ma_name = [], ma_address = ''ann@x.io''\<rparr>"
    by (simp add: sample_text_def)
  have ok: "bcrypt_compare (cf_env sample_config) (u_password_hash dora) ''password1'' = None"
    by (simp add: sample_env_def)
  show ?thesis
    using log_in_issues_token [of sample_config "sample_app [dora]" "[dora]" dora "\<lparr>ma_name = [], ma_address = ''ann@x.io''\<rparr>"
        "sample_request ''POST'' ''/v1/users/login'' (Ok (log_in_body ''password1''))"
        "\<lparr>ar_email = ''ann@x.io'', ar_password = ''password1'', ar_password_confirm = ''password1''\<rparr>"]
      sample_issuer log_in_binds m ok
    by (fastforce simp: text_ok_ascii)
qed

theorem list_shows_page_witness:
  "\<exists>c h. handle_request sample_config
       ((sample_request ''GET'' ''/v1/users/'' (Ok JNull))
         \<lparr>rq_query := [(''page'', [''1'']), (''rows'', [''10'']), (''order_by'', [''name''])]\<rparr>)
       (sample_app [ann]) = Served (Done (c, h)) \<and> gx_sent c = Some StatusOK"
proof -
  let ?rq = "(sample_request ''GET'' ''/v1/users/'' (Ok JNull))
    \<lparr>rq_query := [(''page'', [''1'']), (''rows'', [''10'']), (''order_by'', [''name''])]\<rparr>"
  have p: "page_parse ''1'' ''10'' = Ok \<lparr>pg_number = 1, pg_rows = 10\<rparr>" by code_simp
  have o: "parse_order_by ''name'' = Ok \<lparr>of_name = ''name'', of_dir = ''asc''\<rparr>" by code_simp
  let ?f = "\<lparr>fl_name = None, fl_department = None, fl_roles = None, fl_start_created_at = None, fl_end_created_at = None\<rparr>"
  have b: "should_bind_query sample_text ?rq = Bound ?f"
    by (simp add: should_bind_query_def form_filters_def form_string_def bind_validated_ok) (code_simp)
  have c: "to_bus_query_filter sample_text ?f = Ok all_users"
    by (simp add: to_bus_query_filter_def empty_filter_def all_users_def)
  show ?thesis
    using list_shows_page [of sample_config "sample_app [ann]" "[ann]" ?rq "\<lparr>pg_number = 1, pg_rows = 10\<rparr>" ?f all_users
        "\<lparr>of_name = ''name'', of_dir = ''asc''\<rparr>"] p o b c
    by (auto simp: query_value_def max_safe_rows_def)
qed

theorem bound_new_user_converts_witness:
  "\<exists>nu. to_bus_new_user sample_text carl_req = Ok nu \<and> nu_roles nu \<noteq> []"
  using bound_new_user_converts [OF carl_binds [of "[]"]] by blast

end
