(* ===== verification/EndpointProperties.thy ===== *)
theory EndpointProperties
  imports Samples
begin

text \<open>
  The properties of the endpoints and of the middlewares taken one by one, as they behave behind an
  authentication that has put the caller into the context.
\<close>

section \<open>Errors for the client\<close>

text \<open>An endpoint that reports an error with a status changes nothing of the context but its errors.\<close>

definition reports :: "int \<Rightarrow> ctx_val gin_ctx \<Rightarrow> ctx_val gin_ctx \<Rightarrow> bool" where
  "reports code c c' \<longleftrightarrow> (\<exists>e a. c' = gin_error e c \<and> as_app e = Some a \<and> er_code a = code)"

lemma reports_new [simp]: "reports code c (gin_error (errs_new site n m) c) \<longleftrightarrow> n = code"
proof -
  have "e = errs_new site n m" if "gin_error (errs_new site n m) c = gin_error e c" for e
    using arg_cong [OF that, of gx_errors] by simp
  then show ?thesis by (fastforce simp: reports_def)
qed

lemma fail_with_Done [simp]:
  "fail_with site code msg (c, g) = Done (gin_error (errs_new site code msg) c, g)"
  "unauthorized site (c, g) = Done (gin_error (errs_new site StatusUnauthorized (status_text StatusUnauthorized)) c, g)"
  by (simp_all add: fail_with_def unauthorized_def)

text \<open>The state at the end, of a panic too.\<close>

fun final_state :: "'st outcome \<Rightarrow> 'st option" where
  "final_state (Done s) = Some s"
| "final_state (Panicked p s) = Some s"
| "final_state Exhausted = None"

lemma find_id:
  assumes "distinct (map u_id us)" "t \<in> set us"
  shows "find (\<lambda>u. u_id u = u_id t) us = Some t"
  using assms by (intro find_distinct) simp_all

lemma find_no_id: "i \<notin> u_id ` set us \<Longrightarrow> find (\<lambda>u. u_id u = i) us = None"
  by (auto simp: find_None_iff)

section \<open>DeleteUser\<close>

text \<open>
  C17: Behind the authentication, and on a working connection, \<^verbatim>\<open>DeleteUser\<close> removes the user that the
  path names and no other, exactly when the caller is that user or an administrator; another caller is
  refused with 401, a user that is not there gives 404, and then nothing changes.
\<close>

theorem delete_only_self_or_admin:
  assumes "cf_api C = userdb_store" "holds_users (wd_store (ap_world g)) us" "healthy (wd_store (ap_world g))"
    and "gin_get ''user'' c = Some (KUser caller)" "uuid_parse (gin_param ''id'' c) = Ok i"
  shows "\<exists>c' h. h_delete_user C nx (c, g) = Done (c', h) \<and>
    (if i \<noteq> u_id caller \<and> role_admin \<notin> set (u_roles caller)
     then reports StatusUnauthorized c c' \<and> holds_users (wd_store (ap_world h)) us
     else if i \<in> u_id ` set us
     then c' = gin_status StatusNoContent c \<and> holds_users (wd_store (ap_world h)) (filter (\<lambda>u. u_id u \<noteq> i) us)
     else reports StatusNotFound c c' \<and> holds_users (wd_store (ap_world h)) us)"
proof (cases "i \<noteq> u_id caller \<and> role_admin \<notin> set (u_roles caller)")
  case True
  then show ?thesis using assms by (simp add: h_delete_user_def traced_simps is_admin_def)
next
  case False
  have wf: "wf_uuid i" using uuid_parse_wf [OF assms(5)] .
  have ok: "users_ok us" using pg.rep_ok [OF assms(2)] .
  obtain d where d: "bus_query_by_id userdb_store (ap_world g) i =
      ((case find (\<lambda>u. u_id u = i) us of
          None \<Rightarrow> Err (ErrWrap ''queryByID'' ErrUserNotFound) | Some u \<Rightarrow> Ok u), (ap_world g)\<lparr>wd_store := d\<rparr>)"
    "holds_users d us" "healthy d"
    using pg.bus_by_id_up [OF assms(2,3) wf] by auto
  show ?thesis
  proof (cases "i \<in> u_id ` set us")
    case True
    then obtain t where t: "t \<in> set us" "u_id t = i" by auto
    then have "find (\<lambda>u. u_id u = i) us = Some t"
      using ok find_id [of us t] by (simp add: users_ok_def)
    moreover have "typed_user t" "fits t" using ok t(1) by (auto simp: users_ok_def list_all_iff)
    note del = pg.delete_up [OF d(2,3) this]
    ultimately show ?thesis
      using assms False True t(2) d(1) del
      by (auto simp: h_delete_user_def traced_simps is_admin_def bus_delete_def spec_delete_def put_world_def)
  next
    case none: False
    then show ?thesis
      using assms False d by (auto simp: h_delete_user_def traced_simps is_admin_def find_no_id put_world_def)
  qed
qed


theorem delete_only_self_or_admin_witness:
  "\<exists>c' h. h_delete_user sample_config Done (sample_ctx ann (u_id bob) JNull, sample_app [ann, bob]) = Done (c', h) \<and>
     holds_users (wd_store (ap_world h)) [ann]"
  using delete_only_self_or_admin [of sample_config "sample_app [ann, bob]" "[ann, bob]"
      "sample_ctx ann (u_id bob) JNull" ann "u_id bob" Done]
  by auto

text \<open>
  C19: \<^verbatim>\<open>UpdateRole\<close> never updates a role. Whatever the caller, the path and the body, the endpoint either
  records an error or panics, because the validator's \<^verbatim>\<open>oneof\<close> cannot check a list: it panics for every
  list of roles an administrator sends, the empty one included. Nothing of the state changes but that the span of the endpoint is ended.
\<close>

theorem update_role_never_updates:
  "(\<exists>e. h_update_role C nx (c, g) = Done (end_span (span_of ''user.handler.updateRole'') (gin_error e c, g))) \<or>
   h_update_role C nx (c, g) =
     Panicked (PString ''Bad field type []string'') (end_span (span_of ''user.handler.updateRole'') (c, g))"
proof -
  have b: "(\<exists>e. should_bind_json T n fs update_roles_rules z rq = BindErr e) \<or>
      should_bind_json T n fs update_roles_rules z rq = BindPanic ''Bad field type []string''" for T n fs z rq
  proof -
    have "(\<exists>e. bind_validated T n update_roles_rules r = BindErr e) \<or>
        bind_validated T n update_roles_rules r = BindPanic ''Bad field type []string''" for r
      by (cases "rr_roles r")
        (simp_all add: bind_validated_def update_roles_rules_def validate_struct_def traverse_field_def
          run_check_def bad_type_def of_bool_def verdict_seq_def)
    then show ?thesis by (auto simp: should_bind_json_def split: sum.split prod.split option.split)
  qed
  show ?thesis
    using b [of "cf_text C" "''updateUserRoles''" update_roles_fields update_roles_zero "gx_request c"]
    by (auto simp: h_update_role_def traced_def Let_def split: option.split ctx_val.split sum.split)
qed

text \<open>
  C20: \<^verbatim>\<open>DisableUser\<close> never disables a user. On any connection the table holds the same users
  afterwards: the endpoint records an error or panics. On a working connection it panics for every caller
  with the right to disable a user that is there, on the missing address of the update that it builds.
\<close>

theorem disable_user_never_disables:
  assumes "cf_api C = userdb_store" "holds_users (wd_store (ap_world g)) us"
  shows "(\<exists>h. holds_users (wd_store (ap_world h)) us \<and>
      ((\<exists>e. h_disable_user C nx (c, g) = Done (gin_error e c, h)) \<or>
       h_disable_user C nx (c, g) = Panicked (PRuntime nil_deref) (c, h))) \<and>
    (\<forall>a i. healthy (wd_store (ap_world g)) \<and> gin_get ''user'' c = Some (KUser a) \<and>
       (i = u_id a \<or> role_admin \<in> set (u_roles a)) \<and> uuid_parse (gin_param ''id'' c) = Ok i \<and> i \<in> u_id ` set us \<longrightarrow>
       (\<exists>h. h_disable_user C nx (c, g) = Panicked (PRuntime nil_deref) (c, h)))"
proof (intro conjI allI impI; (elim conjE)?)
  show "\<exists>h. holds_users (wd_store (ap_world h)) us \<and>
      ((\<exists>e. h_disable_user C nx (c, g) = Done (gin_error e c, h)) \<or>
       h_disable_user C nx (c, g) = Panicked (PRuntime nil_deref) (c, h))"
  proof (cases "uuid_parse (gin_param ''id'' c)")
    case (Inr i)
    obtain r w where q: "bus_query_by_id userdb_store (ap_world g) i = (r, w)" by fastforce
    then have w: "holds_users (wd_store w) us" using pg.bus_by_id_any [OF assms(2) q] by blast
    show ?thesis
      using Inr q w assms
      by (cases r)
        (auto simp: h_disable_user_def traced_simps Let_def put_world_def to_bus_update_user_def update_user_zero_def
          split: option.split ctx_val.split)
  qed (use assms in \<open>auto simp: h_disable_user_def traced_simps Let_def\<close>)
next
  fix a i
  assume a: "healthy (wd_store (ap_world g))" "gin_get ''user'' c = Some (KUser a)"
    "i = u_id a \<or> role_admin \<in> set (u_roles a)" "uuid_parse (gin_param ''id'' c) = Ok i" "i \<in> u_id ` set us"
  then obtain t where t: "t \<in> set us" "u_id t = i" by auto
  have "find (\<lambda>u. u_id u = i) us = Some t"
    using pg.rep_ok [OF assms(2)] find_id [OF _ t(1)] t(2) by (simp add: users_ok_def)
  then show "\<exists>h. h_disable_user C nx (c, g) = Panicked (PRuntime nil_deref) (c, h)"
    using pg.bus_by_id_up [OF assms(2) a(1) uuid_parse_wf [OF a(4)]] a assms(1)
    by (auto simp: h_disable_user_def traced_simps Let_def is_admin_def put_world_def to_bus_update_user_def update_user_zero_def)
qed

theorem disable_user_never_disables_witness:
  "\<exists>h. h_disable_user sample_config Done (sample_ctx ann (u_id bob) JNull, sample_app [ann, bob]) =
     Panicked (PRuntime nil_deref) (sample_ctx ann (u_id bob) JNull, h)"
  using disable_user_never_disables [of sample_config "sample_app [ann, bob]" "[ann, bob]" Done
      "sample_ctx ann (u_id bob) JNull"]
  by auto

text \<open>
  C18: \<^verbatim>\<open>UpdateUser\<close> reaches no user but the caller and nobody's roles: on any connection and for any
  body, the table holds the same users afterwards, or the caller's row alone has changed and kept its id,
  its roles and its creation time. A path that names another user changes nothing.
\<close>

theorem update_user_only_self:
  assumes "cf_api C = userdb_store" "holds_users (wd_store (ap_world g)) us"
    and "gin_get ''user'' c = Some (KUser caller)" "caller \<in> set us"
  shows "\<exists>c' h us'. final_state (h_update_user C nx (c, g)) = Some (c', h) \<and>
    holds_users (wd_store (ap_world h)) us' \<and>
    (uuid_parse (gin_param ''id'' c) \<noteq> Ok (u_id caller) \<longrightarrow> us' = us) \<and>
    list_all2 (\<lambda>u v. u_id v = u_id u \<and> u_roles v = u_roles u \<and> u_created_at v = u_created_at u \<and>
      (u_id u \<noteq> u_id caller \<longrightarrow> v = u)) us us'"
proof -
  let ?same = "\<lambda>u v. u_id v = u_id u \<and> u_roles v = u_roles u \<and> u_created_at v = u_created_at u \<and>
      (u_id u \<noteq> u_id caller \<longrightarrow> v = u)"
  have ok: "users_ok us" using pg.rep_ok [OF assms(2)] .
  have refl: "list_all2 ?same us us" by (simp add: list.rel_refl)
  have upd: "\<exists>us'. holds_users (wd_store w) us' \<and> list_all2 ?same us us'"
    if conv: "to_bus_update_user (cf_text C) uu = Conv upd"
      and r: "bus_update (cf_env C) userdb_store (ap_world g) caller upd = (r, w)" for uu upd r w
  proof -
    let ?u = "final_update (cf_env C) (reads (ap_world g)) upd caller"
    have roles: "uu_roles upd = None" using conv_roles(1) [OF conv] .
    have "typed_user ?u"
      using ok assms(4) roles by (auto simp: users_ok_def list_all_iff typed_user_def final_update_def)
    then obtain us' where us': "us' \<in> {us, updated_users us ?u}" "holds_users (wd_store w) us'"
      using pg.bus_update_any [OF assms(2), of "cf_env C" upd caller] r by fastforce
    have "u_roles u = u_roles caller" if "u \<in> set us" "u_id u = u_id caller" for u
      using ok assms(4) that by (auto simp: users_ok_def distinct_map dest: inj_onD)
    then have roles_at: "u_roles (us ! i) = u_roles caller" if "i < length us" "u_id (us ! i) = u_id caller" for i
      using that by simp
    have "list_all2 ?same us (updated_users us ?u)"
      using roles roles_at
      by (auto simp: updated_users_def list_all2_conv_all_nth final_update_def stored_user_def)
    then show ?thesis using us' refl by auto
  qed
  show ?thesis
    using assms(1-3) refl upd
    by (auto simp: h_update_user_def traced_simps Let_def put_world_def split: sum.split bound.split conv.split prod.split)
qed

theorem update_user_only_self_witness:
  "\<exists>c' h. final_state (h_update_user sample_config Done (sample_ctx ann (u_id bob) JNull, sample_app [ann, bob])) =
       Some (c', h) \<and> holds_users (wd_store (ap_world h)) [ann, bob]"
  using update_user_only_self [of sample_config "sample_app [ann, bob]" "[ann, bob]" "sample_ctx ann (u_id bob) JNull" ann Done]
  by simp

section \<open>The authentication\<close>

lemma mid_authenticate_outcome:
  assumes "cf_api C = userdb_store" "holds_users (wd_store (ap_world g)) us"
  shows "(\<exists>cl u h. verify_token (cf_auth C) (fst (app_now C g)) (header_get (gx_request c) ''Authorization'') = Ok cl \<and>
      uuid_parse (cl_subject cl) = Ok (u_id u) \<and> u \<in> set us \<and> u_enabled u \<and> holds_users (wd_store (ap_world h)) us \<and>
      mid_authenticate C nx (c, g) = nx (gin_set ''user'' (KUser u) (gin_set ''claims'' (KClaims cl) c), h)) \<or>
    (\<exists>code \<in> {StatusUnauthorized, StatusInternalServerError}. \<exists>msg h.
      mid_authenticate C nx (c, g) = deny code msg (c, h) \<and> holds_users (wd_store (ap_world h)) us)"
    (is "?served \<or> ?denied")
proof -
  let ?r = "mid_authenticate C nx (c, g)"
  obtain now g1 where now: "app_now C g = (now, g1)" by fastforce
  then have rep1: "holds_users (wd_store (ap_world g1)) us"
    using assms(2) by (auto simp: app_now_def time_now_def split: prod.splits)
  have deny: "?served \<or> ?denied"
    if "?r = deny code msg (c, h)" "code \<in> {StatusUnauthorized, StatusInternalServerError}"
      "holds_users (wd_store (ap_world h)) us" for code msg h
    using that by blast
  show ?thesis
  proof (cases "verify_token (cf_auth C) now (header_get (gx_request c) ''Authorization'')")
    case (Inr cl)
    show ?thesis
    proof (cases "cl_subject cl = [] \<or> (\<exists>e. uuid_parse (cl_subject cl) = Err e)")
      case True
      have "\<exists>msg. ?r = deny StatusUnauthorized msg (c, g1)"
        using True Inr by (auto simp: mid_authenticate_def now)
      then show ?thesis using deny rep1 by blast
    next
      case False
      then obtain i where i: "uuid_parse (cl_subject cl) = Ok i" "cl_subject cl \<noteq> []"
        by (cases "uuid_parse (cl_subject cl)") auto
      obtain r w where q: "bus_query_by_id userdb_store (ap_world g1) i = (r, w)" by fastforce
      have w: "holds_users (wd_store w) us" "\<And>u. r = Ok u \<Longrightarrow> u \<in> set us \<and> u_id u = i"
        using pg.bus_by_id_any [OF rep1 q] uuid_parse_wf [OF i(1)] by auto
      note eqs = mid_authenticate_def now Inr i q assms(1) Let_def app_log_def
      show ?thesis
      proof (cases "\<exists>u. r = Ok u \<and> u_enabled u")
        case True
        then obtain u where u: "r = Ok u" "u_enabled u" by blast
        have "?r = nx (gin_set ''user'' (KUser u) (gin_set ''claims'' (KClaims cl) c), g1\<lparr>ap_world := w\<rparr>)"
          using u by (simp add: eqs)
        moreover have "holds_users (wd_store (ap_world (g1\<lparr>ap_world := w\<rparr>))) us" using w(1) by simp
        ultimately show ?thesis using u w(2) i(1) Inr now by (metis fst_conv)
      next
        case False
        let ?h = "g1\<lparr>ap_world := w\<rparr>"
        let ?l = "app_log log_error C c ''queryByID'' [LStr ''error'', LStr (err_msg (projl r))] ?h"
        have rep: "holds_users (wd_store (ap_world ?h)) us" "holds_users (wd_store (ap_world ?l)) us"
          using w(1) by (simp_all add: app_log_def)
        from False have "?r \<in> {deny StatusUnauthorized (status_text StatusUnauthorized) (c, ?h),
            deny StatusInternalServerError (status_text StatusInternalServerError) (c, ?l),
            deny StatusUnauthorized ''user is disabled'' (c, ?h)}"
          by (cases r) (auto simp: eqs)
        then show ?thesis using deny rep by blast
      qed
    qed
  next
    case (Inl e)
    then have "?r = deny StatusUnauthorized (err_msg e) (c, g1)" by (simp add: mid_authenticate_def now)
    then show ?thesis using deny rep1 by blast
  qed
qed

lemma mid_authorized_outcome:
  "mid_authorized C roles nx (gin_set ''user'' v (gin_set ''claims'' (KClaims cl) c), h) =
     (if set (cl_roles cl) \<inter> set roles \<noteq> {} then nx (gin_set ''user'' v (gin_set ''claims'' (KClaims cl) c), h)
      else deny StatusUnauthorized (status_text StatusUnauthorized) (gin_set ''user'' v (gin_set ''claims'' (KClaims cl) c), h))"
  using authorized_iff [of "cl_roles cl" roles]
  by (auto simp: mid_authorized_def gin_get_def gin_set_def split: option.split)

text \<open>
  C9: What is behind \<^verbatim>\<open>Authenticate\<close> and \<^verbatim>\<open>Authorized\<close> runs only for a request whose token is signed
  with a private key of the store and is within its times, names a user of the table that is enabled,
  and whose claims have one of the wanted roles; it finds that user and those claims in the context.
  Every other request is denied with 401 or 500 and the chain is aborted. The roles that count are those of the token, not of the table.
\<close>

theorem guarded_handler_is_safe:
  assumes "cf_api C = userdb_store" "au_keys (cf_auth C) = keystore_api"
    and "wf_keys (jw_crypto (au_env (cf_auth C))) (au_state (cf_auth C))" "rsa_law (au_env (cf_auth C))"
    and "holds_users (wd_store (ap_world g)) us"
  shows "(\<exists>token cl u h. header_get (gx_request c) ''Authorization'' = ''Bearer '' @ token \<and>
      signed_token (cf_auth C) cl token \<and> in_time (fst (app_now C g)) cl \<and>
      uuid_parse (cl_subject cl) = Ok (u_id u) \<and> u \<in> set us \<and> u_enabled u \<and> set (cl_roles cl) \<inter> set roles \<noteq> {} \<and>
      holds_users (wd_store (ap_world h)) us \<and>
      mid_authenticate C (mid_authorized C roles nx) (c, g) =
        nx (gin_set ''user'' (KUser u) (gin_set ''claims'' (KClaims cl) c), h)) \<or>
    (\<exists>code \<in> {StatusUnauthorized, StatusInternalServerError}. \<exists>msg k h.
      mid_authenticate C (mid_authorized C roles nx) (c, g) = deny code msg (k, h) \<and>
      gx_written k = gx_written c \<and> gx_body k = gx_body c \<and> holds_users (wd_store (ap_world h)) us)"
proof -
  let ?r = "mid_authenticate C (mid_authorized C roles nx) (c, g)"
  consider (denied) code msg h where "code \<in> {StatusUnauthorized, StatusInternalServerError}" "?r = deny code msg (c, h)"
      "holds_users (wd_store (ap_world h)) us"
    | (known) cl u h where "verify_token (cf_auth C) (fst (app_now C g)) (header_get (gx_request c) ''Authorization'') = Ok cl"
      "uuid_parse (cl_subject cl) = Ok (u_id u)" "u \<in> set us" "u_enabled u" "holds_users (wd_store (ap_world h)) us"
      "?r = mid_authorized C roles nx (gin_set ''user'' (KUser u) (gin_set ''claims'' (KClaims cl) c), h)"
    using mid_authenticate_outcome [OF assms(1,5), of c "mid_authorized C roles nx"] by blast
  then show ?thesis
  proof cases
    case denied
    then show ?thesis by blast
  next
    case known
    then obtain token where "header_get (gx_request c) ''Authorization'' = ''Bearer '' @ token"
      "signed_token (cf_auth C) cl token" "in_time (fst (app_now C g)) cl"
      using ks_loader.verify_sound [OF assms(2-4)] by blast
    moreover have "gx_written (gin_set ''user'' (KUser u) (gin_set ''claims'' (KClaims cl) c)) = gx_written c"
      "gx_body (gin_set ''user'' (KUser u) (gin_set ''claims'' (KClaims cl) c)) = gx_body c"
      by (simp_all add: gin_set_def)
    ultimately show ?thesis
      using known unfolding mid_authorized_outcome
      by (cases "set (cl_roles cl) \<inter> set roles = {}") (simp_all only: if_True if_False simp_thms, blast+)
  qed
qed

theorem guarded_handler_is_safe_witness:
  "\<exists>c token cl u h. header_get (gx_request c) ''Authorization'' = ''Bearer '' @ token \<and> signed_token sample_auth cl token \<and>
     u_enabled u \<and> ''user'' \<in> set (cl_roles cl) \<and>
     mid_authenticate sample_config (mid_authorized sample_config [''user''] Done) (c, sample_app [ann]) =
       Done (gin_set ''user'' (KUser u) (gin_set ''claims'' (KClaims cl) c), h)"
proof -
  obtain token where t: "verify_token sample_auth 7000000000 (''Bearer '' @ token) = Ok sample_claims"
    using sample_token_ok [OF sample_claims_ok(3)] by blast
  define c :: "ctx_val gin_ctx" where
    "c = new_ctx ((sample_request ''GET'' [] (Ok JNull))\<lparr>rq_headers := [(''Authorization'', ''Bearer '' @ token)]\<rparr>) [] []"
  have hdr: "header_get (gx_request c) ''Authorization'' = ''Bearer '' @ token"
    by (simp add: c_def header_get_def)
  let ?r = "mid_authenticate sample_config (mid_authorized sample_config [''user''] Done) (c, sample_app [ann])"
  let ?g = "(sample_app [ann])\<lparr>ap_world := (sample_world [ann])\<lparr>reads := 8\<rparr>\<rparr>"
  have now: "app_now sample_config (sample_app [ann]) = (7000000000, ?g)"
    by (simp add: app_now_def time_now_def sample_env_def)
  obtain d where "bus_query_by_id userdb_store (ap_world ?g) (u_id ann) = (Ok ann, (ap_world ?g)\<lparr>wd_store := d\<rparr>)"
    using pg.bus_by_id_up [of "ap_world ?g" "[ann]" "u_id ann"] sample_typed(1) by (auto simp: typed_user_def)
  moreover have "uuid_string (u_id ann) \<noteq> []" using sample_typed(1) uuid_string_nonempty by (simp add: typed_user_def)
  moreover have "verify_token sample_auth 7000000000 (header_get (gx_request c) ''Authorization'') = Ok sample_claims"
    unfolding hdr by (fact t)
  moreover have "u_enabled ann" by (simp add: ann_def sample_user_def)
  moreover have "cl_subject sample_claims = uuid_string (u_id ann)" "cl_roles sample_claims = [''user'']"
    by (simp_all add: sample_claims_def no_claims_def)
  ultimately have "\<exists>h. ?r = Done (gin_set ''user'' (KUser ann) (gin_set ''claims'' (KClaims sample_claims) c), h)"
    unfolding mid_authenticate_def
    by (simp add: now mid_authorized_def gin_get_def gin_set_def)
  then obtain h' where r: "?r = Done (gin_set ''user'' (KUser ann) (gin_set ''claims'' (KClaims sample_claims) c), h')"
    by blast
  have "gx_index c = - 1" by (simp add: c_def)
  then have served: "?r \<noteq> deny code msg (k, h)" for code msg k h
    unfolding r by (auto simp: deny_def dest: arg_cong [where f = gx_index])
  show ?thesis
    using guarded_handler_is_safe [of sample_config "sample_app [ann]" "[ann]" c "[''user'']" Done] served
    by (simp del: append.simps) blast
qed

section \<open>Panics\<close>

text \<open>
  No panic gets past \<^verbatim>\<open>mid.Panic\<close>: the chain is aborted, an answer that has not been started becomes
  500 with a fixed text (one that has been started keeps its status), the panic is counted when the
  metrics are in the context, and the table is left as it is. What panicked and its stack are only in the
  record that is logged.
\<close>

lemma panic_is_contained:
  assumes "nx s = Panicked p (c, g)"
  shows "\<exists>c' h. mid_panic C nx s = Done (c', h) \<and> gx_index c' = abort_index \<and> ap_world h = ap_world g \<and>
    gx_body c' = gx_body c @ [gin_H (status_text StatusInternalServerError)] \<and>
    gx_sent c' = (if gx_written c then gx_sent c else Some StatusInternalServerError) \<and>
    me_panics (ap_metrics h) =
      (if gin_get ''metrics'' c = None then me_panics (ap_metrics g) else wrap64 (me_panics (ap_metrics g) + 1)) \<and>
    ap_log h = log_error (cf_log C)
      \<lparr>lc_trace = rq_trace (gx_request c), lc_runtime = cf_runtime C, lc_stack = cf_frames C ''PANIC''\<rparr>
      ''PANIC'' [panic_arg p, LStr ''STACK'', LStr (cf_stack C p)] (ap_log g)"
  using assms
  by (cases "gx_written c")
    (auto simp: mid_panic_cases recovered_def gin_json_fresh gin_json_late app_log_def add_panic_def Let_def
      gin_abort_def split: option.split)

lemma panic_is_contained_witness:
  "\<exists>c' h. mid_panic sample_config (\<lambda>t. Panicked (PRuntime nil_deref) t)
       (gin_set ''metrics'' KMetrics (new_ctx (sample_request ''GET'' [] (Ok JNull)) [] []), sample_app [ann]) = Done (c', h) \<and>
     gx_sent c' = Some StatusInternalServerError \<and> me_panics (ap_metrics h) = 1"
proof -
  have "wrap64 1 = 1" by (rule wrap64_id) (simp add: in_int64_def)
  then show ?thesis
    using panic_is_contained [of "\<lambda>t. Panicked (PRuntime nil_deref) t"
        "(gin_set ''metrics'' KMetrics (new_ctx (sample_request ''GET'' [] (Ok JNull)) [] []), sample_app [ann])" _ _ _ sample_config, OF refl]
    by (auto simp: metrics_new_def gin_get_def gin_set_def)
qed

end
