(* ===== verification/Connection.thy ===== *)
theory Connection
  imports GoErrors Users
begin

text \<open>
  \<^verbatim>\<open>internal/sqldb/sqldb.go\<close>: the URL that \<^verbatim>\<open>Open\<close> builds from its configuration, with the escaping of
  \<^verbatim>\<open>net/url\<close>, and \<^verbatim>\<open>ConnCheck\<close>, which pings until the database answers or the context is done. What
  the driver does (opening, pings and how long they take, the query) is a parameter.
\<close>

section \<open>net/url\<close>

text \<open>
  \<^verbatim>\<open>shouldEscape\<close>: letters, digits and \<open>-_.~\<close> are never escaped; of the others each part of a URL
  leaves some.
\<close>

datatype url_part = UserPart | HostPart | PathPart | QueryPart

definition unreserved :: "char \<Rightarrow> bool" where
  "unreserved c \<longleftrightarrow>
     (CHR ''a'' \<le> c \<and> c \<le> CHR ''z'') \<or> (CHR ''A'' \<le> c \<and> c \<le> CHR ''Z'') \<or>
     (CHR ''0'' \<le> c \<and> c \<le> CHR ''9'') \<or> c \<in> set ''-_.~''"

fun part_safe :: "url_part \<Rightarrow> string" where
  "part_safe UserPart = ''$&+,;=''"
| "part_safe HostPart = ''!$&'' @ [CHR 39] @ ''()*+,;=:[]<>'' @ [CHR 34]"
| "part_safe PathPart = ''$&+,/:;=@''"
| "part_safe QueryPart = []"

definition should_escape :: "url_part \<Rightarrow> char \<Rightarrow> bool" where
  "should_escape m c \<longleftrightarrow> \<not> unreserved c \<and> c \<notin> set (part_safe m)"

definition upper_hex :: "nat \<Rightarrow> char" where
  "upper_hex n = (if n < 10 then char_of (48 + n) else char_of (55 + n))"

definition escape_char :: "url_part \<Rightarrow> char \<Rightarrow> string" where
  "escape_char m c =
     (if m = QueryPart \<and> c = CHR '' '' then ''+''
      else if should_escape m c
      then [CHR ''%'', upper_hex (of_char c div 16), upper_hex (of_char c mod 16)]
      else [c])"

definition url_escape :: "url_part \<Rightarrow> string \<Rightarrow> string" where
  "url_escape m s = concat (map (escape_char m) s)"

text \<open>\<^verbatim>\<open>Values.Encode\<close>: pairs in the order of their keys.\<close>

definition encode_values :: "(string \<times> string) list \<Rightarrow> string" where
  "encode_values kvs =
     join ''&'' (map (\<lambda>(k, v). url_escape QueryPart k @ ''='' @ url_escape QueryPart v) kvs)"

text \<open>\<^verbatim>\<open>URL.String\<close> of a URL with a scheme, a user and a query.\<close>

definition escaped_path :: "string \<Rightarrow> string" where
  "escaped_path p = (if p = ''*'' then ''*'' else url_escape PathPart p)"

definition url_string :: "string \<Rightarrow> string \<Rightarrow> string \<Rightarrow> string \<Rightarrow> string \<Rightarrow> string \<Rightarrow> string" where
  "url_string scheme user password host p raw_query =
     (let path = escaped_path p in
      scheme @ ''://'' @ url_escape UserPart user @ '':'' @ url_escape UserPart password @ ''@''
      @ url_escape HostPart host
      @ (if path \<noteq> [] \<and> hd path \<noteq> CHR ''/'' \<and> host \<noteq> [] then ''/'' else [])
      @ path @ (if raw_query \<noteq> [] then ''?'' @ raw_query else []))"

section \<open>Open\<close>

record db_config =
  db_user :: string
  db_password :: string
  db_host :: string
  db_name :: string
  db_schema :: string
  db_max_idle_conns :: int
  db_max_open_conns :: int
  db_disable_tls :: bool

definition dsn :: "db_config \<Rightarrow> string" where
  "dsn cfg =
     (let sslmode = (if db_disable_tls cfg then ''disable'' else ''require'');
          q = (if db_schema cfg \<noteq> [] then [(''search_path'', db_schema cfg)] else [])
              @ [(''sslmode'', sslmode), (''timezone'', ''utc'')]
      in url_string ''postgres'' (db_user cfg) (db_password cfg) (db_host cfg) (db_name cfg) (encode_values q))"

definition db_open :: "(string \<Rightarrow> string \<Rightarrow> 'db res) \<Rightarrow> db_config \<Rightarrow> 'db res" where
  "db_open sqlx_open cfg =
     (case sqlx_open ''pgx'' (dsn cfg) of
        Err err \<Rightarrow> Err (ErrWrap ''open connection'' err)
      | Ok db \<Rightarrow> Ok db)"

section \<open>ConnCheck\<close>

text \<open>
  A context, with its deadline and the time at which it is cancelled, if it has them. \<open>ctx_err\<close> is
  \<^verbatim>\<open>ctx.Err()\<close> at a time.
\<close>

record go_ctx =
  gc_deadline :: "gotime option"
  gc_cancelled :: "gotime option"

definition ctx_err :: "go_ctx \<Rightarrow> gotime \<Rightarrow> string option" where
  "ctx_err ctx now =
     (case gc_cancelled ctx of
        Some t \<Rightarrow>
          if t \<le> now \<and> (case gc_deadline ctx of None \<Rightarrow> True | Some d \<Rightarrow> t < d) then Some ''context canceled''
          else (case gc_deadline ctx of Some d \<Rightarrow> if d \<le> now then Some ''context deadline exceeded'' else None
                | None \<Rightarrow> None)
      | None \<Rightarrow>
          (case gc_deadline ctx of Some d \<Rightarrow> if d \<le> now then Some ''context deadline exceeded'' else None
           | None \<Rightarrow> None))"

definition with_timeout :: "go_ctx \<Rightarrow> gotime \<Rightarrow> int \<Rightarrow> go_ctx" where
  "with_timeout ctx now d =
     ctx\<lparr>gc_deadline := Some (case gc_deadline ctx of None \<Rightarrow> now + d | Some t \<Rightarrow> min t (now + d))\<rparr>"

text \<open>
  \<open>dv_ping n t\<close> is the outcome of the ping that is the \<open>n\<close>-th (from 1) and starts at \<open>t\<close>, with the time
  that it takes; \<open>dv_late n\<close> is how much longer than asked for the \<open>n\<close>-th sleep is; \<open>dv_select_true\<close> is
  the outcome of the query and of the scan of its result.
\<close>

record driver =
  dv_ping :: "nat \<Rightarrow> gotime \<Rightarrow> go_err option \<times> nat"
  dv_late :: "nat \<Rightarrow> nat"
  dv_select_true :: "gotime \<Rightarrow> go_err option"

definition millisecond :: int where "millisecond = 1000000"

text \<open>
  The loop, for a context with the deadline \<open>dl\<close> and after \<open>k\<close> attempts: the error it returns with, or the
  time at which a ping succeeded, and the number of pings.
\<close>

definition wake_up :: "driver \<Rightarrow> nat \<Rightarrow> gotime \<Rightarrow> gotime" where
  "wake_up D attempt now =
     now + int (snd (dv_ping D attempt now)) + int attempt * 100 * millisecond + int (dv_late D attempt)"

function ping_loop :: "driver \<Rightarrow> gotime \<Rightarrow> gotime option \<Rightarrow> nat \<Rightarrow> gotime \<Rightarrow> gotime res \<times> nat" where
  "ping_loop D dl cancelled k now =
     (let attempt = Suc k in
      case fst (dv_ping D attempt now) of
        None \<Rightarrow> (Ok (now + int (snd (dv_ping D attempt now))), attempt)
      | Some ping_err \<Rightarrow>
          (let now' = wake_up D attempt now in
           case ctx_err \<lparr>gc_deadline = Some dl, gc_cancelled = cancelled\<rparr> now' of
             Some m \<Rightarrow> (Err (ErrWrap (''deadline exceeded: '' @ m) ping_err), attempt)
           | None \<Rightarrow> ping_loop D dl cancelled attempt now'))"
  by pat_completeness auto

lemma ctx_err_None: "ctx_err \<lparr>gc_deadline = Some dl, gc_cancelled = c\<rparr> now = None \<Longrightarrow> now < dl"
  by (auto simp: ctx_err_def split: option.splits if_splits)

lemma wake_up_later: "now + int attempt * 100 * millisecond \<le> wake_up D attempt now"
  by (simp add: wake_up_def millisecond_def)

termination ping_loop
proof (relation "measure (\<lambda>(D, dl, c, k, now). nat (dl - now))", goal_cases)
  case (2 D dl c k now attempt e now')
  then have "now' < dl" "now + int (Suc k) * 100 * millisecond \<le> now'"
    using ctx_err_None wake_up_later [of now "Suc k" D] by auto
  moreover have "0 < int (Suc k) * 100 * millisecond" by (simp add: millisecond_def)
  ultimately show ?case by simp
qed simp

declare ping_loop.simps [simp del]

definition conn_check :: "driver \<Rightarrow> go_ctx \<Rightarrow> gotime \<Rightarrow> go_err option \<times> nat" where
  "conn_check D ctx now =
     (let dl = (case gc_deadline ctx of None \<Rightarrow> now + 10000 * millisecond | Some d \<Rightarrow> d) in
      case ping_loop D dl (gc_cancelled ctx) 0 now of
        (Err err, n) \<Rightarrow> (Some err, n)
      | (Ok t, n) \<Rightarrow>
          (case dv_select_true D t of
             Some err \<Rightarrow> (Some (ErrWrap ''check sql engine'' err), n)
           | None \<Rightarrow> (None, n)))"

section \<open>What the URL keeps\<close>

definition hex_value :: "char \<Rightarrow> nat" where
  "hex_value c =
     (let n = of_char c in if 48 \<le> n \<and> n \<le> 57 then n - 48 else if 65 \<le> n \<and> n \<le> 70 then n - 55 else n - 87)"

text \<open>\<^verbatim>\<open>unescape\<close> for the user part.\<close>

fun url_unescape :: "string \<Rightarrow> string" where
  "url_unescape [] = []"
| "url_unescape (c # s) =
     (if c = CHR ''%''
      then (case s of a # b # t \<Rightarrow> char_of (16 * hex_value a + hex_value b) # url_unescape t
            | _ \<Rightarrow> c # url_unescape s)
      else c # url_unescape s)"

lemma nibble_less [simp]: "byte_of c div 16 < 16"
  by (rule less_mult_imp_div_less) simp

lemma upper_hex_code: "n < 16 \<Longrightarrow> byte_of (upper_hex n) = (if n < 10 then 48 + n else 55 + n)"
  by (simp add: upper_hex_def)

lemma hex_value_upper: "n < 16 \<Longrightarrow> hex_value (upper_hex n) = n"
  using upper_hex_code [of n] by (simp add: hex_value_def Let_def split: if_splits)

lemma unescape_escape_char:
  assumes "m \<noteq> QueryPart"
  shows "url_unescape (escape_char m c @ s) = c # url_unescape s"
proof (cases "should_escape m c")
  case True
  have "16 * hex_value (upper_hex (of_char c div 16)) + hex_value (upper_hex (of_char c mod 16)) = of_char c"
    by (simp add: hex_value_upper [OF nibble_less] hex_value_upper)
  then show ?thesis using True assms by (simp add: escape_char_def)
next
  case False
  then have "c \<noteq> CHR ''%''" by (cases m) (auto simp: should_escape_def unreserved_def)
  then show ?thesis using False assms by (simp add: escape_char_def)
qed

lemma unescape_escape: "m \<noteq> QueryPart \<Longrightarrow> url_unescape (url_escape m s) = s"
  by (induction s) (simp_all add: url_escape_def unescape_escape_char)

lemma upper_hex_char: "n < 16 \<Longrightarrow> d \<in> set ''@:/?#'' \<Longrightarrow> upper_hex n \<noteq> d"
  using upper_hex_code [of n] by (auto split: if_splits)

lemma escape_user_chars: "d \<in> set ''@:/?#'' \<Longrightarrow> d \<notin> set (url_escape UserPart s)"
proof -
  assume d: "d \<in> set ''@:/?#''"
  have "d \<notin> set (escape_char UserPart c)" for c
  proof (cases "should_escape UserPart c")
    case True
    have "upper_hex (of_char c div 16) \<noteq> d" "upper_hex (of_char c mod 16) \<noteq> d"
      using d by (intro upper_hex_char; simp)+
    then show ?thesis using True d by (auto simp: escape_char_def)
  next
    case False
    then have "c \<noteq> d" using d by (auto simp: should_escape_def unreserved_def)
    then show ?thesis using False by (simp add: escape_char_def)
  qed
  then show "d \<notin> set (url_escape UserPart s)" by (simp add: url_escape_def)
qed

text \<open>
  C39: Whatever the user and the password contain, the URL of \<^verbatim>\<open>Open\<close> has them behind \<^verbatim>\<open>postgres://\<close>,
  escaped so that the first colon ends the user, the first at sign the password, and unescaping gives
  them back. With a host the database is the path behind it; without one its name stands where the host
  should be.
\<close>

theorem dsn_keeps_credentials:
  "\<exists>u p rest. dsn cfg = ''postgres://'' @ u @ '':'' @ p @ ''@'' @ rest \<and>
     set u \<inter> set ''@:/?#'' = {} \<and> set p \<inter> set ''@:/?#'' = {} \<and>
     url_unescape u = db_user cfg \<and> url_unescape p = db_password cfg \<and>
     (\<exists>q. rest = url_escape HostPart (db_host cfg) @
        (if db_host cfg \<noteq> [] \<and> db_name cfg \<noteq> [] \<and> hd (db_name cfg) \<noteq> CHR ''/'' then ''/'' else []) @
        escaped_path (db_name cfg) @ ''?'' @ q)"
proof -
  have path: "escaped_path p \<noteq> [] \<longleftrightarrow> p \<noteq> []" for p
    by (cases p) (auto simp: escaped_path_def url_escape_def escape_char_def)
  have head: "p \<noteq> [] \<Longrightarrow> hd (escaped_path p) = CHR ''/'' \<longleftrightarrow> hd p = CHR ''/''" for p
    by (cases p) (auto simp: escaped_path_def url_escape_def escape_char_def should_escape_def unreserved_def)
  have enc: "encode_values ((k, v) # kvs) \<noteq> []" for k v kvs
    by (cases kvs) (auto simp: encode_values_def)
  have "set (url_escape UserPart s) \<inter> set ''@:/?#'' = {}" for s using escape_user_chars by blast
  note user = this [of "db_user cfg"] this [of "db_password cfg"]
  obtain q where q: "dsn cfg = url_string ''postgres'' (db_user cfg) (db_password cfg) (db_host cfg) (db_name cfg) q" "q \<noteq> []"
    using enc by (cases "db_schema cfg = []") (auto simp: dsn_def Let_def)
  let ?rest = "url_escape HostPart (db_host cfg) @
        (if db_host cfg \<noteq> [] \<and> db_name cfg \<noteq> [] \<and> hd (db_name cfg) \<noteq> CHR ''/'' then ''/'' else []) @
        escaped_path (db_name cfg) @ ''?'' @ q"
  have "dsn cfg = ''postgres://'' @ url_escape UserPart (db_user cfg) @ '':'' @ url_escape UserPart (db_password cfg) @ ''@'' @ ?rest"
    using path [of "db_name cfg"] head [of "db_name cfg"] q by (auto simp: url_string_def Let_def)
  then show ?thesis
    using user unescape_escape [of UserPart] by blast
qed

section \<open>The check ends\<close>

text \<open>The sleeps between the pings add up to at most the time that there is.\<close>

lemma ping_loop_count:
  "ping_loop D dl c k now = (r, n) \<Longrightarrow>
     k < n \<and> (Suc k < n \<longrightarrow> now + 50 * millisecond * (int n * (int n - 1) - int k * (int k + 1)) < dl) \<and>
     (\<forall>t. r = Ok t \<longrightarrow> (\<exists>t'. fst (dv_ping D n t') = None \<and> t' \<le> t))"
proof (induction D dl c k now arbitrary: r n rule: ping_loop.induct)
  case (1 D dl c k now)
  show ?case
  proof (cases "fst (dv_ping D (Suc k) now)")
    case None
    then show ?thesis using 1(2) by (subst (asm) ping_loop.simps) (auto intro!: exI [of _ now])
  next
    case (Some e)
    let ?w = "wake_up D (Suc k) now"
    show ?thesis
    proof (cases "ctx_err \<lparr>gc_deadline = Some dl, gc_cancelled = c\<rparr> ?w")
      case None
      have loop: "ping_loop D dl c (Suc k) ?w = (r, n)"
        using 1(2) Some None by (subst (asm) ping_loop.simps) simp
      note ih = 1(1) [OF refl Some refl None loop]
      have w: "now + int (Suc k) * 100 * millisecond \<le> ?w" by (rule wake_up_later)
      have "now + 50 * millisecond * (int n * (int n - 1) - int k * (int k + 1)) < dl"
      proof (cases "Suc (Suc k) < n")
        case True
        then show ?thesis using ih w by (simp add: millisecond_def algebra_simps)
      next
        case False
        then have "n = Suc (Suc k)" using ih by simp
        then show ?thesis using ctx_err_None [OF None] w by (simp add: millisecond_def algebra_simps)
      qed
      then show ?thesis using ih by auto
    next
      case (Some m)
      then show ?thesis
        using 1(2) \<open>fst (dv_ping D (Suc k) now) = Some e\<close> by (subst (asm) ping_loop.simps) auto
    qed
  qed
qed

lemma conn_check_loop:
  assumes "conn_check D ctx now = (r, n)"
    and "dl = (case gc_deadline ctx of None \<Rightarrow> now + 10000 * millisecond | Some d \<Rightarrow> d)"
  shows "0 < n \<and> (1 < n \<longrightarrow> now + 50 * millisecond * (int n * (int n - 1)) < dl) \<and>
    (r = None \<longrightarrow> (\<exists>t t'. fst (dv_ping D n t') = None \<and> t' \<le> t \<and> dv_select_true D t = None))"
proof -
  obtain q m where q: "ping_loop D dl (gc_cancelled ctx) 0 now = (q, m)" by fastforce
  then have m: "m = n" and sel: "r = None \<longrightarrow> (\<exists>t. q = Ok t \<and> dv_select_true D t = None)"
    using assms by (auto simp: conn_check_def Let_def split: sum.splits option.splits)
  have "r = None \<longrightarrow> (\<exists>t t'. fst (dv_ping D n t') = None \<and> t' \<le> t \<and> dv_select_true D t = None)"
    using ping_loop_count [OF q] m sel by blast
  then show ?thesis using ping_loop_count [OF q] m by simp
qed

lemma pings_bound:
  assumes "1 < n \<Longrightarrow> now + 50 * millisecond * (int n * (int n - 1)) < now + 10000 * millisecond"
  shows "n \<le> 14"
proof (rule ccontr)
  assume n: "\<not> n \<le> 14"
  then have "15 * 14 \<le> int n * (int n - 1)" by (intro mult_mono) simp_all
  then show False using assms n by (simp add: millisecond_def)
qed

text \<open>
  C38: \<^verbatim>\<open>ConnCheck\<close> always returns. With a context that has no deadline it pings at most 14 times in its ten
  seconds, and in general it makes \<open>n\<close> pings only if the \<open>n - 1\<close> growing sleeps between them end before
  the deadline; it reports success only when a ping and then the query have succeeded.
\<close>

theorem conn_check_ends:
  assumes "conn_check D ctx now = (r, n)"
  shows "1 \<le> n \<and> (gc_deadline ctx = None \<longrightarrow> n \<le> 14) \<and>
    (\<forall>dl. gc_deadline ctx = Some dl \<and> 1 < n \<longrightarrow> now + 50 * millisecond * (int n * (int n - 1)) < dl) \<and>
    (r = None \<longrightarrow> (\<exists>t t'. fst (dv_ping D n t') = None \<and> t' \<le> t \<and> dv_select_true D t = None))"
  using conn_check_loop [OF assms refl] pings_bound [of n now] by (auto simp del: of_nat_mult)

definition slow_driver :: driver where
  "slow_driver = \<lparr>dv_ping = (\<lambda>n t. (if n < 3 then Some (ErrPlain ''connection refused'') else None, 0)),
     dv_late = (\<lambda>n. 0), dv_select_true = (\<lambda>t. None)\<rparr>"

theorem conn_check_ends_witness:
  "conn_check slow_driver \<lparr>gc_deadline = None, gc_cancelled = None\<rparr> 0 = (None, 3) \<and> (3 :: nat) \<le> 14"
proof -
  have c: "conn_check slow_driver \<lparr>gc_deadline = None, gc_cancelled = None\<rparr> 0 = (None, 3)" by code_simp
  then show ?thesis using conn_check_ends [OF c] by simp
qed

end
