(* ===== verification/Health.thy ===== *)
theory Health
  imports Connection Logger Gin
begin

text \<open>
  \<^verbatim>\<open>internal/domains/health/handler\<close> and \<^verbatim>\<open>internal/debug/debug.go\<close>: the two servers beside the API, on
  \<^verbatim>\<open>http.ServeMux\<close>. A table maps patterns to what serves them; a pattern that ends with a slash serves
  the paths below it.
\<close>

section \<open>http.ServeMux\<close>

text \<open>\<^verbatim>\<open>cleanPath\<close>: no empty, \<^verbatim>\<open>.\<close> or \<^verbatim>\<open>..\<close> element, and the last slash kept.\<close>

definition clean_path :: "string \<Rightarrow> string" where
  "clean_path p =
     (if p = [] then ''/''
      else let p = (if hd p \<noteq> CHR ''/'' then ''/'' @ p else p);
               es = clean_elems [] (split_on CHR ''/'' p);
               np = ''/'' @ join ''/'' es
           in if last p = CHR ''/'' \<and> np \<noteq> ''/'' then np @ ''/'' else np)"

datatype 'h mux_answer = MuxHandler 'h | MuxRedirect string | MuxNotFound

definition ends_slash :: "string \<Rightarrow> bool" where
  "ends_slash p \<longleftrightarrow> p \<noteq> [] \<and> last p = CHR ''/''"

text \<open>The pattern of a table that serves a path: the path itself, or the longest one above it.\<close>

definition mux_candidates :: "(string \<times> 'h) list \<Rightarrow> string \<Rightarrow> (string \<times> 'h) list" where
  "mux_candidates table p = filter (\<lambda>(pat, h). pat = p \<or> (ends_slash pat \<and> has_prefix p pat)) table"

fun longest :: "(string \<times> 'h) list \<Rightarrow> (string \<times> 'h) option" where
  "longest [] = None"
| "longest (x # xs) =
     (case longest xs of None \<Rightarrow> Some x | Some y \<Rightarrow> if length (fst x) < length (fst y) then Some y else Some x)"

definition mux_handler :: "(string \<times> 'h) list \<Rightarrow> string \<Rightarrow> 'h mux_answer" where
  "mux_handler table path =
     (let p = clean_path path in
      if map_of table p = None \<and> \<not> ends_slash p \<and> map_of table (p @ ''/'') \<noteq> None
      then MuxRedirect (p @ ''/'')
      else if p \<noteq> path then MuxRedirect p
      else (case longest (mux_candidates table p) of None \<Rightarrow> MuxNotFound | Some (pat, h) \<Rightarrow> MuxHandler h))"

section \<open>The health endpoints\<close>

record http_response =
  hr_status :: int
  hr_headers :: "(string \<times> string) list"
  hr_body :: "json option"

record health_info =
  hi_status :: string
  hi_build :: string
  hi_host :: string
  hi_name :: string
  hi_pod_ip :: string
  hi_node :: string
  hi_namespace :: string
  hi_gomaxprocs :: int

text \<open>Every field is \<^verbatim>\<open>omitempty\<close>.\<close>

definition health_info_json :: "health_info \<Rightarrow> json" where
  "health_info_json i =
     (let s = (\<lambda>k v. if v = [] then [] else [(k, JStr v)]) in
      JObj (s ''status'' (hi_status i) @ s ''build'' (hi_build i) @ s ''host'' (hi_host i) @ s ''name'' (hi_name i)
        @ s ''podIP'' (hi_pod_ip i) @ s ''node'' (hi_node i) @ s ''namespace'' (hi_namespace i)
        @ (if hi_gomaxprocs i = 0 then [] else [(''GOMAXPROCS'', JNum (itoa (hi_gomaxprocs i)))])))"

record health_conf =
  hc_db :: driver
  hc_log :: logger
  hc_build :: string

text \<open>What the operating system and the runtime report.\<close>

record os_env =
  oe_hostname :: "string res"
  oe_getenv :: "string \<Rightarrow> string"
  oe_gomaxprocs :: int

definition readiness ::
  "health_conf \<Rightarrow> go_ctx \<Rightarrow> log_ctx \<Rightarrow> gotime \<Rightarrow> log_record list \<Rightarrow> http_response \<times> log_record list" where
  "readiness h ctx lc now out =
     (let ctx = with_timeout ctx now (10 * 1000 * millisecond) in
      case fst (conn_check (hc_db h) ctx now) of
        Some err \<Rightarrow>
          (\<lparr>hr_status = StatusInternalServerError, hr_headers = [], hr_body = None\<rparr>,
           log_error (hc_log h) lc ''readiness failed'' [LStr ''err'', LStr (err_msg err)] out)
      | None \<Rightarrow>
          (\<lparr>hr_status = StatusOK, hr_headers = [(''Content-Type'', ''application/json'')],
            hr_body = Some (JObj [(''msg'', JStr ''ok'')])\<rparr>, out))"

definition liveness :: "health_conf \<Rightarrow> os_env \<Rightarrow> http_response" where
  "liveness h E =
     (let host = (case oe_hostname E of Err err \<Rightarrow> ''unavailable'' | Ok host \<Rightarrow> host);
          info = \<lparr>hi_status = ''running'', hi_build = hc_build h, hi_host = host,
                  hi_name = oe_getenv E ''KUBERNETES_NAME'', hi_pod_ip = oe_getenv E ''KUBERNETES_POD_IP'',
                  hi_node = oe_getenv E ''KUBERNETES_NODE_NAME'',
                  hi_namespace = oe_getenv E ''KUBERNETES_NAMESPACE'', hi_gomaxprocs = oe_gomaxprocs E\<rparr>
      in \<lparr>hr_status = StatusOK, hr_headers = [], hr_body = Some (health_info_json info)\<rparr>)"

datatype health_handler = HReadiness health_conf | HLiveness health_conf

definition health_routes :: "health_conf \<Rightarrow> (string \<times> health_handler) list" where
  "health_routes h = [(''/v1/readiness'', HReadiness h), (''/v1/liveness'', HLiveness h)]"

section \<open>The debug endpoints\<close>

datatype debug_handler = PprofIndex | PprofCmdline | PprofProfile | PprofSymbol | PprofTrace | ExpvarHandler

definition debug_routes :: "(string \<times> debug_handler) list" where
  "debug_routes =
     [(''/debug/pprof/'', PprofIndex), (''/debug/pprof/cmdline'', PprofCmdline),
      (''/debug/pprof/profile'', PprofProfile), (''/debug/pprof/symbol'', PprofSymbol),
      (''/debug/pprof/trace'', PprofTrace), (''/debug/vars/'', ExpvarHandler)]"

lemma with_timeout_deadline: "\<exists>d. gc_deadline (with_timeout ctx now t) = Some d \<and> d \<le> now + t"
  by (auto simp: with_timeout_def split: option.split)

text \<open>
  Readiness answers 200 exactly when the check of the connection succeeds within ten seconds or the
  deadline of the request, whichever is first, and otherwise 500 without a body and with the
  error of the check in the log; the check makes at most 14 pings either way. Nothing but the two paths is served.
\<close>

lemma readiness_reports_database:
  "(hr_status (fst (readiness h ctx lc now out)) = StatusOK \<longleftrightarrow>
      fst (conn_check (hc_db h) (with_timeout ctx now (10000 * millisecond)) now) = None) \<and>
   (hr_status (fst (readiness h ctx lc now out)) \<noteq> StatusOK \<longrightarrow>
      hr_status (fst (readiness h ctx lc now out)) = StatusInternalServerError \<and>
      hr_body (fst (readiness h ctx lc now out)) = None \<and>
      (\<exists>err. fst (conn_check (hc_db h) (with_timeout ctx now (10000 * millisecond)) now) = Some err \<and>
        snd (readiness h ctx lc now out) =
          log_error (hc_log h) lc ''readiness failed'' [LStr ''err'', LStr (err_msg err)] out)) \<and>
   snd (conn_check (hc_db h) (with_timeout ctx now (10000 * millisecond)) now) \<le> 14 \<and>
   (\<forall>p x. mux_handler (health_routes h) p = MuxHandler x \<longrightarrow>
      (p, x) \<in> {(''/v1/readiness'', HReadiness h), (''/v1/liveness'', HLiveness h)})"
proof (intro conjI allI impI)
  let ?ctx = "with_timeout ctx now (10000 * millisecond)"
  obtain r n where c: "conn_check (hc_db h) ?ctx now = (r, n)" by fastforce
  obtain d where "gc_deadline ?ctx = Some d" "d \<le> now + 10000 * millisecond" using with_timeout_deadline by blast
  then have "1 < n \<Longrightarrow> now + 50 * millisecond * (int n * (int n - 1)) < now + 10000 * millisecond"
    using conn_check_loop [OF c refl] by simp
  then show "snd (conn_check (hc_db h) ?ctx now) \<le> 14" using pings_bound c by simp
  show "(p, x) \<in> {(''/v1/readiness'', HReadiness h), (''/v1/liveness'', HLiveness h)}"
    if "mux_handler (health_routes h) p = MuxHandler x" for p x
    using that
    by (auto simp: mux_handler_def health_routes_def mux_candidates_def ends_slash_def Let_def split: if_splits option.splits)
qed (auto simp: readiness_def split: option.splits)

lemma readiness_reports_database_witness:
  "hr_status (fst (readiness
       \<lparr>hc_db = slow_driver, hc_log = logger_new True LevelInfo [] None, hc_build = []\<rparr>
       \<lparr>gc_deadline = None, gc_cancelled = None\<rparr> \<lparr>lc_trace = None, lc_runtime = ([], 0), lc_stack = []\<rparr> 0 [])) = StatusOK"
proof -
  have "fst (conn_check slow_driver (with_timeout \<lparr>gc_deadline = None, gc_cancelled = None\<rparr> 0 (10000 * millisecond)) 0) = None"
    by code_simp
  then show ?thesis
    using readiness_reports_database [of "\<lparr>hc_db = slow_driver, hc_log = logger_new True LevelInfo [] None, hc_build = []\<rparr>"]
    by simp
qed

end
