(* ===== verification/Tracing.thy ===== *)
theory Tracing
  imports GoErrors
begin

text \<open>
  \<^verbatim>\<open>pkg/telemetry/telemetry.go\<close>: the tracer provider and the propagators that \<^verbatim>\<open>SetupOTelSDK\<close> installs,
  and the function that shuts the provider down. The exporters are parameters that may fail; \<open>'f\<close> is
  the type of a \<^verbatim>\<open>float64\<close>.
\<close>

record 'f telemetry_config =
  tc_service_name :: string
  tc_host :: string
  tc_probability :: 'f
  tc_build :: string

datatype exporter = StdoutExporter | OtlpHttp string | OtlpGrpc string

datatype 'f sampler = DefaultSampler | ParentBasedRatio 'f

record 'f sdk_provider =
  pv_exporter :: exporter
  pv_sampler :: "'f sampler"
  pv_batch_timeout :: int
  pv_max_batch :: "int option"
  pv_resource :: "(string \<times> string) list"

datatype 'f provider = NoopProvider | SdkProvider "'f sdk_provider"

datatype propagator = PropTraceContext | PropBaggage

record 'f otel_globals =
  og_provider :: "'f provider"
  og_propagators :: "propagator list"

text \<open>What \<^verbatim>\<open>SetupOTelSDK\<close> returns: the shutdown of nothing or of a provider.\<close>

datatype 'f shutdown = NoShutdown | ShutdownOf "'f sdk_provider"

record exporter_env =
  ee_stdout :: "go_err option"
  ee_http :: "string \<Rightarrow> go_err option"
  ee_grpc :: "string \<Rightarrow> go_err option"

definition new_propagator :: "propagator list" where
  "new_propagator = [PropTraceContext, PropBaggage]"

definition new_grpc_exporter :: "exporter_env \<Rightarrow> string \<Rightarrow> exporter res" where
  "new_grpc_exporter E host =
     (case ee_grpc E host of Some err \<Rightarrow> Err (ErrWrap ''creating new exporter'' err) | None \<Rightarrow> Ok (OtlpGrpc host))"

definition new_http_exporter :: "exporter_env \<Rightarrow> string \<Rightarrow> exporter res" where
  "new_http_exporter E host =
     (case ee_http E host of Some err \<Rightarrow> Err (ErrWrap ''new exporter'' err) | None \<Rightarrow> Ok (OtlpHttp host))"

definition service_resource :: "'f telemetry_config \<Rightarrow> (string \<times> string) list" where
  "service_resource cfg = [(''service.name'', tc_service_name cfg), (''service.version'', tc_build cfg)]"

definition setup_otel ::
  "exporter_env \<Rightarrow> 'f telemetry_config \<Rightarrow> 'f otel_globals \<Rightarrow> 'f shutdown res \<times> 'f otel_globals" where
  "setup_otel E cfg g =
     (case (if tc_host cfg = [] then Ok (NoopProvider, NoShutdown)
            else if tc_host cfg = ''dev''
            then (case ee_stdout E of
                    Some err \<Rightarrow> Err (ErrWrap ''stdout exporter'' err)
                  | None \<Rightarrow>
                      (let p = \<lparr>pv_exporter = StdoutExporter, pv_sampler = DefaultSampler, pv_batch_timeout = 1000000000,
                                pv_max_batch = None, pv_resource = service_resource cfg\<rparr>
                       in Ok (SdkProvider p, ShutdownOf p)))
            else (case new_http_exporter E (tc_host cfg) of
                    Err err \<Rightarrow> Err err
                  | Ok ex \<Rightarrow>
                      (let p = \<lparr>pv_exporter = ex, pv_sampler = ParentBasedRatio (tc_probability cfg),
                                pv_batch_timeout = 1000000000, pv_max_batch = Some 512,
                                pv_resource = service_resource cfg\<rparr>
                       in Ok (SdkProvider p, ShutdownOf p)))) of
        Err err \<Rightarrow> (Err err, g)
      | Ok (provider, shutdown) \<Rightarrow>
          (Ok shutdown, \<lparr>og_provider = provider, og_propagators = new_propagator\<rparr>))"

text \<open>The shutdown drops the error of the provider; \<open>flush\<close> is the provider's own.\<close>

definition run_shutdown :: "('f sdk_provider \<Rightarrow> string option \<Rightarrow> go_err option) \<Rightarrow> 'f shutdown \<Rightarrow> string option \<Rightarrow> go_err option" where
  "run_shutdown flush s done =
     (case s of NoShutdown \<Rightarrow> None | ShutdownOf p \<Rightarrow> (case flush p done of _ \<Rightarrow> None))"

text \<open>
  An installed provider and the shutdown that goes with it belong together, and a failure installs
  nothing.
\<close>

lemma setup_otel_cases:
  assumes "setup_otel E cfg g = (r, g')"
  shows "(\<forall>e. r = Err e \<longrightarrow> g' = g) \<and>
    (\<forall>s. r = Ok s \<longrightarrow> og_propagators g' = [PropTraceContext, PropBaggage] \<and>
       (s = NoShutdown \<longleftrightarrow> og_provider g' = NoopProvider) \<and> (\<forall>p. s = ShutdownOf p \<longleftrightarrow> og_provider g' = SdkProvider p) \<and>
       (s = NoShutdown \<longleftrightarrow> tc_host cfg = []))"
  using assms
  by (auto simp: setup_otel_def new_propagator_def Let_def split: if_splits option.splits sum.splits)

end
