(* ===== verification/Startup.thy ===== *)
theory Startup
  imports Routes Health Tracing
begin

text \<open>
  \<^verbatim>\<open>cmd/services/main.go\<close>: from the configuration to the engine that serves, and the end of the program.
  \<open>run\<close> returns its error and the list of what it did, with what is deferred in the order in which it
  runs. The configuration library, the driver, the exporters and the files of the keys are parameters;
  the servers that run beside the API are events.
\<close>

section \<open>The configuration\<close>

record web_config =
  wc_read_timeout :: int
  wc_write_timeout :: int
  wc_idle_timeout :: int
  wc_shutdown_timeout :: int
  wc_debug_host :: string
  wc_api_host :: string
  wc_health_check :: string

record auth_config =
  ac_keys :: string
  ac_active_key :: string
  ac_issuer :: string
  ac_token_max_age :: int

record 'f service_config =
  sc_web :: web_config
  sc_db :: db_config
  sc_auth :: auth_config
  sc_tempo_host :: string
  sc_tempo_service_name :: string
  sc_tempo_probability :: 'f

definition second :: int where "second = 1000000000"

definition default_web :: web_config where
  "default_web =
     \<lparr>wc_read_timeout = 10 * second, wc_write_timeout = 30 * second, wc_idle_timeout = 120 * second,
      wc_shutdown_timeout = 120 * second, wc_debug_host = ''0.0.0.0:3000'', wc_api_host = ''0.0.0.0:8000'',
      wc_health_check = ''0.0.0.0:9000''\<rparr>"

definition default_auth :: auth_config where
  "default_auth =
     \<lparr>ac_keys = ''/etc/rsa-keys'', ac_active_key = ''f7b7936a-1ca3-4015-811b-ec31b61e3071'',
      ac_issuer = ''jumple project'', ac_token_max_age = 3600 * second\<rparr>"

definition default_service :: "'f \<Rightarrow> 'f service_config" where
  "default_service one =
     \<lparr>sc_web = default_web,
      sc_db = \<lparr>db_user = ''postgres'', db_password = ''postgres'', db_host = ''database:5432'', db_name = ''postgres'',
               db_schema = [], db_max_idle_conns = 0, db_max_open_conns = 0, db_disable_tls = True\<rparr>,
      sc_auth = default_auth, sc_tempo_host = ''tempo:4318'', sc_tempo_service_name = ''jumble-service'',
      sc_tempo_probability = one\<rparr>"

text \<open>What \<^verbatim>\<open>conf.Parse\<close> makes of the environment and the arguments, over the defaults.\<close>

datatype 'f conf_result = ConfOk "'f service_config" | ConfHelp string | ConfErr go_err

section \<open>Events\<close>

record api_server =
  as_addr :: string
  as_read_timeout :: int
  as_write_timeout :: int
  as_idle_timeout :: int

datatype 'f run_event =
    EvLog string
  | EvPrint string
  | EvDebugServer string "(string \<times> debug_handler) list"
  | EvExpvar string string
  | EvOpen string
  | EvHealthServer string "(string \<times> health_handler) list"
  | EvApiServer api_server "(database, keystore) config"
  | EvServerClose
  | EvCleanup "'f shutdown" "string option"
  | EvDbClose

text \<open>What ends the program: the API server fails, or a signal comes at a time with requests in flight.\<close>

datatype run_end = ServerFails go_err | SignalAt gotime nat

record ('db, 'f) run_env =
  re_build :: string
  re_conf :: "'f conf_result"
  re_conf_string :: "'f service_config \<Rightarrow> string res"
  re_sqlx_open :: "string \<Rightarrow> string \<Rightarrow> 'db res"
  re_driver :: driver
  re_exporters :: exporter_env
  re_dir_fs :: "string \<Rightarrow> fsnode res"
  re_jwt :: jwt_env
  re_log :: logger
  re_base :: "(database, keystore) config"
  re_globals :: "'f otel_globals"
  re_end :: run_end

section \<open>Shutting down\<close>

text \<open>
  \<^verbatim>\<open>http.Server.Shutdown\<close> returns when no request is in flight, or with the error of its context when that
  is done first.
\<close>

definition server_shutdown :: "nat \<Rightarrow> string option \<Rightarrow> go_err option" where
  "server_shutdown in_flight done =
     (if in_flight = 0 then None else case done of Some m \<Rightarrow> Some (ErrPlain m) | None \<Rightarrow> None)"

text \<open>The context of the program, once the signal has come, and the one derived from it.\<close>

definition run_ctx :: "run_end \<Rightarrow> go_ctx" where
  "run_ctx e = \<lparr>gc_deadline = None, gc_cancelled = (case e of SignalAt t n \<Rightarrow> Some t | ServerFails err \<Rightarrow> None)\<rparr>"

definition await_end :: "'f service_config \<Rightarrow> run_end \<Rightarrow> go_err option \<times> 'f run_event list" where
  "await_end cfg e =
     (case e of
        ServerFails err \<Rightarrow> (Some (ErrWrap ''server error'' (ErrWrap ''listenAndServe'' err)), [])
      | SignalAt t in_flight \<Rightarrow>
          (let shutdown_ctx = with_timeout (run_ctx e) t (wc_shutdown_timeout (sc_web cfg));
               started = EvLog ''server received a shutdown signal'';
               completed = EvLog ''server completed the shutdown process''
           in case server_shutdown in_flight (ctx_err shutdown_ctx t) of
                Some err \<Rightarrow>
                  (Some (ErrWrap ''failed to gracefully shutdown the server'' err), [started, EvServerClose, completed])
              | None \<Rightarrow> (None, [started, completed])))"

section \<open>run\<close>

definition after :: "'f run_event list \<Rightarrow> go_err option \<times> 'f run_event list \<Rightarrow> go_err option \<times> 'f run_event list" where
  "after evs r = (fst r, evs @ snd r)"

definition deferred :: "'f run_event \<Rightarrow> go_err option \<times> 'f run_event list \<Rightarrow> go_err option \<times> 'f run_event list" where
  "deferred ev r = (fst r, snd r @ [ev])"

text \<open>The configuration of the engine; what is not set here comes from the environment.\<close>

definition engine_config ::
  "('db, 'f) run_env \<Rightarrow> 'f service_config \<Rightarrow> keystore \<Rightarrow> (database, keystore) config" where
  "engine_config E cfg ks =
     (re_base E)
       \<lparr>cf_api := userdb_store,
        cf_auth := auth_new keystore_api ks (re_jwt E) () (ac_issuer (sc_auth cfg)),
        cf_kid := ks_get_active_kid ks,
        cf_issuer := ac_issuer (sc_auth cfg),
        cf_token_max_age := ac_token_max_age (sc_auth cfg),
        cf_log := re_log E\<rparr>"

definition run_servers ::
  "('db, 'f) run_env \<Rightarrow> 'f service_config \<Rightarrow> keystore \<Rightarrow> go_err option \<times> 'f run_event list" where
  "run_servers E cfg ks =
     (let web = sc_web cfg;
          health = \<lparr>hc_db = re_driver E, hc_log = re_log E, hc_build = re_build E\<rparr>
      in after
           [EvLog ''auth initialized'',
            EvHealthServer (wc_health_check web) (health_routes health),
            EvApiServer \<lparr>as_addr = wc_api_host web, as_read_timeout = wc_read_timeout web,
                         as_write_timeout = wc_write_timeout web, as_idle_timeout = wc_idle_timeout web\<rparr>
              (engine_config E cfg ks)]
           (await_end cfg (re_end E)))"

definition run_keys :: "('db, 'f) run_env \<Rightarrow> 'f service_config \<Rightarrow> go_err option \<times> 'f run_event list" where
  "run_keys E cfg =
     (case ks_load_from_file_system (jw_crypto (re_jwt E)) ks_new (re_dir_fs E (ac_keys (sc_auth cfg))) of
        (Err err, ks) \<Rightarrow> (Some (ErrWrap ''loadFromFileSystem'' err), [])
      | (Ok n, ks) \<Rightarrow>
          after [EvLog ''loaded rsa keys into in-memory keystore'']
            (case ks_set_active_key ks (ac_active_key (sc_auth cfg)) of
               (Some err, ks) \<Rightarrow> (Some (ErrWrap ''setActiveKey'' err), [])
             | (None, ks) \<Rightarrow> after [EvLog ''setting active KID was successfull''] (run_servers E cfg ks)))"

text \<open>The error of the context when the program ends: the signal only comes to a program that serves.\<close>

fun is_api_server :: "'f run_event \<Rightarrow> bool" where
  "is_api_server (EvApiServer srv C) = True"
| "is_api_server _ = False"

definition ctx_at_end :: "('db, 'f) run_env \<Rightarrow> 'f run_event list \<Rightarrow> string option" where
  "ctx_at_end E evs =
     (case re_end E of
        SignalAt t n \<Rightarrow> if list_ex is_api_server evs then ctx_err (run_ctx (re_end E)) t else None
      | ServerFails err \<Rightarrow> None)"

definition run_traced :: "('db, 'f) run_env \<Rightarrow> 'f service_config \<Rightarrow> go_err option \<times> 'f run_event list" where
  "run_traced E cfg =
     (case fst (setup_otel (re_exporters E)
              \<lparr>tc_service_name = sc_tempo_service_name cfg, tc_host = sc_tempo_host cfg,
               tc_probability = sc_tempo_probability cfg, tc_build = re_build E\<rparr> (re_globals E)) of
        Err err \<Rightarrow> (Some (ErrWrap ''setupOTelSDK'' err), [])
      | Ok cleanup \<Rightarrow>
          (let r = after [EvLog ''tracer successfully initialized''] (run_keys E cfg)
           in deferred (EvCleanup cleanup (ctx_at_end E (snd r))) r))"

definition run_service :: "('db, 'f) run_env \<Rightarrow> go_err option \<times> 'f run_event list" where
  "run_service E =
     after [EvLog ''run'']
       (case re_conf E of
          ConfHelp help \<Rightarrow> (None, [EvPrint help])
        | ConfErr err \<Rightarrow> (Some (ErrWrap ''parsing conf'' err), [])
        | ConfOk cfg \<Rightarrow>
       (case re_conf_string E cfg of
          Err err \<Rightarrow> (Some (ErrWrap ''conf to string'' err), [])
        | Ok out \<Rightarrow>
          after
            [EvLog ''app configuration'', EvDebugServer (wc_debug_host (sc_web cfg)) debug_routes,
             EvExpvar ''build'' (re_build E)]
            (case db_open (re_sqlx_open E) (sc_db cfg) of
               Err err \<Rightarrow> (Some (ErrWrap ''failed to open connection to database'' err), [])
             | Ok db \<Rightarrow>
                 deferred EvDbClose
                   (after [EvOpen (dsn (sc_db cfg)), EvLog ''database initialized''] (run_traced E cfg)))))"

text \<open>The process exits with 1 exactly when \<open>run\<close> fails.\<close>

definition main_service :: "('db, 'f) run_env \<Rightarrow> int \<times> 'f run_event list" where
  "main_service E =
     (case run_service E of
        (Some err, evs) \<Rightarrow> (1, evs @ [EvLog ''main failed to execute run''])
      | (None, evs) \<Rightarrow> (0, evs))"

section \<open>What holds of every run\<close>

lemma after_simps [simp]: "fst (after evs r) = fst r" "snd (after evs r) = evs @ snd r"
  by (simp_all add: after_def)

lemma deferred_simps [simp]: "fst (deferred ev r) = fst r" "snd (deferred ev r) = snd r @ [ev]"
  by (simp_all add: deferred_def)

lemma await_end_events:
  "EvApiServer srv C \<notin> set (snd (await_end cfg e))" "EvDbClose \<notin> set (snd (await_end cfg e))"
  "EvOpen d \<notin> set (snd (await_end cfg e))" "EvCleanup c x \<notin> set (snd (await_end cfg e))"
  by (auto simp: await_end_def Let_def split: run_end.split option.split)

text \<open>What serves has a key store that has been loaded and whose active key is there.\<close>

lemma active_key_set:
  assumes "wf_keys X ks" "ks_set_active_key ks kid = (None, ks')"
  shows "wf_keys X ks' \<and> ks_get_active_kid ks' = kid \<and> (\<exists>k. ks_private_key ks' kid = Ok k)"
proof -
  obtain k where "map_of (ks_store ks) kid = Some k" "ks' = ks\<lparr>ks_active := kid\<rparr>"
    using assms(2) by (auto simp: set_active_alone split: option.splits if_splits)
  then show ?thesis
    using set_active_wf [OF assms(1), of kid] assms(2) by (simp add: ks_get_active_kid_def ks_private_key_def)
qed

lemma keys_served:
  assumes "EvApiServer srv C \<in> set (snd (run_keys E cfg))"
  shows "\<exists>ks. C = engine_config E cfg ks \<and> wf_keys (jw_crypto (re_jwt E)) ks \<and>
    ks_get_active_kid ks = ac_active_key (sc_auth cfg) \<and> (\<exists>k. ks_private_key ks (ac_active_key (sc_auth cfg)) = Ok k) \<and>
    as_addr srv = wc_api_host (sc_web cfg) \<and> snd (run_keys E cfg) =
      [EvLog ''loaded rsa keys into in-memory keystore'', EvLog ''setting active KID was successfull''] @ snd (run_servers E cfg ks) \<and>
    fst (run_keys E cfg) = fst (await_end cfg (re_end E))"
proof -
  let ?X = "jw_crypto (re_jwt E)"
  obtain q ks where q: "ks_load_from_file_system ?X ks_new (re_dir_fs E (ac_keys (sc_auth cfg))) = (q, ks)" by fastforce
  obtain a ks' where a: "ks_set_active_key ks (ac_active_key (sc_auth cfg)) = (a, ks')" by fastforce
  have "wf_keys ?X ks" using load_wf [OF wf_ks_new, of ?X "re_dir_fs E (ac_keys (sc_auth cfg))"] q by simp
  moreover have ok: "\<exists>n. q = Ok n" "a = None"
    using assms q a by (auto simp: run_keys_def split: sum.splits option.splits)
  ultimately have ks: "wf_keys ?X ks'" "ks_get_active_kid ks' = ac_active_key (sc_auth cfg)"
    "\<exists>k. ks_private_key ks' (ac_active_key (sc_auth cfg)) = Ok k"
    using active_key_set a by blast+
  have "snd (run_keys E cfg) = [EvLog ''loaded rsa keys into in-memory keystore'', EvLog ''setting active KID was successfull'']
      @ snd (run_servers E cfg ks')" "fst (run_keys E cfg) = fst (await_end cfg (re_end E))"
    using q a ok by (auto simp: run_keys_def run_servers_def Let_def)
  moreover from this have "C = engine_config E cfg ks'" "as_addr srv = wc_api_host (sc_web cfg)"
    using assms await_end_events(1) [of srv C cfg "re_end E"] by (auto simp: run_servers_def Let_def)
  ultimately show ?thesis using ks by blast
qed

lemma api_server_reached:
  assumes "EvApiServer srv C \<in> set (snd (run_service E))"
  shows "\<exists>cfg db cleanup before.
    re_conf E = ConfOk cfg \<and> db_open (re_sqlx_open E) (sc_db cfg) = Ok db \<and>
    EvApiServer srv C \<in> set (snd (run_keys E cfg)) \<and> fst (run_service E) = fst (run_keys E cfg) \<and>
    snd (run_service E) = before @ snd (run_keys E cfg) @
      [EvCleanup cleanup (ctx_at_end E (EvLog ''tracer successfully initialized'' # snd (run_keys E cfg))), EvDbClose] \<and>
    EvOpen (dsn (sc_db cfg)) \<in> set before \<and> EvDbClose \<notin> set before"
proof -
  obtain cfg where cfg: "re_conf E = ConfOk cfg"
    using assms by (cases "re_conf E") (auto simp: run_service_def)
  moreover obtain out where out: "re_conf_string E cfg = Ok out"
    using assms cfg by (cases "re_conf_string E cfg") (auto simp: run_service_def)
  moreover obtain db where db: "db_open (re_sqlx_open E) (sc_db cfg) = Ok db"
    using assms cfg out by (cases "db_open (re_sqlx_open E) (sc_db cfg)") (auto simp: run_service_def)
  moreover obtain c where tr: "fst (setup_otel (re_exporters E)
      \<lparr>tc_service_name = sc_tempo_service_name cfg, tc_host = sc_tempo_host cfg,
       tc_probability = sc_tempo_probability cfg, tc_build = re_build E\<rparr> (re_globals E)) = Ok c"
    using assms cfg out db
    by (cases "fst (setup_otel (re_exporters E)
      \<lparr>tc_service_name = sc_tempo_service_name cfg, tc_host = sc_tempo_host cfg,
       tc_probability = sc_tempo_probability cfg, tc_build = re_build E\<rparr> (re_globals E))")
      (auto simp: run_service_def run_traced_def)
  ultimately show ?thesis
    using assms
    by (intro exI [of _ cfg] exI [of _ db] exI [of _ c]
        exI [of _ "[EvLog ''run'', EvLog ''app configuration'', EvDebugServer (wc_debug_host (sc_web cfg)) debug_routes,
          EvExpvar ''build'' (re_build E), EvOpen (dsn (sc_db cfg)), EvLog ''database initialized'',
          EvLog ''tracer successfully initialized'']"])
      (auto simp: run_service_def run_traced_def Let_def)
qed

end
