(* ===== verification/StartupProperties.thy ===== *)
theory StartupProperties
  imports Startup Samples
begin

text \<open>
  What holds of every start and every end of the program of \<^verbatim>\<open>cmd/services/main.go\<close>, and a run to
  evaluate it on.
\<close>

text \<open>
  C32: When the API server starts, its engine is the one of the user service over the store on PostgreSQL,
  and its key store is well formed and holds a private key under the active id, which is the one of the
  configuration: no request can fail for want of the key that signs the tokens.
\<close>

theorem served_configuration_is_sound:
  assumes "EvApiServer srv C \<in> set (snd (run_service E))"
  shows "\<exists>cfg k. re_conf E = ConfOk cfg \<and> as_addr srv = wc_api_host (sc_web cfg) \<and>
    cf_api C = userdb_store \<and> au_keys (cf_auth C) = keystore_api \<and>
    wf_keys (jw_crypto (au_env (cf_auth C))) (au_state (cf_auth C)) \<and>
    cf_kid C = ac_active_key (sc_auth cfg) \<and> ks_private_key (au_state (cf_auth C)) (cf_kid C) = Ok k \<and>
    cf_issuer C = ac_issuer (sc_auth cfg) \<and> cf_token_max_age C = ac_token_max_age (sc_auth cfg)"
proof -
  obtain cfg where cfg: "re_conf E = ConfOk cfg" "EvApiServer srv C \<in> set (snd (run_keys E cfg))"
    using api_server_reached [OF assms] by blast
  then obtain ks k where "C = engine_config E cfg ks" "wf_keys (jw_crypto (re_jwt E)) ks"
    "ks_get_active_kid ks = ac_active_key (sc_auth cfg)" "ks_private_key ks (ac_active_key (sc_auth cfg)) = Ok k"
    "as_addr srv = wc_api_host (sc_web cfg)"
    using keys_served by blast
  then show ?thesis using cfg(1) by (simp add: engine_config_def auth_new_def)
qed

text \<open>
  C33: A program that has started to serve and gets a signal does not wait for the requests in flight, however
  long the configured timeout: the context of the shutdown comes from the one that the signal has just
  cancelled. With a request in flight \<^verbatim>\<open>run\<close> closes the server at once and fails; without one it succeeds.
  The traces are flushed with the same cancelled context, and the database is closed last.
\<close>

theorem shutdown_does_not_wait:
  assumes "EvApiServer srv C \<in> set (snd (run_service E))" "re_end E = SignalAt t n"
  shows "(fst (run_service E) = None \<longleftrightarrow> n = 0) \<and> (n \<noteq> 0 \<longrightarrow> EvServerClose \<in> set (snd (run_service E))) \<and>
    (\<exists>evs cleanup. snd (run_service E) = evs @ [EvCleanup cleanup (Some ''context canceled''), EvDbClose] \<and>
       EvDbClose \<notin> set evs)"
proof -
  obtain cfg cleanup before where cfg: "re_conf E = ConfOk cfg" "EvApiServer srv C \<in> set (snd (run_keys E cfg))"
    "fst (run_service E) = fst (run_keys E cfg)" "EvDbClose \<notin> set before"
    "snd (run_service E) = before @ snd (run_keys E cfg) @
      [EvCleanup cleanup (ctx_at_end E (EvLog ''tracer successfully initialized'' # snd (run_keys E cfg))), EvDbClose]"
    using api_server_reached [OF assms(1)] by blast
  obtain ks where ks: "fst (run_keys E cfg) = fst (await_end cfg (re_end E))" "snd (run_keys E cfg) =
      [EvLog ''loaded rsa keys into in-memory keystore'', EvLog ''setting active KID was successfull''] @ snd (run_servers E cfg ks)"
    using keys_served [OF cfg(2)] by blast
  have "list_ex is_api_server (snd (run_keys E cfg))" using cfg(2) by (auto simp: list_ex_iff intro!: bexI [of _ "EvApiServer srv C"])
  then have ctx: "ctx_at_end E (EvLog ''tracer successfully initialized'' # snd (run_keys E cfg)) = Some ''context canceled''"
    using assms(2) by (simp add: ctx_at_end_def run_ctx_def ctx_err_def)
  have expired: "\<exists>m. ctx_err (with_timeout (run_ctx (re_end E)) t d) t = Some m" for d
    using assms(2) by (auto simp: run_ctx_def with_timeout_def ctx_err_def)
  have await: "fst (await_end cfg (re_end E)) = None \<longleftrightarrow> n = 0" "n \<noteq> 0 \<longrightarrow> EvServerClose \<in> set (snd (await_end cfg (re_end E)))"
    using assms(2) expired [of "wc_shutdown_timeout (sc_web cfg)"]
    by (auto simp: await_end_def server_shutdown_def Let_def split: option.splits if_splits)
  have "EvDbClose \<notin> set (snd (run_keys E cfg))"
    using ks(2) await_end_events(2) by (simp add: run_servers_def Let_def)
  then show ?thesis
    using cfg(3-5) ks await ctx
    by (auto simp: run_servers_def Let_def)
qed

section \<open>A run\<close>

definition sample_service :: "int service_config" where
  "sample_service = default_service 1\<lparr>sc_auth := default_auth\<lparr>ac_active_key := ''k1''\<rparr>, sc_tempo_host := []\<rparr>"

text \<open>One key, a tracer that exports nothing, a database that answers, and a signal with \<open>n\<close> requests in flight.\<close>

definition sample_run :: "nat \<Rightarrow> (unit, int) run_env" where
  "sample_run n =
     \<lparr>re_build = ''1.0'', re_conf = ConfOk sample_service, re_conf_string = (\<lambda>c. Ok []),
      re_sqlx_open = (\<lambda>driver url. Ok ()),
      re_driver = \<lparr>dv_ping = (\<lambda>n t. (None, 0)), dv_late = (\<lambda>n. 0), dv_select_true = (\<lambda>t. None)\<rparr>,
      re_exporters = \<lparr>ee_stdout = None, ee_http = (\<lambda>h. None), ee_grpc = (\<lambda>h. None)\<rparr>,
      re_dir_fs = (\<lambda>d. Ok sample_tree), re_jwt = sample_jwt, re_log = cf_log sample_config,
      re_base = sample_config, re_globals = \<lparr>og_provider = NoopProvider, og_propagators = []\<rparr>,
      re_end = SignalAt 5 n\<rparr>"

lemma sample_run_simps [simp]:
  "re_conf (sample_run n) = ConfOk sample_service" "re_end (sample_run n) = SignalAt 5 n"
  by (simp_all add: sample_run_def)

lemma sample_load:
  "ks_load_from_file_system sample_crypto ks_new (Ok sample_tree) = (Ok 1, sample_ks)"
proof -
  have "key_files sample_crypto ''.'' ''.'' sample_tree = [(''k1.pem'', Ok ''key one'')]"
    by (simp add: sample_tree_def sample_crypto_def path_ext_def path_join_def load_key_def max_pem_size_def)
  then show ?thesis
    by (simp add: ks_load_from_file_system_def walk_is_add sample_ks_def)
      (simp add: add_key_def ks_new_def)
qed

lemma sample_run_serves:
  "\<exists>srv C. EvApiServer srv C \<in> set (snd (run_service (sample_run n))) \<and> cf_kid C = ''k1''"
proof -
  have set_active: "ks_set_active_key sample_ks ''k1'' = (None, sample_ks\<lparr>ks_active := ''k1''\<rparr>)"
    using sample_ks_simps(2) by (auto simp: set_active_alone ks_private_key_def split: option.splits)
  show ?thesis
    apply (simp add: sample_run_def run_service_def run_traced_def db_open_def setup_otel_def sample_service_def default_service_def
        default_auth_def run_keys_def sample_load set_active run_servers_def Let_def)
    apply (intro exI conjI, rule disjI1, simp_all add: engine_config_def ks_get_active_kid_def)
    apply simp
    done
qed

theorem served_configuration_is_sound_witness:
  "\<exists>srv C k. EvApiServer srv C \<in> set (snd (run_service (sample_run 0))) \<and> as_addr srv = ''0.0.0.0:8000'' \<and>
     ks_private_key (au_state (cf_auth C)) ''k1'' = Ok k"
proof -
  obtain srv C where s: "EvApiServer srv C \<in> set (snd (run_service (sample_run 0)))" "cf_kid C = ''k1''"
    using sample_run_serves by blast
  then show ?thesis
    using served_configuration_is_sound [OF s(1)]
    by (auto simp: sample_service_def default_service_def default_web_def intro!: exI [of _ srv] exI [of _ C])
qed

theorem shutdown_does_not_wait_witness:
  "fst (run_service (sample_run 0)) = None \<and> fst (run_service (sample_run 3)) \<noteq> None \<and>
     EvServerClose \<in> set (snd (run_service (sample_run 3)))"
  using shutdown_does_not_wait [of _ _ "sample_run 0" 5 0] shutdown_does_not_wait [of _ _ "sample_run 3" 5 3]
    sample_run_serves [of 0] sample_run_serves [of 3]
  by auto

end
