(* ===== verification/Docker.thy ===== *)
theory Docker
  imports GoErrors
begin

text \<open>
  \<^verbatim>\<open>pkg/docker/docker.go\<close>: containers for the tests, by running the \<^verbatim>\<open>docker\<close> command. The state is the
  list of the commands that have been run; what a command prints and whether it fails is a parameter
  that may depend on it, and so is the JSON decoder of the output of \<^verbatim>\<open>docker inspect\<close>. The waiting
  between the tries has no effect on the state.
\<close>

type_synonym docker_args = "string list"

type_synonym docker_st = "docker_args list"

record port_binding =
  pb_host_ip :: string
  pb_host_port :: string

record container_info =
  ci_ports :: "(string \<times> port_binding list) list"

record docker_env =
  de_run :: "docker_st \<Rightarrow> docker_args \<Rightarrow> string \<times> go_err option"
  de_decode :: "string \<Rightarrow> container_info list res"

record container =
  co_name :: string
  co_host_port :: string

text \<open>A function returns a value and an error, or panics.\<close>

datatype 'a returns = Returns "'a res" | Panics string

definition docker_run :: "docker_env \<Rightarrow> docker_args \<Rightarrow> docker_st \<Rightarrow> (string \<times> go_err option) \<times> docker_st" where
  "docker_run D args st = (de_run D st args, st @ [args])"

text \<open>\<^verbatim>\<open>net.JoinHostPort\<close>.\<close>

definition join_host_port :: "string \<Rightarrow> string \<Rightarrow> string" where
  "join_host_port host port =
     (if CHR '':'' \<in> set host \<or> CHR ''%'' \<in> set host then ''['' @ host @ '']:'' @ port else host @ '':'' @ port)"

section \<open>extractIPPort and exists\<close>

text \<open>
  The loop over the bindings. For a binding without an address it returns the port of the caller's
  frame, which is still empty.
\<close>

fun first_binding :: "port_binding list \<Rightarrow> (string \<times> string) option" where
  "first_binding [] = None"
| "first_binding (host # hosts) =
     (if pb_host_ip host \<noteq> ''::''
      then (if pb_host_ip host = [] then Some (''localhost'', [])
            else Some (pb_host_ip host, pb_host_port host))
      else first_binding hosts)"

definition extract_ip_port ::
  "docker_env \<Rightarrow> string \<Rightarrow> string \<Rightarrow> docker_st \<Rightarrow> (string \<times> string) returns \<times> docker_st" where
  "extract_ip_port D container_id port st =
     (case docker_run D [''docker'', ''inspect'', container_id] st of
        ((output, Some err), st) \<Rightarrow>
          (Returns (Err (ErrWrap (''running docker inspect on container '' @ container_id) err)), st)
      | ((output, None), st) \<Rightarrow>
          (case de_decode D output of
             Err decode_err \<Rightarrow> (Returns (Err (ErrPlain ''decoding containerInfos: %!w(<nil>)'')), st)
           | Ok [] \<Rightarrow> (Panics ''runtime error: index out of range [0] with length 0'', st)
           | Ok (info # _) \<Rightarrow>
               (case first_binding (case map_of (ci_ports info) (port @ ''/tcp'') of None \<Rightarrow> [] | Some bs \<Rightarrow> bs) of
                  Some (host_ip, host_port) \<Rightarrow> (Returns (Ok (host_ip, host_port)), st)
                | None \<Rightarrow> (Returns (Err (ErrPlain (''host:port not found for container '' @ container_id))), st))))"

definition container_exists :: "docker_env \<Rightarrow> string \<Rightarrow> string \<Rightarrow> docker_st \<Rightarrow> container returns \<times> docker_st" where
  "container_exists D name port st =
     (case extract_ip_port D name port st of
        (Returns (Ok (host_ip, host_port)), st) \<Rightarrow>
          (Returns (Ok \<lparr>co_name = name, co_host_port = join_host_port host_ip host_port\<rparr>), st)
      | (Returns (Err err), st) \<Rightarrow> (Returns (Err (ErrPlain (''container with name/id '' @ name @ '' not found''))), st)
      | (Panics m, st) \<Rightarrow> (Panics m, st))"

section \<open>StopContainer and DumpContainerLogs\<close>

text \<open>The message has the text of the error and does not wrap it.\<close>

definition stop_container :: "docker_env \<Rightarrow> string \<Rightarrow> docker_st \<Rightarrow> go_err option \<times> docker_st" where
  "stop_container D container st =
     (case docker_run D [''docker'', ''stop'', container] st of
        ((_, Some err), st) \<Rightarrow> (Some (ErrPlain (''failed to stop container '' @ container @ '': '' @ err_msg err)), st)
      | ((_, None), st) \<Rightarrow>
          (case docker_run D [''docker'', ''rm'', container, ''-v''] st of
             ((_, Some err), st) \<Rightarrow>
               (Some (ErrPlain (''failed to remove volume '' @ container @ '': '' @ err_msg err)), st)
           | ((_, None), st) \<Rightarrow> (None, st)))"

definition dump_container_logs :: "docker_env \<Rightarrow> string \<Rightarrow> docker_st \<Rightarrow> string \<times> docker_st" where
  "dump_container_logs D container st =
     (case docker_run D [''docker'', ''logs'', container] st of
        ((_, Some err), st) \<Rightarrow> ([], st)
      | ((out, None), st) \<Rightarrow> (out, st))"

section \<open>StartContainer\<close>

text \<open>A container that exists is returned as it is. The id is the first 12 bytes that \<^verbatim>\<open>docker run\<close> prints.\<close>

definition start_container_once ::
  "docker_env \<Rightarrow> string \<Rightarrow> string \<Rightarrow> string \<Rightarrow> string list \<Rightarrow> string list \<Rightarrow> docker_st \<Rightarrow> container returns \<times> docker_st" where
  "start_container_once D img name port docker_as container_as st =
     (case container_exists D name port st of
        (Returns (Ok c), st) \<Rightarrow> (Returns (Ok c), st)
      | (Panics m, st) \<Rightarrow> (Panics m, st)
      | (Returns (Err _), st) \<Rightarrow>
     (case docker_run D [''docker'', ''rm'', name, ''-v''] st of
        (_, st) \<Rightarrow>
     (case docker_run D ([''docker'', ''run'', ''-P'', ''-d'', ''--name'', name] @ docker_as @ [img] @ container_as) st of
        ((_, Some err), st) \<Rightarrow> (Returns (Err (ErrWrap ''running docker command failed'' err)), st)
      | ((out, None), st) \<Rightarrow>
          if length out < 12 then
            (Panics (''runtime error: slice bounds out of range [:12] with length '' @ itoa (int (length out))), st)
          else (let cid = take 12 out in
     (case extract_ip_port D cid port st of
        (Panics m, st) \<Rightarrow> (Panics m, st)
      | (Returns (Err err), st) \<Rightarrow>
          (case stop_container D cid st of
             (_, st) \<Rightarrow> (Returns (Err (ErrWrap ''extract IP port failed'' err)), st))
      | (Returns (Ok (host_ip, host_port)), st) \<Rightarrow>
          (Returns (Ok \<lparr>co_name = name, co_host_port = join_host_port host_ip host_port\<rparr>), st))))))"

text \<open>Two tries whose error is dropped, and a last one.\<close>

fun start_container ::
  "nat \<Rightarrow> docker_env \<Rightarrow> string \<Rightarrow> string \<Rightarrow> string \<Rightarrow> string list \<Rightarrow> string list \<Rightarrow> docker_st \<Rightarrow>
     container returns \<times> docker_st" where
  "start_container 0 D img name port docker_as container_as st =
     start_container_once D img name port docker_as container_as st"
| "start_container (Suc n) D img name port docker_as container_as st =
     (case start_container_once D img name port docker_as container_as st of
        (Returns (Err err), st) \<Rightarrow> start_container n D img name port docker_as container_as st
      | (r, st) \<Rightarrow> (r, st))"

definition StartContainer ::
  "docker_env \<Rightarrow> string \<Rightarrow> string \<Rightarrow> string \<Rightarrow> string list \<Rightarrow> string list \<Rightarrow> docker_st \<Rightarrow>
     container returns \<times> docker_st" where
  "StartContainer = start_container 2"

section \<open>What a start does\<close>

definition is_run :: "docker_args \<Rightarrow> bool" where
  "is_run args \<longleftrightarrow> take 2 args = [''docker'', ''run'']"

lemma not_run_inspect [simp]: "\<not> is_run [''docker'', ''inspect'', cid]"
  by (simp add: is_run_def)

text \<open>The last command was an inspection whose output has the address that is returned.\<close>

definition inspected :: "docker_env \<Rightarrow> string \<Rightarrow> string \<Rightarrow> docker_st \<Rightarrow> bool" where
  "inspected D port addr st \<longleftrightarrow>
     (\<exists>pre cid out info infos bs ip p. st = pre @ [[''docker'', ''inspect'', cid]] \<and>
        de_run D pre [''docker'', ''inspect'', cid] = (out, None) \<and> de_decode D out = Ok (info # infos) \<and>
        map_of (ci_ports info) (port @ ''/tcp'') = Some bs \<and> first_binding bs = Some (ip, p) \<and>
        addr = join_host_port ip p)"

lemma extract_spec:
  assumes "extract_ip_port D cid port st = (r, st')"
  shows "st' = st @ [[''docker'', ''inspect'', cid]] \<and>
    (\<forall>ip p. r = Returns (Ok (ip, p)) \<longrightarrow> inspected D port (join_host_port ip p) st')"
proof -
  obtain out e where o: "de_run D st [''docker'', ''inspect'', cid] = (out, e)" by fastforce
  show ?thesis
  proof (cases e)
    case None
    show ?thesis
    proof (cases "de_decode D out")
      case (Inr infos)
      then show ?thesis
        using assms o None
        by (cases infos; cases "map_of (ci_ports (hd infos)) (port @ ''/tcp'')")
          (auto simp: extract_ip_port_def docker_run_def inspected_def split: option.splits)
    qed (use assms o None in \<open>auto simp: extract_ip_port_def docker_run_def\<close>)
  qed (use assms o in \<open>auto simp: extract_ip_port_def docker_run_def\<close>)
qed

lemma stop_spec:
  "stop_container D c st = (r, st') \<Longrightarrow> \<exists>cmds. st' = st @ cmds \<and> filter is_run cmds = []"
  by (auto simp: stop_container_def docker_run_def is_run_def split: prod.splits option.splits)

lemma exists_spec:
  assumes "container_exists D name port st = (r, st')"
  shows "st' = st @ [[''docker'', ''inspect'', name]] \<and>
    (\<forall>c. r = Returns (Ok c) \<longrightarrow> co_name c = name \<and> inspected D port (co_host_port c) st')"
proof -
  obtain q st'' where q: "extract_ip_port D name port st = (q, st'')" by fastforce
  show ?thesis
    using extract_spec [OF q] assms q
    by (auto simp: container_exists_def split: returns.splits sum.splits)
qed

lemma start_once_spec:
  assumes "start_container_once D img name port das cas st = (r, st')"
  shows "\<exists>cmds. st' = st @ [''docker'', ''inspect'', name] # cmds \<and> length (filter is_run cmds) \<le> 1 \<and>
    (\<forall>c. r = Returns (Ok c) \<longrightarrow> co_name c = name \<and> inspected D port (co_host_port c) st')"
proof -
  obtain q s1 where q: "container_exists D name port st = (q, s1)" by fastforce
  note ex = exists_spec [OF q]
  consider (found) "\<nexists>e. q = Returns (Err e)" | (absent) e where "q = Returns (Err e)" by blast
  then show ?thesis
  proof cases
    case found
    then show ?thesis
      using assms q ex by (cases q) (auto simp: start_container_once_def split: sum.splits)
  next
    case absent
    let ?rm = "[''docker'', ''rm'', name, ''-v'']"
    let ?run = "[''docker'', ''run'', ''-P'', ''-d'', ''--name'', name] @ das @ [img] @ cas"
    let ?s = "s1 @ [?rm, ?run]"
    obtain out e where o: "de_run D (s1 @ [?rm]) ?run = (out, e)" by fastforce
    obtain x s2 where x: "extract_ip_port D (take 12 out) port ?s = (x, s2)" by fastforce
    obtain y s3 where y: "stop_container D (take 12 out) s2 = (y, s3)" by fastforce
    have r: "\<not> is_run ?rm" "is_run ?run" "\<not> is_run [''docker'', ''inspect'', cid]" for cid by (simp_all add: is_run_def)
    show ?thesis
      using assms q ex o x y absent extract_spec [OF x] stop_spec [OF y] r
      by (auto simp: start_container_once_def docker_run_def Let_def split: option.splits if_splits returns.splits sum.splits)
  qed
qed

text \<open>
  \<^verbatim>\<open>StartContainer\<close> runs at most three containers, and a container that it returns has the name that
  was asked for and the address that its last command, an inspection, has printed. When a container with
  the name can be inspected it runs nothing but that inspection. A binding without an address loses its
  port: the address is then \<^verbatim>\<open>localhost:\<close>.
\<close>

lemma start_container_spec:
  assumes "StartContainer D img name port das cas st = (r, st')"
  shows "\<exists>cmds. st' = st @ cmds \<and> length (filter is_run cmds) \<le> 3 \<and>
    (\<forall>c. r = Returns (Ok c) \<longrightarrow> co_name c = name \<and> inspected D port (co_host_port c) st') \<and>
    (\<forall>c s. container_exists D name port st = (Returns (Ok c), s) \<longrightarrow>
       r = Returns (Ok c) \<and> cmds = [[''docker'', ''inspect'', name]]) \<and>
    first_binding [\<lparr>pb_host_ip = [], pb_host_port = ''49153''\<rparr>] = Some (''localhost'', []) \<and>
    join_host_port ''localhost'' [] = ''localhost:''"
proof -
  have tries: "start_container n D img name port das cas st = (r, st') \<Longrightarrow>
      \<exists>cmds. st' = st @ cmds \<and> length (filter is_run cmds) \<le> Suc n \<and>
        (\<forall>c. r = Returns (Ok c) \<longrightarrow> co_name c = name \<and> inspected D port (co_host_port c) st')" for n st
  proof (induction n arbitrary: st)
    case 0
    then show ?case using start_once_spec [of D img name port das cas st r st'] by auto
  next
    case (Suc n)
    obtain q s where q: "start_container_once D img name port das cas st = (q, s)" by fastforce
    then obtain cmds where c: "s = st @ cmds" "length (filter is_run cmds) \<le> 1"
      "\<forall>c. q = Returns (Ok c) \<longrightarrow> co_name c = name \<and> inspected D port (co_host_port c) s"
      using start_once_spec [OF q] by auto
    show ?case
    proof (cases "\<exists>e. q = Returns (Err e)")
      case True
      then have "start_container n D img name port das cas s = (r, st')" using Suc.prems q by auto
      from Suc.IH [OF this] show ?thesis using c(1,2) by force
    next
      case False
      then have "q = r" "s = st'" using Suc.prems q by (auto split: returns.splits sum.splits)
      then show ?thesis using c by auto
    qed
  qed
  have running: "r = Returns (Ok c) \<and> st' = st @ [[''docker'', ''inspect'', name]]"
    if "container_exists D name port st = (Returns (Ok c), s)" for c s
    using assms that exists_spec [OF that]
    by (auto simp: StartContainer_def numeral_2_eq_2 start_container_once_def)
  obtain cmds where cmds: "st' = st @ cmds" "length (filter is_run cmds) \<le> 3"
    "\<forall>c. r = Returns (Ok c) \<longrightarrow> co_name c = name \<and> inspected D port (co_host_port c) st'"
    using tries [of 2 st] assms by (auto simp: StartContainer_def)
  show ?thesis
  proof (intro exI conjI allI impI; (elim exE)?)
    show "st' = st @ cmds" by (fact cmds(1))
    show "length (filter is_run cmds) \<le> 3" by (fact cmds(2))
    show "co_name c = name" "inspected D port (co_host_port c) st'" if "r = Returns (Ok c)" for c
      using that cmds(3) by blast+
    show "r = Returns (Ok c)" if "container_exists D name port st = (Returns (Ok c), s)" for c s
      using running [OF that] by blast
    show "cmds = [[''docker'', ''inspect'', name]]" if "container_exists D name port st = (Returns (Ok c), s)" for c s
      using running [OF that] cmds(1) by simp
  qed (simp_all add: join_host_port_def)
qed

definition sample_docker :: docker_env where
  "sample_docker =
     \<lparr>de_run = (\<lambda>st args. if args = [''docker'', ''inspect'', ''pg''] then ([], Some (ErrPlain ''exit status 1''))
                        else (''0123456789abcdef'', None)),
      de_decode = (\<lambda>s. Ok [\<lparr>ci_ports = [(''5432/tcp'', [\<lparr>pb_host_ip = ''0.0.0.0'', pb_host_port = ''49153''\<rparr>])]\<rparr>])\<rparr>"

lemma start_container_spec_witness:
  "\<exists>st. StartContainer sample_docker ''postgres:17'' ''pg'' ''5432'' [] [] [] =
       (Returns (Ok \<lparr>co_name = ''pg'', co_host_port = ''0.0.0.0:49153''\<rparr>), st) \<and> length (filter is_run st) \<le> 3"
proof -
  have "fst (StartContainer sample_docker ''postgres:17'' ''pg'' ''5432'' [] [] []) =
      Returns (Ok \<lparr>co_name = ''pg'', co_host_port = ''0.0.0.0:49153''\<rparr>)"
    by code_simp
  then obtain st where "StartContainer sample_docker ''postgres:17'' ''pg'' ''5432'' [] [] [] =
      (Returns (Ok \<lparr>co_name = ''pg'', co_host_port = ''0.0.0.0:49153''\<rparr>), st)"
    by (metis prod.collapse)
  then show ?thesis using start_container_spec [of sample_docker "''postgres:17''" "''pg''" "''5432''" "[]" "[]" "[]"] by auto
qed

end
