(* ===== verification/Admin.thy ===== *)
theory Admin
  imports Connection
begin

text \<open>
  \<^verbatim>\<open>internal/migrate/migrate.go\<close> and \<^verbatim>\<open>cmd/admin\<close>: running the migrations, and the command that does it.
  The migration library and what \<^verbatim>\<open>cobra\<close> makes of a command line are parameters.
\<close>

section \<open>Migrate\<close>

text \<open>\<open>mi_up\<close> applies the migrations that are missing to the database; \<open>'d\<close> is its state.\<close>

record ('db, 'd) migrate_env =
  mi_with_instance :: "'db \<Rightarrow> go_err option"
  mi_iofs_new :: "string \<Rightarrow> go_err option"
  mi_new_instance :: "string \<Rightarrow> string \<Rightarrow> go_err option"
  mi_up :: "'db \<Rightarrow> 'd \<Rightarrow> go_err option \<times> 'd"

definition ErrNoChange :: go_err where "ErrNoChange = ErrPlain ''no change''"

definition run_migrations ::
  "('db, 'd) migrate_env \<Rightarrow> 'db \<Rightarrow> string \<Rightarrow> 'd \<Rightarrow> go_err option \<times> 'd" where
  "run_migrations E db dbname d =
     (case mi_with_instance E db of
        Some err \<Rightarrow> (Some (ErrWrap ''creating dirver'' err), d)
      | None \<Rightarrow>
     (case mi_iofs_new E ''sql'' of
        Some err \<Rightarrow> (Some (ErrWrap ''creating source from fs'' err), d)
      | None \<Rightarrow>
     (case mi_new_instance E ''iofs'' dbname of
        Some err \<Rightarrow> (Some (ErrWrap ''creating migration instance'' err), d)
      | None \<Rightarrow>
     (case mi_up E db d of
        (Some err, d) \<Rightarrow> if err \<noteq> ErrNoChange then (Some (ErrWrap ''migration up'' err), d) else (None, d)
      | (None, d) \<Rightarrow> (None, d)))))"

section \<open>The migrate command\<close>

record migrate_flags =
  mf_dbuser :: string
  mf_dbpass :: string
  mf_host :: string
  mf_name :: string

definition default_flags :: migrate_flags where
  "default_flags =
     \<lparr>mf_dbuser = ''postgres'', mf_dbpass = ''postgres'', mf_host = ''localhost:5432'', mf_name = ''postgres''\<rparr>"

text \<open>The flags by name, with the letter of those that have one.\<close>

definition migrate_flag_table :: "(string \<times> string \<times> (string \<Rightarrow> migrate_flags \<Rightarrow> migrate_flags)) list" where
  "migrate_flag_table =
     [(''user'', ''u'', \<lambda>v f. f\<lparr>mf_dbuser := v\<rparr>), (''pass'', ''p'', \<lambda>v f. f\<lparr>mf_dbpass := v\<rparr>),
      (''host'', [], \<lambda>v f. f\<lparr>mf_host := v\<rparr>), (''name'', ''n'', \<lambda>v f. f\<lparr>mf_name := v\<rparr>)]"

fun set_flags :: "(string \<times> string) list \<Rightarrow> migrate_flags \<Rightarrow> migrate_flags res" where
  "set_flags [] f = Ok f"
| "set_flags ((k, v) # kvs) f =
     (case map_of migrate_flag_table k of
        None \<Rightarrow> Err (ErrPlain (''unknown flag: --'' @ k))
      | Some (_, upd) \<Rightarrow> set_flags kvs (upd v f))"

definition migrate_pre_run :: "migrate_flags \<Rightarrow> go_err option" where
  "migrate_pre_run f =
     (if mf_dbuser f = [] then Some (ErrPlain ''database user is required (--user)'')
      else if mf_dbpass f = [] then Some (ErrPlain ''database password is required (--pass)'')
      else if mf_host f = [] then Some (ErrPlain ''database host is required (--host)'')
      else if mf_name f = [] then Some (ErrPlain ''database name is required (--name)'')
      else None)"

text \<open>The output is the lines that are printed; the connection is closed at the end in every case.\<close>

datatype cli_line = CliPrint string | CliClose

definition migrate_run ::
  "(string \<Rightarrow> string \<Rightarrow> 'db res) \<Rightarrow> ('db, 'd) migrate_env \<Rightarrow> migrate_flags \<Rightarrow> 'd \<Rightarrow>
     go_err option \<times> cli_line list \<times> 'd" where
  "migrate_run sqlx_open E f d =
     (let out = [CliPrint ''applying migrations...''] in
      case db_open sqlx_open
             \<lparr>db_user = mf_dbuser f, db_password = mf_dbpass f, db_host = mf_host f, db_name = mf_name f,
              db_schema = [], db_max_idle_conns = 0, db_max_open_conns = 0, db_disable_tls = True\<rparr> of
        Err err \<Rightarrow> (Some (ErrWrap ''open connection'' err), out, d)
      | Ok db \<Rightarrow>
          (case run_migrations E db (mf_name f) d of
             (Some err, d) \<Rightarrow> (Some (ErrWrap ''migrate'' err), out @ [CliClose], d)
           | (None, d) \<Rightarrow> (None, out @ [CliPrint ''migration completed!'', CliClose], d)))"

text \<open>What the command line asks for: the help of the root command, or the migration with some flags.\<close>

datatype cli_call = CliRoot | CliMigrate "(string \<times> string) list"

definition cli_execute ::
  "(string \<Rightarrow> string \<Rightarrow> 'db res) \<Rightarrow> ('db, 'd) migrate_env \<Rightarrow> cli_call \<Rightarrow> 'd \<Rightarrow> go_err option \<times> cli_line list \<times> 'd" where
  "cli_execute sqlx_open E call d =
     (case call of
        CliRoot \<Rightarrow> (None, [CliPrint ''help''], d)
      | CliMigrate kvs \<Rightarrow>
          (case set_flags kvs default_flags of
             Err err \<Rightarrow> (Some err, [], d)
           | Ok f \<Rightarrow>
               (case migrate_pre_run f of
                  Some err \<Rightarrow> (Some err, [], d)
                | None \<Rightarrow> migrate_run sqlx_open E f d)))"

definition admin_main ::
  "(string \<Rightarrow> string \<Rightarrow> 'db res) \<Rightarrow> ('db, 'd) migrate_env \<Rightarrow> cli_call \<Rightarrow> 'd \<Rightarrow> int \<times> cli_line list \<times> 'd" where
  "admin_main sqlx_open E call d =
     (case cli_execute sqlx_open E call d of
        (Some err, out, d) \<Rightarrow> (1, out @ [CliPrint (err_msg err)], d)
      | (None, out, d) \<Rightarrow> (0, out, d))"

text \<open>
  The command changes the database only when every flag is there, reports success exactly when the
  migrations are applied or there was nothing to apply, and does not know the \<^verbatim>\<open>--dbname\<close> of its own help.
\<close>

lemma admin_main_success:
  assumes "admin_main sqlx_open E (CliMigrate []) d = (0, out, d')"
  shows "\<exists>db r. sqlx_open ''pgx'' (dsn \<lparr>db_user = ''postgres'', db_password = ''postgres'', db_host = ''localhost:5432'',
      db_name = ''postgres'', db_schema = [], db_max_idle_conns = 0, db_max_open_conns = 0, db_disable_tls = True\<rparr>) = Ok db \<and>
    mi_up E db d = (r, d') \<and> (r = None \<or> r = Some ErrNoChange)"
  using assms
  by (auto simp: admin_main_def cli_execute_def default_flags_def migrate_pre_run_def migrate_run_def run_migrations_def
      db_open_def split: sum.splits option.splits prod.splits if_splits)

lemma no_dbname_flag: "set_flags [(''dbname'', v)] f = Err (ErrPlain ''unknown flag: --dbname'')"
  by (simp add: migrate_flag_table_def)

end
