(* ===== verification/DbTest.thy ===== *)
theory DbTest
  imports Docker Admin
begin

text \<open>
  \<^verbatim>\<open>internal/dbtest/dbtest.go\<close>: a database of its own for a test, in a container of PostgreSQL. The letters
  that are drawn and what the server does with a statement are parameters; \<open>'d\<close> is the state of the server.
\<close>

record ('db, 'd) dbtest_env =
  dt_docker :: docker_env
  dt_open :: "string \<Rightarrow> string \<Rightarrow> 'db res"
  dt_driver :: "'db \<Rightarrow> driver"
  dt_exec :: "'db \<Rightarrow> string \<Rightarrow> string list \<Rightarrow> 'd \<Rightarrow> go_err option \<times> 'd"
  dt_migrate :: "('db, 'd) migrate_env"
  dt_int_n :: "nat \<Rightarrow> nat \<Rightarrow> nat"

text \<open>What a test logs, and the end of a test by \<^verbatim>\<open>t.Fatalf\<close>.\<close>

datatype test_line = TLog string | TFatal string

text \<open>The state of the server, the commands of docker and the log of the test.\<close>

record 'd test_st =
  ts_server :: 'd
  ts_docker :: docker_st
  ts_log :: "test_line list"

definition tab_char :: string where "tab_char = [char_of (9::nat)]"

definition new_line :: string where "new_line = [char_of (10::nat)]"

definition t_logf :: "string \<Rightarrow> 'd test_st \<Rightarrow> 'd test_st" where
  "t_logf m st = st\<lparr>ts_log := ts_log st @ [TLog m]\<rparr>"

definition t_fatalf :: "string \<Rightarrow> 'd test_st \<Rightarrow> 'd test_st" where
  "t_fatalf m st = st\<lparr>ts_log := ts_log st @ [TFatal m]\<rparr>"

definition create_db_container :: "docker_env \<Rightarrow> docker_st \<Rightarrow> container returns \<times> docker_st" where
  "create_db_container D st =
     (case StartContainer D ''postgres:17'' ''bustest'' ''5432'' [''-e'', ''POSTGRES_PASSWORD=postgres'']
             [''-c'', ''log_statement=all''] st of
        (Returns (Err err), st) \<Rightarrow> (Returns (Err (ErrWrap ''startContainer'' err)), st)
      | (r, st) \<Rightarrow> (r, st))"

text \<open>Four letters, each from one draw below 26.\<close>

definition db_letters :: string where "db_letters = ''abcdefghijklmnopqrstuvwxyz''"

definition random_db_name :: "(nat \<Rightarrow> nat \<Rightarrow> nat) \<Rightarrow> string" where
  "random_db_name int_n = map (\<lambda>i. db_letters ! int_n i (length db_letters)) [0..<4]"

definition test_db_config :: "container \<Rightarrow> string \<Rightarrow> db_config" where
  "test_db_config c name =
     \<lparr>db_user = ''postgres'', db_password = ''postgres'', db_host = co_host_port c, db_name = name,
      db_schema = [], db_max_idle_conns = 0, db_max_open_conns = 0, db_disable_tls = True\<rparr>"

definition test_exec ::
  "('db, 'd) dbtest_env \<Rightarrow> 'db \<Rightarrow> string \<Rightarrow> string list \<Rightarrow> 'd test_st \<Rightarrow> go_err option \<times> 'd test_st" where
  "test_exec E db q args st = (case dt_exec E db q args (ts_server st) of (e, d) \<Rightarrow> (e, st\<lparr>ts_server := d\<rparr>))"

text \<open>
  The result is the connections that the cleanup needs and the name, if the test goes on. The time is the
  one at which the context is made.
\<close>

definition dbtest_new ::
  "('db, 'd) dbtest_env \<Rightarrow> container \<Rightarrow> gotime \<Rightarrow> 'd test_st \<Rightarrow> ('db \<times> 'db \<times> string) option \<times> 'd test_st" where
  "dbtest_new E c now st =
     (let st = t_logf (''HostPort:'' @ tab_char @ co_host_port c @ new_line) (t_logf (''Name:'' @ tab_char @ co_name c @ new_line) st) in
      case db_open (dt_open E) (test_db_config c ''postgres'') of
        Err err \<Rightarrow> (None, t_fatalf (''open conn: '' @ err_msg err) st)
      | Ok master \<Rightarrow>
     (case conn_check (dt_driver E master)
             (with_timeout \<lparr>gc_deadline = None, gc_cancelled = None\<rparr> now (120000 * millisecond)) now of
        (Some err, _) \<Rightarrow> (None, t_fatalf (''connCheck: '' @ err_msg err) st)
      | (None, _) \<Rightarrow>
     (let name = random_db_name (dt_int_n E); st = t_logf (''creating database: '' @ name @ new_line) st in
      case test_exec E master (''CREATE DATABASE '' @ name) [] st of
        (Some err, st) \<Rightarrow> (None, t_fatalf (''execContext: '' @ err_msg err) st)
      | (None, st) \<Rightarrow>
     (case db_open (dt_open E) (test_db_config c name) of
        Err err \<Rightarrow> (None, t_fatalf (''open:'' @ name @ '':'' @ err_msg err) st)
      | Ok db \<Rightarrow>
     (let st = t_logf (''running migrations against: '' @ name @ new_line) st in
      case run_migrations (dt_migrate E) db name (ts_server st) of
        (Some err, d) \<Rightarrow>
          (case dump_container_logs (dt_docker E) (co_name c) (ts_docker st) of
             (logs, ds) \<Rightarrow>
               (None, t_fatalf (''migration failed: '' @ err_msg err)
                  (t_logf (''logs for: '' @ co_name c @ new_line @ logs @ new_line) (st\<lparr>ts_server := d, ts_docker := ds\<rparr>))))
      | (None, d) \<Rightarrow> (Some (master, db, name), st\<lparr>ts_server := d\<rparr>))))))"

text \<open>What \<^verbatim>\<open>t.Cleanup\<close> is given: whether the test goes on, and the state.\<close>

definition terminate_query :: string where
  "terminate_query = ''SELECT pg_terminate_backend(pid) FROM pg_stat_activity WHERE datname = $1''"

definition dbtest_cleanup ::
  "('db, 'd) dbtest_env \<Rightarrow> 'db \<times> 'db \<times> string \<Rightarrow> 'd test_st \<Rightarrow> 'd test_st" where
  "dbtest_cleanup E r st =
     (case r of (master, db, name) \<Rightarrow>
     (case test_exec E master terminate_query [name] st of
        (Some err, st) \<Rightarrow> t_fatalf (''terminating conn for '' @ name @ '': '' @ err_msg err) st
      | (None, st) \<Rightarrow>
     (let st = t_logf (''Drop Database '' @ name @ new_line) st in
      case test_exec E master (''DROP DATABASE '' @ name) [] st of
        (Some err, st) \<Rightarrow> t_fatalf (''dropping database '' @ name @ '': '' @ err_msg err) st
      | (None, st) \<Rightarrow> st)))"

section \<open>The name of the database\<close>

text \<open>Four lower-case letters, which nothing keeps from being a word that the server reserves.\<close>

lemma random_db_name_letters:
  assumes "\<And>i. int_n i 26 < 26"
  shows "length (random_db_name int_n) = 4 \<and> set (random_db_name int_n) \<subseteq> set db_letters"
proof -
  have n: "length db_letters = 26" by (simp add: db_letters_def)
  then have "db_letters ! int_n i 26 \<in> set db_letters" for i by (intro nth_mem) (simp add: assms)
  then show ?thesis using n by (auto simp: random_db_name_def)
qed

lemma random_db_name_reserved:
  "random_db_name (\<lambda>i n. [20, 18, 4, 17] ! i) = ''user''"
  by code_simp

text \<open>The test fails and is given no database, or it goes on with nothing fatal in its log.\<close>

lemma dbtest_new_goes_on:
  assumes "dbtest_new E c now st = (Some (master, db, name), st')" "\<forall>m. TFatal m \<notin> set (ts_log st)"
  shows "(\<forall>m. TFatal m \<notin> set (ts_log st')) \<and> name = random_db_name (dt_int_n E) \<and>
    (\<exists>d. dt_exec E master (''CREATE DATABASE '' @ name) [] (ts_server st) = (None, d) \<and>
       run_migrations (dt_migrate E) db name d = (None, ts_server st'))"
  using assms
  by (auto simp: dbtest_new_def test_exec_def t_logf_def Let_def split: sum.splits prod.splits option.splits)

end
