(* ===== verification/Concurrency.thy ===== *)
theory Concurrency
  imports DataProperties
begin

text \<open>
  Requests are served by goroutines of their own, on one database. What one goroutine does to the state
  that all share is a sequence of single accesses, a reading of the clock or of the random source or one
  statement, which the database carries out as a whole; between any two of them the others may do theirs.
  Here the operations of \<^verbatim>\<open>bus.go\<close> are such sequences, proved equal to the operations of \<open>UserBus\<close> when nothing
  comes between, and a pool of them is run in any order.
\<close>

section \<open>Sequences of accesses\<close>

datatype 'r task =
    Returned 'r
  | Reading "nat \<Rightarrow> 'r task"
  | Creating user "go_err option \<Rightarrow> 'r task"
  | Updating user "go_err option \<Rightarrow> 'r task"
  | Deleting user "go_err option \<Rightarrow> 'r task"
  | ById uuid "user res \<Rightarrow> 'r task"
  | ByEmail mail_address "user res \<Rightarrow> 'r task"
  | Listing query_filter order_field page "user list res \<Rightarrow> 'r task"
  | Counting query_filter "int res \<Rightarrow> 'r task"

text \<open>One access to the store.\<close>

definition access :: "('s \<Rightarrow> 'a \<times> 's) \<Rightarrow> ('a \<Rightarrow> 'b) \<Rightarrow> 's world \<Rightarrow> 'b \<times> 's world" where
  "access op k w = (case op (wd_store w) of (r, s) \<Rightarrow> (k r, w\<lparr>wd_store := s\<rparr>))"

fun task_step :: "'s store_api \<Rightarrow> 'r task \<Rightarrow> 's world \<Rightarrow> 'r task \<times> 's world" where
  "task_step api (Returned r) w = (Returned r, w)"
| "task_step api (Reading k) w = (k (reads w), w\<lparr>reads := Suc (reads w)\<rparr>)"
| "task_step api (Creating u k) w = access (\<lambda>s. sa_create api s u) k w"
| "task_step api (Updating u k) w = access (\<lambda>s. sa_update api s u) k w"
| "task_step api (Deleting u k) w = access (\<lambda>s. sa_delete api s u) k w"
| "task_step api (ById i k) w = access (\<lambda>s. sa_query_by_id api s i) k w"
| "task_step api (ByEmail m k) w = access (\<lambda>s. sa_query_by_email api s m) k w"
| "task_step api (Listing f ord p k) w = access (\<lambda>s. sa_query api s f ord p) k w"
| "task_step api (Counting f k) w = access (\<lambda>s. sa_count api s f) k w"

text \<open>A task that runs alone.\<close>

definition resume :: "('a \<Rightarrow> 's world \<Rightarrow> 'r \<times> 's world) \<times> ('a \<times> 's world) \<Rightarrow> 'r \<times> 's world" where
  "resume = (\<lambda>(k, r, w). k r w)"

primrec run_task :: "'s store_api \<Rightarrow> 'r task \<Rightarrow> 's world \<Rightarrow> 'r \<times> 's world" where
  "run_task api (Returned r) = (\<lambda>w. (r, w))"
| "run_task api (Reading k) = (\<lambda>w. resume (\<lambda>n. run_task api (k n), reads w, w\<lparr>reads := Suc (reads w)\<rparr>))"
| "run_task api (Creating u k) = (\<lambda>w. resume (\<lambda>r. run_task api (k r), access (\<lambda>s. sa_create api s u) id w))"
| "run_task api (Updating u k) = (\<lambda>w. resume (\<lambda>r. run_task api (k r), access (\<lambda>s. sa_update api s u) id w))"
| "run_task api (Deleting u k) = (\<lambda>w. resume (\<lambda>r. run_task api (k r), access (\<lambda>s. sa_delete api s u) id w))"
| "run_task api (ById i k) = (\<lambda>w. resume (\<lambda>r. run_task api (k r), access (\<lambda>s. sa_query_by_id api s i) id w))"
| "run_task api (ByEmail m k) = (\<lambda>w. resume (\<lambda>r. run_task api (k r), access (\<lambda>s. sa_query_by_email api s m) id w))"
| "run_task api (Listing f ord p k) = (\<lambda>w. resume (\<lambda>r. run_task api (k r), access (\<lambda>s. sa_query api s f ord p) id w))"
| "run_task api (Counting f k) = (\<lambda>w. resume (\<lambda>r. run_task api (k r), access (\<lambda>s. sa_count api s f) id w))"

lemma run_task_step:
  "run_task api t w = (case task_step api t w of (t', w') \<Rightarrow> run_task api t' w')"
  by (cases t) (simp_all add: resume_def access_def split: prod.split)

section \<open>The operations of the bus\<close>

text \<open>\<^verbatim>\<open>GenerateFromPassword\<close> reads the random source, for the salt.\<close>

definition hashing :: "env \<Rightarrow> string \<Rightarrow> (string res \<Rightarrow> 'r task) \<Rightarrow> 'r task" where
  "hashing E password k =
     (if length password > 72 then k (Err ErrPasswordTooLong)
      else Reading (\<lambda>n. k (Ok (bcrypt_hash E n password))))"

definition create_task :: "env \<Rightarrow> new_user \<Rightarrow> user res task" where
  "create_task E nu =
     hashing E (nu_password nu) (\<lambda>r. case r of
       Err err \<Rightarrow> Returned (Err (ErrWrap ''generateFromPassword'' err))
     | Ok bs \<Rightarrow>
         Reading (\<lambda>n. Reading (\<lambda>m.
           let now = trunc_micro (now_at E n);
               usr = \<lparr>u_id = uuid_from_random (rand_at E m), u_name = nu_name nu, u_email = nu_email nu,
                      u_roles = nu_roles nu, u_password_hash = bs, u_department = nu_department nu,
                      u_enabled = True, u_created_at = now, u_updated_at = now\<rparr>
           in Creating usr (\<lambda>r. case r of
                Some err \<Rightarrow> Returned (Err (ErrWrap ''create'' err))
              | None \<Rightarrow> Returned (Ok usr)))))"

definition update_task :: "env \<Rightarrow> user \<Rightarrow> update_user \<Rightarrow> user res task" where
  "update_task E usr updates =
     (let usr = apply_updates updates usr;
          finish = (\<lambda>usr.
            let usr = (case uu_enabled updates of None \<Rightarrow> usr | Some b \<Rightarrow> usr\<lparr>u_enabled := b\<rparr>)
            in Reading (\<lambda>n.
                 let usr = usr\<lparr>u_updated_at := now_at E n\<rparr>
                 in Updating usr (\<lambda>r. case r of
                      Some err \<Rightarrow> Returned (Err (ErrWrap ''update'' err))
                    | None \<Rightarrow> Returned (Ok usr))))
      in case uu_password updates of
           None \<Rightarrow> finish usr
         | Some p \<Rightarrow>
             hashing E p (\<lambda>r. case r of
               Err err \<Rightarrow> Returned (Err (ErrWrap ''generateFromPassword'' err))
             | Ok bs \<Rightarrow> finish (usr\<lparr>u_password_hash := bs\<rparr>)))"

definition delete_task :: "user \<Rightarrow> go_err option task" where
  "delete_task usr =
     Deleting usr (\<lambda>r. Returned (case r of Some err \<Rightarrow> Some (ErrWrap ''delete'' err) | None \<Rightarrow> None))"

definition by_id_task :: "uuid \<Rightarrow> user res task" where
  "by_id_task i = ById i (\<lambda>r. Returned (case r of Err err \<Rightarrow> Err (ErrWrap ''queryByID'' err) | Ok usr \<Rightarrow> Ok usr))"

definition by_email_task :: "mail_address \<Rightarrow> user res task" where
  "by_email_task m =
     ByEmail m (\<lambda>r. Returned (case r of Err err \<Rightarrow> Err (ErrWrap ''queryByEmail'' err) | Ok usr \<Rightarrow> Ok usr))"

definition query_task :: "query_filter \<Rightarrow> order_field \<Rightarrow> page \<Rightarrow> user list res task" where
  "query_task f ord p =
     Listing f ord p (\<lambda>r. Returned (case r of Err err \<Rightarrow> Err (ErrWrap ''query'' err) | Ok usrs \<Rightarrow> Ok usrs))"

definition count_task :: "query_filter \<Rightarrow> int res task" where
  "count_task f = Counting f Returned"

definition authenticate_task :: "env \<Rightarrow> mail_address \<Rightarrow> string \<Rightarrow> user res task" where
  "authenticate_task E m password =
     ByEmail m (\<lambda>r. Returned (case r of
       Err err \<Rightarrow> Err (ErrWrap ''queryByEmail'' err)
     | Ok usr \<Rightarrow>
         (case bcrypt_compare E (u_password_hash usr) password of
            Some err \<Rightarrow> Err (ErrWrap ''compareHashAndPass'' err)
          | None \<Rightarrow> Ok usr)))"

text \<open>One task after another; a request first reads the user and then changes the one that it has read.\<close>

primrec then_task :: "'a task \<Rightarrow> ('a \<Rightarrow> 'b task) \<Rightarrow> 'b task" where
  "then_task (Returned r) c = c r"
| "then_task (Reading k) c = Reading (\<lambda>n. then_task (k n) c)"
| "then_task (Creating u k) c = Creating u (\<lambda>r. then_task (k r) c)"
| "then_task (Updating u k) c = Updating u (\<lambda>r. then_task (k r) c)"
| "then_task (Deleting u k) c = Deleting u (\<lambda>r. then_task (k r) c)"
| "then_task (ById i k) c = ById i (\<lambda>r. then_task (k r) c)"
| "then_task (ByEmail m k) c = ByEmail m (\<lambda>r. then_task (k r) c)"
| "then_task (Listing f ord p k) c = Listing f ord p (\<lambda>r. then_task (k r) c)"
| "then_task (Counting f k) c = Counting f (\<lambda>r. then_task (k r) c)"

definition change_task :: "env \<Rightarrow> uuid \<Rightarrow> update_user \<Rightarrow> user res task" where
  "change_task E i upd =
     then_task (by_id_task i) (\<lambda>r. case r of Err e \<Rightarrow> Returned (Err e) | Ok usr \<Rightarrow> update_task E usr upd)"

definition remove_task :: "uuid \<Rightarrow> user res task" where
  "remove_task i =
     then_task (by_id_task i) (\<lambda>r. case r of
       Err e \<Rightarrow> Returned (Err e)
     | Ok usr \<Rightarrow> then_task (delete_task usr) (\<lambda>r. case r of Some e \<Rightarrow> Returned (Err e) | None \<Rightarrow> Returned (Ok usr)))"

section \<open>Alone, a task is its operation\<close>

lemmas run_simps = resume_def access_def Let_def

lemma run_create: "run_task api (create_task E nu) w = bus_create E api w nu"
  by (auto simp: create_task_def hashing_def bus_create_def generate_from_password_def time_now_def uuid_new_def
      run_simps split: prod.split option.split)

lemma run_update: "run_task api (update_task E usr upd) w = bus_update E api w usr upd"
  by (auto simp: update_task_def hashing_def bus_update_def update_password_def generate_from_password_def
      time_now_def run_simps split: prod.split option.split)

lemma run_others:
  "run_task api (delete_task usr) w = bus_delete api w usr"
  "run_task api (by_id_task i) w = bus_query_by_id api w i"
  "run_task api (by_email_task m) w = bus_query_by_email api w m"
  "run_task api (query_task f ord p) w = bus_query api w f ord p"
  "run_task api (count_task f) w = bus_count api w f"
  "run_task api (authenticate_task E m pw) w = bus_authenticate E api w m pw"
  by (auto simp: delete_task_def by_id_task_def by_email_task_def query_task_def count_task_def
      authenticate_task_def bus_delete_def bus_query_by_id_def bus_query_by_email_def bus_query_def bus_count_def
      bus_authenticate_def run_simps split: prod.split option.split sum.split)

lemma run_then: "run_task api (then_task t c) w = (case run_task api t w of (r, w') \<Rightarrow> run_task api (c r) w')"
  by (induction t arbitrary: w) (simp_all add: run_simps split: prod.split)

section \<open>A pool of tasks\<close>

text \<open>Any task of the pool does its next access, or the connection gets other faults ahead of it.\<close>

inductive pool_step :: "database world \<times> 'r task list \<Rightarrow> database world \<times> 'r task list \<Rightarrow> bool" where
  turn: "i < length ts \<Longrightarrow> task_step userdb_store (ts ! i) w = (t, w') \<Longrightarrow> pool_step (w, ts) (w', ts[i := t])"
| faults: "pool_step (w, ts) (w\<lparr>wd_store := (wd_store w)\<lparr>faults := fs\<rparr>\<rparr>, ts)"

inductive_cases pool_stepE: "pool_step (w, ts) s"

text \<open>A task of the pool may run to its end while the others wait.\<close>

lemma task_runs:
  "\<exists>t' w'. task_step userdb_store t w = (t', w') \<and> run_task userdb_store t w = run_task userdb_store t' w'"
  by (metis (no_types, lifting) case_prod_conv run_task_step surj_pair)

lemma pool_turn:
  assumes "i < length ts" "task_step userdb_store (ts ! i) w = (t, w')" "pool_step\<^sup>*\<^sup>* (w', ts[i := t]) s"
  shows "pool_step\<^sup>*\<^sup>* (w, ts) s"
  using pool_step.turn [OF assms(1,2)] assms(3) by (rule converse_rtranclp_into_rtranclp)

lemma pool_access:
  assumes "i < length ts" "\<And>t w. t \<in> range k \<Longrightarrow> run_task userdb_store t w = (r, w') \<Longrightarrow> pool_step\<^sup>*\<^sup>* (w, ts[i := t]) s"
    and "run_task userdb_store t w = (r, w')" "task_step userdb_store t w = (k x, w'')"
  shows "pool_step\<^sup>*\<^sup>* (w, ts[i := t]) s"
proof (rule pool_turn [where i = i])
  have "run_task userdb_store (k x) w'' = (r, w')" using assms(3,4) by (simp add: run_task_step [of _ t])
  then show "pool_step\<^sup>*\<^sup>* (w'', (ts[i := t])[i := k x]) s" using assms(2) [of "k x" w''] by simp
qed (use assms(1,4) in simp_all)

lemma run_pool:
  assumes "i < length ts" "run_task userdb_store t w = (r, w')"
  shows "pool_step\<^sup>*\<^sup>* (w, ts[i := t]) (w', ts[i := Returned r])"
  using assms(2)
proof (induction t arbitrary: w)
  case (Returned x)
  then show ?case by simp
next
  case (Reading k)
  show ?case by (rule pool_access [where k = k, OF assms(1) _ Reading(2)], erule Reading(1), assumption) (simp)
next
  case (Creating u k)
  show ?case by (rule pool_access [where k = k, OF assms(1) _ Creating(2)], erule Creating(1), assumption) (simp add: access_def split_beta)
next
  case (Updating u k)
  show ?case by (rule pool_access [where k = k, OF assms(1) _ Updating(2)], erule Updating(1), assumption) (simp add: access_def split_beta)
next
  case (Deleting u k)
  show ?case by (rule pool_access [where k = k, OF assms(1) _ Deleting(2)], erule Deleting(1), assumption) (simp add: access_def split_beta)
next
  case (ById i k)
  show ?case by (rule pool_access [where k = k, OF assms(1) _ ById(2)], erule ById(1), assumption) (simp add: access_def split_beta)
next
  case (ByEmail m k)
  show ?case by (rule pool_access [where k = k, OF assms(1) _ ByEmail(2)], erule ByEmail(1), assumption) (simp add: access_def split_beta)
next
  case (Listing f ord p k)
  show ?case by (rule pool_access [where k = k, OF assms(1) _ Listing(2)], erule Listing(1), assumption) (simp add: access_def split_beta)
next
  case (Counting f k)
  show ?case by (rule pool_access [where k = k, OF assms(1) _ Counting(2)], erule Counting(1), assumption) (simp add: access_def split_beta)
qed

lemma run_two:
  assumes "run_task userdb_store t w = (r, w1)" "run_task userdb_store t' w1 = (r', w2)"
  shows "pool_step\<^sup>*\<^sup>* (w, [t, t']) (w2, [Returned r, Returned r'])"
proof (rule rtranclp_trans)
  show "pool_step\<^sup>*\<^sup>* (w, [t, t']) (w1, [Returned r, t'])"
    using run_pool [where ts = "[t, t']" and i = 0, OF _ assms(1)] by simp
  show "pool_step\<^sup>*\<^sup>* (w1, [Returned r, t']) (w2, [Returned r, Returned r'])"
    using run_pool [where ts = "[Returned r, t']" and i = 1, OF _ assms(2)] by simp
qed

section \<open>Tasks that write well-formed users\<close>

primrec safe_task :: "'r task \<Rightarrow> bool" where
  "safe_task (Returned r) = True"
| "safe_task (Reading k) = (\<forall>n. safe_task (k n))"
| "safe_task (Creating u k) = (typed_user u \<and> (\<forall>r. safe_task (k r)))"
| "safe_task (Updating u k) = (typed_user u \<and> (\<forall>r. safe_task (k r)))"
| "safe_task (Deleting u k) = (typed_user u \<and> (\<forall>r. safe_task (k r)))"
| "safe_task (ById i k) = (wf_uuid i \<and> (\<forall>r. (\<forall>u. r = Ok u \<longrightarrow> typed_user u) \<longrightarrow> safe_task (k r)))"
| "safe_task (ByEmail m k) = (\<forall>r. (\<forall>u. r = Ok u \<longrightarrow> typed_user u) \<longrightarrow> safe_task (k r))"
| "safe_task (Listing f ord p k) = (\<forall>r. safe_task (k r))"
| "safe_task (Counting f k) = (\<forall>r. safe_task (k r))"

context kept_store
begin

lemma task_step_good:
  assumes "good (wd_store w)" "safe_task t" "task_step api t w = (t', w')"
  shows "good (wd_store w') \<and> safe_task t'"
proof (cases t)
  case (Creating u k)
  then show ?thesis using assms create_good [OF assms(1), of u] by (auto simp: access_def split: prod.splits)
next
  case (Updating u k)
  then show ?thesis using assms update_good [OF assms(1), of u] by (auto simp: access_def split: prod.splits)
next
  case (Deleting u k)
  then show ?thesis using assms delete_good [OF assms(1), of u] by (auto simp: access_def split: prod.splits)
next
  case (ById i k)
  then show ?thesis
    using assms by_id_good [OF assms(1), of i] by_id_typed [OF assms(1), of i] by (auto simp: access_def split: prod.splits)
next
  case (ByEmail m k)
  then show ?thesis
    using assms by_email_good [OF assms(1), of m] by_email_typed [OF assms(1), of m]
    by (auto simp: access_def split: prod.splits)
next
  case (Listing f ord p k)
  then show ?thesis using assms query_good [OF assms(1), of f ord p] by (auto simp: access_def split: prod.splits)
next
  case (Counting f k)
  then show ?thesis using assms count_good [OF assms(1), of f] by (auto simp: access_def split: prod.splits)
qed (use assms in auto)

end

lemma pool_keeps:
  assumes "pool_step\<^sup>*\<^sup>* (w0, ts0) (w, ts)" "holds_users (wd_store w0) us0" "\<forall>t \<in> set ts0. safe_task t"
  shows "(\<exists>us. holds_users (wd_store w) us) \<and> (\<forall>t \<in> set ts. safe_task t)"
  using assms(1)
proof (induction rule: rtranclp_induct2)
  case refl
  then show ?case using assms(2,3) by blast
next
  case (step v ts w ts')
  from step(2) show ?case
  proof (cases rule: pool_step.cases)
    case (turn i t)
    then show ?thesis
      using pg.kept.task_step_good [OF _ _ turn(3)] step(3) set_update_subset_insert [of ts i t] by fastforce
  next
    case (faults fs)
    then show ?thesis using step(3) by (auto simp: holds_users_def)
  qed
qed

lemma safe_hashing: "(\<And>r. safe_task (k r)) \<Longrightarrow> safe_task (hashing E p k)"
  by (simp add: hashing_def)

lemma safe_then: "safe_task t \<Longrightarrow> (\<And>r. safe_task (c r)) \<Longrightarrow> safe_task (then_task t c)"
  by (induction t) auto

lemma safe_create: "rand_law E \<Longrightarrow> wf_roles (nu_roles nu) \<Longrightarrow> safe_task (create_task E nu)"
  unfolding create_task_def
  by (rule safe_hashing) (auto simp: Let_def typed_user_def rand_law_def split: sum.split option.split)

lemma apply_updates_typed:
  "typed_user u \<Longrightarrow> (case uu_roles upd of None \<Rightarrow> True | Some rs \<Rightarrow> wf_roles rs) \<Longrightarrow> typed_user (apply_updates upd u)"
  by (auto simp: apply_updates_def typed_user_def Let_def split: option.splits)

lemma safe_update:
  assumes "typed_user u" "case uu_roles upd of None \<Rightarrow> True | Some rs \<Rightarrow> wf_roles rs"
  shows "safe_task (update_task E u upd)"
proof -
  have "typed_user (apply_updates upd u)" using assms by (rule apply_updates_typed)
  then show ?thesis
    by (auto simp: update_task_def hashing_def typed_user_def Let_def split: option.split sum.split)
qed

text \<open>What the goroutines of the service do with the store.\<close>

inductive service_task :: "env \<Rightarrow> user res task \<Rightarrow> bool" for E where
  sign_up: "wf_roles (nu_roles nu) \<Longrightarrow> service_task E (create_task E nu)"
| change: "wf_uuid i \<Longrightarrow> (case uu_roles upd of None \<Rightarrow> True | Some rs \<Rightarrow> wf_roles rs) \<Longrightarrow>
    service_task E (change_task E i upd)"
| remove: "wf_uuid i \<Longrightarrow> service_task E (remove_task i)"
| show_one: "wf_uuid i \<Longrightarrow> service_task E (by_id_task i)"
| by_address: "service_task E (by_email_task m)"
| log_in: "service_task E (authenticate_task E m p)"

lemma service_task_safe:
  assumes "rand_law E" "service_task E t"
  shows "safe_task t"
  using assms(2)
proof cases
  case (sign_up nu)
  then show ?thesis using safe_create [OF assms(1)] by blast
next
  case (change i upd)
  then show ?thesis
    by (auto simp: change_task_def by_id_task_def intro: safe_update split: sum.split)
next
  case (remove i)
  then show ?thesis
    by (auto simp: remove_task_def by_id_task_def delete_task_def split: sum.split option.split)
qed (auto simp: by_id_task_def by_email_task_def authenticate_task_def)

text \<open>
  C3: Requests that are served at the same time cannot break the table. However the statements of any
  number of sign-ups, log-ins, changes, removals and look-ups interleave, and however the connection
  fails in between, the table holds well-formed users with distinct ids and addresses at every moment.
\<close>

theorem goroutines_keep_users:
  assumes "rand_law E" "holds_users (wd_store w0) us0" "list_all (service_task E) ts0"
    and "pool_step\<^sup>*\<^sup>* (w0, ts0) (w, ts)"
  shows "\<exists>us. holds_users (wd_store w) us \<and> distinct (map u_id us) \<and> distinct (map addr us) \<and>
    list_all (\<lambda>u. typed_user u \<and> fits u) us"
proof -
  have "\<forall>t \<in> set ts0. safe_task t" using assms(3) service_task_safe [OF assms(1)] by (simp add: list_all_iff)
  from pool_keeps [OF assms(4,2) this] obtain us where "holds_users (wd_store w) us" by blast
  then show ?thesis using pg.rep_ok [of "wd_store w" us] by (auto simp: users_ok_def list_all_iff)
qed

theorem goroutines_keep_users_witness:
  "\<exists>w ts us. pool_step\<^sup>*\<^sup>* (sample_world [], [create_task sample_env carl, create_task sample_env carl]) (w, ts) \<and>
     ts ! 1 \<noteq> create_task sample_env carl \<and> holds_users (wd_store w) us \<and> distinct (map addr us)"
proof -
  let ?t = "create_task sample_env carl"
  obtain r w where "run_task userdb_store ?t (sample_world []) = (r, w)" by fastforce
  from run_pool [where ts = "[?t, ?t]" and i = 1, OF _ this]
  have pool: "pool_step\<^sup>*\<^sup>* (sample_world [], [?t, ?t]) (w, [?t, Returned r])" by simp
  have "list_all (service_task sample_env) [?t, ?t]" by (simp add: service_task.sign_up)
  from goroutines_keep_users [OF sample_env_laws(2) _ this pool, of "[]"] show ?thesis
    using pool by (auto simp: create_task_def hashing_def intro!: exI [of _ w] exI [of _ "[?t, Returned r]"])
qed

section \<open>Sign-ups at the same time\<close>

text \<open>A task that is a rest of a sign-up, and the users of those that have reported success.\<close>

primrec signing_up :: "user res task \<Rightarrow> bool" where
  "signing_up (Returned r) = (\<exists>e. r = Err e)"
| "signing_up (Reading k) = (\<forall>n. signing_up (k n))"
| "signing_up (Creating u k) = (typed_user u \<and> k None = Returned (Ok u) \<and> (\<forall>r. r \<noteq> None \<longrightarrow> signing_up (k r)))"
| "signing_up (Updating u k) = False"
| "signing_up (Deleting u k) = False"
| "signing_up (ById i k) = False"
| "signing_up (ByEmail m k) = False"
| "signing_up (Listing f ord p k) = False"
| "signing_up (Counting f k) = False"

fun accepted_by :: "user res task \<Rightarrow> user list" where
  "accepted_by (Returned (Ok u)) = [u]"
| "accepted_by t = []"

definition accepted :: "user res task list \<Rightarrow> user list" where
  "accepted ts = concat (map accepted_by ts)"

lemma signing_up_create:
  "rand_law E \<Longrightarrow> wf_roles (nu_roles nu) \<Longrightarrow> signing_up (create_task E nu)"
  by (auto simp: create_task_def hashing_def Let_def typed_user_def rand_law_def)

lemma signing_up_accepts [simp]: "signing_up t \<Longrightarrow> accepted_by t = []"
  by (cases t rule: accepted_by.cases) auto

lemma accepted_turn:
  assumes "i < length ts"
  obtains A B where "accepted ts = A @ accepted_by (ts ! i) @ B" "\<And>t. accepted (ts[i := t]) = A @ accepted_by t @ B"
proof
  show "accepted ts = accepted (take i ts) @ accepted_by (ts ! i) @ accepted (drop (Suc i) ts)"
    unfolding accepted_def using id_take_nth_drop [OF assms] by (metis concat.simps(2) concat_append list.simps(9) map_append)
  show "accepted (ts[i := t]) = accepted (take i ts) @ accepted_by t @ accepted (drop (Suc i) ts)" for t
    unfolding accepted_def upd_conv_take_nth_drop [OF assms] by simp
qed

text \<open>The sign-ups that have been accepted are in the table, and apart from each other and from what was there.\<close>

definition sign_ups_ok :: "user list \<Rightarrow> database world \<times> user res task list \<Rightarrow> bool" where
  "sign_ups_ok us0 = (\<lambda>(w, ts). \<exists>us. holds_users (wd_store w) us \<and> set us0 \<subseteq> set us \<and>
     stored_user ` set (accepted ts) \<subseteq> set us \<and> distinct (map addr (us0 @ map stored_user (accepted ts))) \<and>
     distinct (map u_id (us0 @ accepted ts)) \<and>
     (\<forall>t \<in> set ts. signing_up t \<or> (\<exists>u. t = Returned (Ok u))))"

lemma sign_up_step:
  assumes "signing_up t" "task_step userdb_store t w = (t', w')" "holds_users (wd_store w) us"
  shows "\<exists>us'. holds_users (wd_store w') us' \<and> set us \<subseteq> set us' \<and>
    (signing_up t' \<or> (\<exists>u. t' = Returned (Ok u) \<and> addr (stored_user u) \<notin> addr ` set us \<and> u_id u \<notin> u_id ` set us \<and> stored_user u \<in> set us'))"
proof (cases t)
  case (Creating u k)
  obtain r s where r: "store_create (wd_store w) u = (r, s)" by fastforce
  then have w: "t' = k r" "wd_store w' = s" using assms(2) Creating by (auto simp: access_def)
  have u: "typed_user u" "k None = Returned (Ok u)" "\<And>e. signing_up (k (Some e))" using assms(1) Creating by auto
  have "write_outcome holds_users us (spec_create us u) (r, s)"
    using pg.create_any [OF assms(3) u(1)] r by simp
  then show ?thesis
    using w u by (cases r) (auto simp: write_outcome_def spec_create_def split: if_splits)
qed (use assms in auto)

lemma sign_ups_keep:
  assumes "pool_step s s'" "sign_ups_ok us0 s"
  shows "sign_ups_ok us0 s'"
  using assms(1)
proof cases
  case (turn i ts w t w')
  obtain us where us: "holds_users (wd_store w) us" "set us0 \<subseteq> set us" "stored_user ` set (accepted ts) \<subseteq> set us"
    "distinct (map addr (us0 @ map stored_user (accepted ts)))" "distinct (map u_id (us0 @ accepted ts))"
    "\<forall>t \<in> set ts. signing_up t \<or> (\<exists>u. t = Returned (Ok u))"
    using assms(2) turn(1) by (auto simp: sign_ups_ok_def)
  obtain A B where AB: "accepted ts = A @ accepted_by (ts ! i) @ B" "\<And>t. accepted (ts[i := t]) = A @ accepted_by t @ B"
    using accepted_turn [OF turn(3)] by blast
  show ?thesis
  proof (cases "signing_up (ts ! i)")
    case True
    obtain us' where us': "holds_users (wd_store w') us'" "set us \<subseteq> set us'"
      and t: "signing_up t \<or> (\<exists>u. t = Returned (Ok u) \<and> addr (stored_user u) \<notin> addr ` set us \<and> u_id u \<notin> u_id ` set us \<and> stored_user u \<in> set us')"
      using sign_up_step [OF True turn(4) us(1)] by blast
    have set: "\<forall>t' \<in> set (ts[i := t]). signing_up t' \<or> (\<exists>u. t' = Returned (Ok u))"
      using t us(6) set_update_subset_insert [of ts i t] by blast
    have AB0: "accepted ts = A @ B" using AB(1) True by simp
    let ?st = "map stored_user"
    have old: "set (us0 @ ?st A @ ?st B) \<subseteq> set us" using us(2,3) unfolding AB0 by auto
    have ids: "map u_id (us0 @ A @ B) = map u_id (us0 @ ?st A @ ?st B)" by simp
    from t show ?thesis
    proof
      assume "signing_up t"
      then have "accepted (ts[i := t]) = accepted ts" using AB(2) AB0 by simp
      moreover have "stored_user ` set (accepted ts) \<subseteq> set us'" "set us0 \<subseteq> set us'"
        using us(2,3) us'(2) by blast+
      ultimately show ?thesis
        using us(4,5) us'(1) set unfolding turn(2) sign_ups_ok_def prod.case by (intro exI [of _ us']) (simp only: simp_thms)
    next
      assume "\<exists>u. t = Returned (Ok u) \<and> addr (stored_user u) \<notin> addr ` set us \<and> u_id u \<notin> u_id ` set us \<and> stored_user u \<in> set us'"
      then obtain u where u: "t = Returned (Ok u)" "addr (stored_user u) \<notin> addr ` set us" "u_id u \<notin> u_id ` set us" "stored_user u \<in> set us'"
        by blast
      then have acc: "accepted (ts[i := t]) = A @ u # B" using AB(2) by simp
      have "addr (stored_user u) \<notin> addr ` set (us0 @ ?st A @ ?st B)" "u_id u \<notin> u_id ` set (us0 @ ?st A @ ?st B)"
        using u old by blast+
      then have "addr (stored_user u) \<notin> addr ` set (us0 @ ?st A @ ?st B)" "u_id u \<notin> set (map u_id (us0 @ A @ B))"
        unfolding ids by (simp_all only: set_map not_False_eq_True)
      then have "distinct (map addr (us0 @ ?st (accepted (ts[i := t]))))" "distinct (map u_id (us0 @ accepted (ts[i := t])))"
        using us(4,5) unfolding acc AB0 by auto
      moreover have "stored_user ` set (accepted (ts[i := t])) \<subseteq> set us'"
        using us(3) us'(2) u(4) unfolding acc AB0 by auto
      ultimately show ?thesis
        using us(2) us' set turn(2) unfolding sign_ups_ok_def by blast
    qed
  next
    case False
    then obtain u where "ts ! i = Returned (Ok u)" using us(6) turn(3) nth_mem by blast
    then show ?thesis using turn assms(2) by auto
  qed
next
  case (faults w ts fs)
  then show ?thesis using assms(2) by (auto simp: sign_ups_ok_def holds_users_def)
qed

text \<open>
  C16: Of sign-ups that run at the same time at most one is accepted for an address, whatever the
  interleaving and the failures of the connection: the users for which success has been reported are in the
  table, as it keeps them, with addresses and ids that differ from each other and from those that were
  there, and nobody who was there is lost.
\<close>

theorem concurrent_sign_ups:
  assumes "rand_law E" "holds_users (wd_store w0) us0" "list_all (\<lambda>nu. wf_roles (nu_roles nu)) nus"
    and "pool_step\<^sup>*\<^sup>* (w0, map (create_task E) nus) (w, ts)"
  shows "\<exists>us. holds_users (wd_store w) us \<and> set us0 \<subseteq> set us \<and> stored_user ` set (accepted ts) \<subseteq> set us \<and>
    distinct (map addr (us0 @ map stored_user (accepted ts))) \<and> distinct (map u_id (us0 @ accepted ts))"
proof -
  have tasks: "\<forall>t \<in> set (map (create_task E) nus). signing_up t"
    using assms(3) signing_up_create [OF assms(1)] by (auto simp: list_all_iff)
  then have "accepted (map (create_task E) nus) = []"
    by (auto simp: accepted_def)
  then have "sign_ups_ok us0 (w0, map (create_task E) nus)"
    using assms(2) tasks pg.rep_ok [OF assms(2)] by (auto simp: sign_ups_ok_def users_ok_def)
  with assms(4) have "sign_ups_ok us0 (w, ts)"
    by (induction rule: rtranclp_induct) (blast intro: sign_ups_keep)+
  then show ?thesis by (auto simp: sign_ups_ok_def)
qed

theorem concurrent_sign_ups_witness:
  "\<exists>w u r. pool_step\<^sup>*\<^sup>* (sample_world [ann], map (create_task sample_env) [carl, carl]) (w, [Returned (Ok u), Returned r]) \<and>
     addr u = ''carl@x.io'' \<and> (\<nexists>v. r = Ok v)"
proof -
  let ?t = "create_task sample_env carl" and ?u = "created_user sample_env 7 carl"
  obtain w1 where w1: "run_task userdb_store ?t (sample_world [ann]) = (Ok ?u, w1)"
    using carl_created by (auto simp: run_create)
  obtain r w where w: "run_task userdb_store ?t w1 = (r, w)" by fastforce
  have pool: "pool_step\<^sup>*\<^sup>* (sample_world [ann], map (create_task sample_env) [carl, carl]) (w, [Returned (Ok ?u), Returned r])"
    using run_two [OF w1 w] by simp
  obtain us where us: "holds_users (wd_store w1) us"
    using pg.bus_create_sound [OF _ sample_env_laws(2) carl_fits(2), of "sample_world [ann]" "[ann]" ?u w1] w1
    by (auto simp: run_create)
  have same: "addr (stored_user (created_user sample_env n carl)) = ''carl@x.io''" for n
    by (simp add: addr_created_stored)
  have "r \<noteq> Ok v" for v
  proof
    assume r: "r = Ok v"
    then have "v = created_user sample_env (reads w1) carl"
      using pg.bus_create_sound [OF us sample_env_laws(2) carl_fits(2), of v w] w by (simp add: run_create)
    then have "addr (stored_user v) = ''carl@x.io''" by (simp only: same)
    then show False
      using concurrent_sign_ups [OF sample_env_laws(2) _ _ pool, of "[ann]"] r same by (simp add: accepted_def)
  qed
  then show ?thesis using pool by (intro exI [of _ w] exI [of _ ?u] exI [of _ r]) simp
qed

section \<open>Changes at the same time\<close>

text \<open>A change that fits the columns and keeps the address.\<close>

definition update_fits :: "update_user \<Rightarrow> bool" where
  "update_fits upd \<longleftrightarrow> uu_email upd = None \<and>
     (\<forall>x. uu_name upd = Some x \<longrightarrow> rune_count x \<le> 200 \<and> text_ok x) \<and>
     (\<forall>x. uu_department upd = Some x \<longrightarrow> rune_count x \<le> 100 \<and> text_ok x) \<and>
     (\<forall>rs. uu_roles upd = Some rs \<longrightarrow> wf_roles rs) \<and> (\<forall>p. uu_password upd = Some p \<longrightarrow> length p \<le> 72)"

lemma final_update_fits:
  assumes "update_fits upd" "bcrypt_law E" "typed_user v" "fits v"
  shows "typed_user (final_update E n upd v)" "fits (final_update E n upd v)" "addr (final_update E n upd v) = addr v"
    "u_id (final_update E n upd v) = u_id v"
  using assms by (auto simp: update_fits_def final_update_def typed_user_def fits_def addr_def bcrypt_law_def split: option.split)

lemma stale_update:
  assumes "holds_users (wd_store w) us" "healthy (wd_store w)" "typed_user v" "fits v" "update_fits upd" "bcrypt_law E"
    and "\<forall>x \<in> set us. u_id x = u_id v \<longrightarrow> addr x = addr v"
  shows "\<exists>w'. run_task userdb_store (update_task E v upd) w = (Ok (final_update E (reads w) upd v), w') \<and>
    holds_users (wd_store w') (updated_users us (final_update E (reads w) upd v)) \<and> healthy (wd_store w')"
proof -
  let ?u = "final_update E (reads w) upd v"
  note u = final_update_fits [OF assms(5,6,3,4), of "reads w"]
  have created: "addr (x\<lparr>u_created_at := t\<rparr>) = addr x" for x t by (simp add: addr_def)
  have "map addr (updated_users us ?u) = map addr us"
    using assms(7) u(3,4) created by (auto simp: updated_users_def stored_fits [OF u(2)])
  then have "distinct (map addr (updated_users us ?u))"
    using pg.rep_ok [OF assms(1)] by (simp add: users_ok_def)
  moreover have "\<forall>p. uu_password upd = Some p \<longrightarrow> length p \<le> 72" using assms(5) by (simp add: update_fits_def)
  ultimately show ?thesis
    using pg.update_up [OF assms(1,2) u(1,2)] by (auto simp: run_update bus_update_store spec_update_def)
qed

text \<open>The first access of a change reads the user.\<close>

lemma change_reads:
  assumes "holds_users (wd_store w) us" "healthy (wd_store w)" "v \<in> set us"
  shows "\<exists>s. task_step userdb_store (change_task E (u_id v) upd) w = (update_task E v upd, w\<lparr>wd_store := s\<rparr>) \<and>
    holds_users s us \<and> healthy s"
proof -
  have ok: "distinct (map u_id us)" "wf_uuid (u_id v)"
    using pg.rep_ok [OF assms(1)] assms(3) by (auto simp: users_ok_def list_all_iff typed_user_def)
  from ok(1) assms(3) have "find (\<lambda>x. u_id x = u_id v) us = Some v" by (rule find_distinct) simp
  then have "spec_by_id us (u_id v) = Ok v" by (simp add: spec_by_id_def)
  then show ?thesis
    using pg.by_id_up [OF assms(1,2) ok(2)] by (auto simp: change_task_def by_id_task_def access_def)
qed

lemma updated_twice:
  "u_id a = u_id b \<Longrightarrow> updated_users (updated_users us a) b = updated_users us b"
  by (simp add: updated_users_def)

text \<open>What a change does not give is in \<open>x\<close> as it was in \<open>v\<close>.\<close>

definition untouched :: "update_user \<Rightarrow> user \<Rightarrow> user \<Rightarrow> bool" where
  "untouched upd v x \<longleftrightarrow>
     (uu_name upd = None \<longrightarrow> u_name x = u_name v) \<and> (uu_roles upd = None \<longrightarrow> u_roles x = u_roles v) \<and>
     (uu_department upd = None \<longrightarrow> u_department x = u_department v) \<and>
     (uu_password upd = None \<longrightarrow> u_password_hash x = u_password_hash v) \<and>
     (uu_enabled upd = None \<longrightarrow> u_enabled x = u_enabled v)"

lemma updated_untouched:
  assumes "x \<in> set (updated_users us (final_update E n upd v))" "u_id x = u_id v" "fits v"
  shows "untouched upd v x"
proof -
  let ?u = "final_update E n upd v"
  have x: "x = (stored_user ?u)\<lparr>u_created_at := u_created_at x\<rparr>"
    using assms(1,2) by (auto simp: updated_users_def final_update_def stored_user_def split: if_splits)
  have short: "rune_count (u_name v) \<le> 200" "rune_count (u_department v) \<le> 100"
    using assms(3) by (simp_all add: fits_def)
  have "untouched upd v ((stored_user ?u)\<lparr>u_created_at := u_created_at x\<rparr>)"
    using short by (simp add: untouched_def stored_user_def final_update_def)
  then show ?thesis using x by metis
qed

text \<open>
  C28: Changes of one user at the same time lose each other's effect. \<^verbatim>\<open>Update\<close> writes every column from the
  user that was read before, so two requests can both read the user and then both succeed, and the row is
  what the second makes of the old user: what only the first has set, be it that the user is disabled
  or has other roles, is undone although it was reported done.
\<close>

theorem lost_update:
  assumes "holds_users (wd_store w) us" "healthy (wd_store w)" "bcrypt_law E" "v \<in> set us"
    and "update_fits first" "update_fits second"
  shows "\<exists>w' us' u1 u2. pool_step\<^sup>*\<^sup>* (w, [change_task E (u_id v) first, change_task E (u_id v) second])
      (w', [Returned (Ok u1), Returned (Ok u2)]) \<and>
    (\<forall>b. uu_enabled first = Some b \<longrightarrow> u_enabled u1 = b) \<and> (\<forall>rs. uu_roles first = Some rs \<longrightarrow> u_roles u1 = rs) \<and>
    holds_users (wd_store w') us' \<and> u_id ` set us' = u_id ` set us \<and>
    (\<forall>x \<in> set us'. u_id x = u_id v \<longrightarrow> untouched second v x)"
proof -
  have ok: "users_ok us" using assms(1) by (rule pg.rep_ok)
  have v: "typed_user v" "fits v" using ok assms(4) by (auto simp: users_ok_def list_all_iff)
  have same: "x = v" if "x \<in> set us" "u_id x = u_id v" for x
    using ok assms(4) that by (metis users_ok_def distinct_map inj_onD)
  let ?c = "change_task E (u_id v)"
  obtain s where s: "task_step userdb_store (?c first) w = (update_task E v first, w\<lparr>wd_store := s\<rparr>)" "holds_users s us" "healthy s"
    using change_reads [OF assms(1,2,4)] by blast
  obtain s' where s': "task_step userdb_store (?c second) (w\<lparr>wd_store := s\<rparr>) = (update_task E v second, w\<lparr>wd_store := s'\<rparr>)"
    "holds_users s' us" "healthy s'"
    using change_reads [of "w\<lparr>wd_store := s\<rparr>" us v E second] s assms(4) by auto
  let ?w = "w\<lparr>wd_store := s'\<rparr>"
  let ?u1 = "final_update E (reads w) first v"
  obtain w1 where w1: "run_task userdb_store (update_task E v first) ?w = (Ok ?u1, w1)"
    "holds_users (wd_store w1) (updated_users us ?u1)" "healthy (wd_store w1)"
    using stale_update [of ?w us v first E] s' v assms(3,5) same by auto
  let ?u2 = "final_update E (reads w1) second v"
  note u1 = final_update_fits [OF assms(5,3) v, of "reads w"]
  have addr: "\<forall>x \<in> set (updated_users us ?u1). u_id x = u_id v \<longrightarrow> addr x = addr v"
  proof -
    have created: "addr (x\<lparr>u_created_at := t\<rparr>) = addr x" for x t by (simp add: addr_def)
    show ?thesis using same u1(3,4) by (auto simp: updated_users_def created stored_fits [OF u1(2)])
  qed
  obtain w2 where w2: "run_task userdb_store (update_task E v second) w1 = (Ok ?u2, w2)"
    "holds_users (wd_store w2) (updated_users (updated_users us ?u1) ?u2)"
    using stale_update [OF w1(2,3) v assms(6,3) addr] by blast
  have pool: "pool_step\<^sup>*\<^sup>* (w, [?c first, ?c second]) (w2, [Returned (Ok ?u1), Returned (Ok ?u2)])"
  proof (rule pool_turn [where i = 0])
    show "task_step userdb_store ([?c first, ?c second] ! 0) w = (update_task E v first, w\<lparr>wd_store := s\<rparr>)"
      using s(1) by simp
    have "pool_step\<^sup>*\<^sup>* (w\<lparr>wd_store := s\<rparr>, [update_task E v first, ?c second])
        (w2, [Returned (Ok ?u1), Returned (Ok ?u2)])"
    proof (rule pool_turn [where i = 1])
      show "task_step userdb_store ([update_task E v first, ?c second] ! 1) (w\<lparr>wd_store := s\<rparr>) = (update_task E v second, ?w)"
        using s'(1) by simp
      show "pool_step\<^sup>*\<^sup>* (?w, [update_task E v first, ?c second][1 := update_task E v second])
          (w2, [Returned (Ok ?u1), Returned (Ok ?u2)])"
        using run_two [OF w1(1) w2(1)] by simp
    qed simp
    then show "pool_step\<^sup>*\<^sup>* (w\<lparr>wd_store := s\<rparr>, [?c first, ?c second][0 := update_task E v first])
        (w2, [Returned (Ok ?u1), Returned (Ok ?u2)])" by simp
  qed simp
  have twice: "updated_users (updated_users us ?u1) ?u2 = updated_users us ?u2"
    by (rule updated_twice) (simp add: final_update_def)
  show ?thesis
  proof (intro exI conjI)
    show "pool_step\<^sup>*\<^sup>* (w, [?c first, ?c second]) (w2, [Returned (Ok ?u1), Returned (Ok ?u2)])" by (rule pool)
    show "\<forall>b. uu_enabled first = Some b \<longrightarrow> u_enabled ?u1 = b" "\<forall>rs. uu_roles first = Some rs \<longrightarrow> u_roles ?u1 = rs"
      by (simp_all add: final_update_def)
    show "holds_users (wd_store w2) (updated_users us ?u2)" using w2(2) unfolding twice .
    show "u_id ` set (updated_users us ?u2) = u_id ` set us"
      using arg_cong [OF updated_users_ids [of us ?u2], of set] by simp
    show "\<forall>x \<in> set (updated_users us ?u2). u_id x = u_id v \<longrightarrow> untouched second v x"
      by (intro ballI impI) (rule updated_untouched [OF _ _ v(2)])
  qed
qed

definition rename :: update_user where
  "rename = \<lparr>uu_name = Some ''Robert'', uu_email = None, uu_roles = None, uu_department = None, uu_password = None,
     uu_enabled = None\<rparr>"

theorem lost_update_witness:
  "\<exists>w us u1 u2. pool_step\<^sup>*\<^sup>*
       (sample_world [ann, bob], [change_task sample_env (u_id bob) disable, change_task sample_env (u_id bob) rename])
       (w, [Returned (Ok u1), Returned (Ok u2)]) \<and>
     \<not> u_enabled u1 \<and> holds_users (wd_store w) us \<and> (\<forall>x \<in> set us. u_id x = u_id bob \<longrightarrow> u_enabled x = u_enabled bob)"
proof -
  have fits: "update_fits disable" "update_fits rename"
    by (simp_all add: update_fits_def disable_def rename_def text_ok_ascii)
  have up: "uu_enabled disable = Some False" "uu_enabled rename = None" by (simp_all add: disable_def rename_def)
  have w: "holds_users (wd_store (sample_world [ann, bob])) [ann, bob]" "healthy (wd_store (sample_world [ann, bob]))"
    "bob \<in> set [ann, bob]" by simp_all
  from lost_update [OF w(1,2) sample_env_laws(1) w(3) fits] show ?thesis
  proof (elim exE conjE, goal_cases)
    case (1 w us u1 u2)
    show ?case
      by (rule exI [of _ w], rule exI [of _ us], rule exI [of _ u1], rule exI [of _ u2]) (use 1 up in \<open>simp add: untouched_def ex_bool_eq\<close>)
  qed
qed

end
