(* ===== verification/Interference.thy ===== *)
theory Interference
  imports Concurrency Samples
begin

text \<open>
  A whole request while others work on the same database: before each of its accesses to the store the
  others have done what they like, and after it they see what it has left. This is the store of the
  request with the actions of the others as a part of the state, so that the handlers and the middlewares
  stay as they are.
\<close>

section \<open>A store that others use\<close>

text \<open>\<open>sh_others\<close> is what the others do before the next accesses, \<open>sh_seen\<close> the store after each one so far.\<close>

record 's shared =
  sh_store :: 's
  sh_others :: "('s \<Rightarrow> 's) list"
  sh_seen :: "'s list"

definition interleaved :: "('s \<Rightarrow> 'a \<times> 's) \<Rightarrow> 's shared \<Rightarrow> 'a \<times> 's shared" where
  "interleaved op s =
     (let d = (case sh_others s of [] \<Rightarrow> sh_store s | f # fs \<Rightarrow> f (sh_store s));
          (r, d) = op d
      in (r, \<lparr>sh_store = d, sh_others = tl (sh_others s), sh_seen = sh_seen s @ [d]\<rparr>))"

definition shared_store :: "'s store_api \<Rightarrow> 's shared store_api" where
  "shared_store api =
     \<lparr>sa_create = (\<lambda>s u. interleaved (\<lambda>d. sa_create api d u) s),
      sa_update = (\<lambda>s u. interleaved (\<lambda>d. sa_update api d u) s),
      sa_delete = (\<lambda>s u. interleaved (\<lambda>d. sa_delete api d u) s),
      sa_query_by_id = (\<lambda>s i. interleaved (\<lambda>d. sa_query_by_id api d i) s),
      sa_query_by_email = (\<lambda>s m. interleaved (\<lambda>d. sa_query_by_email api d m) s),
      sa_query = (\<lambda>s f ord p. interleaved (\<lambda>d. sa_query api d f ord p) s),
      sa_count = (\<lambda>s f. interleaved (\<lambda>d. sa_count api d f) s)\<rparr>"

lemma shared_store_simps [simp]:
  "sa_create (shared_store api) s u = interleaved (\<lambda>d. sa_create api d u) s"
  "sa_update (shared_store api) s u = interleaved (\<lambda>d. sa_update api d u) s"
  "sa_delete (shared_store api) s u = interleaved (\<lambda>d. sa_delete api d u) s"
  "sa_query_by_id (shared_store api) s i = interleaved (\<lambda>d. sa_query_by_id api d i) s"
  "sa_query_by_email (shared_store api) s m = interleaved (\<lambda>d. sa_query_by_email api d m) s"
  "sa_query (shared_store api) s f ord p = interleaved (\<lambda>d. sa_query api d f ord p) s"
  "sa_count (shared_store api) s f = interleaved (\<lambda>d. sa_count api d f) s"
  by (simp_all add: shared_store_def)

text \<open>The others rely on what the request leaves, and the request on what they leave.\<close>

definition good_shared :: "('s \<Rightarrow> bool) \<Rightarrow> 's shared \<Rightarrow> bool" where
  "good_shared good s \<longleftrightarrow> good (sh_store s) \<and> (\<forall>f \<in> set (sh_others s). \<forall>d. good d \<longrightarrow> good (f d)) \<and>
     (\<forall>d \<in> set (sh_seen s). good d)"

lemma interleaved_good:
  assumes "good_shared good s" "\<And>d. good d \<Longrightarrow> good (snd (op d))"
  shows "good_shared good (snd (interleaved op s))"
    and "\<exists>d. good d \<and> fst (interleaved op s) = fst (op d)"
proof -
  obtain d where d: "good d" "d = (case sh_others s of [] \<Rightarrow> sh_store s | f # fs \<Rightarrow> f (sh_store s))"
    using assms(1) by (cases "sh_others s") (auto simp: good_shared_def)
  obtain r d' where r: "op d = (r, d')" by fastforce
  then have i: "interleaved op s = (r, \<lparr>sh_store = d', sh_others = tl (sh_others s), sh_seen = sh_seen s @ [d']\<rparr>)"
    using d(2) by (simp add: interleaved_def Let_def)
  show "\<exists>d. good d \<and> fst (interleaved op s) = fst (op d)" using d(1) r i by auto
  have "set (tl (sh_others s)) \<subseteq> set (sh_others s)" by (cases "sh_others s") auto
  then show "good_shared good (snd (interleaved op s))"
    using assms(1) assms(2) [OF d(1)] unfolding i r good_shared_def by auto
qed

context kept_store
begin

lemma shared_kept: "kept_store (shared_store api) (good_shared good)"
proof (unfold_locales, goal_cases)
  case (5 s i u)
  then obtain d where "good d" "fst (sa_query_by_id api d i) = Ok u"
    using interleaved_good(2) [OF 5(1), of "\<lambda>d. sa_query_by_id api d i"] by_id_good 5(3) by auto
  then show ?case using by_id_typed 5(2) by blast
next
  case (7 s m u)
  then obtain d where "good d" "fst (sa_query_by_email api d m) = Ok u"
    using interleaved_good(2) [OF 7(1), of "\<lambda>d. sa_query_by_email api d m"] by_email_good 7(2) by auto
  then show ?case using by_email_typed by blast
qed (use create_good update_good delete_good by_id_good by_email_good query_good count_good in
    \<open>auto intro!: interleaved_good(1)\<close>)

end

interpretation sh: kept_store "shared_store userdb_store" "good_shared (\<lambda>d. \<exists>us. holds_users d us)"
  by (rule pg.kept.shared_kept)

section \<open>What the others do\<close>

text \<open>A statement of another goroutine, as it changes the database, and a fault of the connection.\<close>

definition statement :: "'r task \<Rightarrow> nat \<Rightarrow> database \<Rightarrow> database" where
  "statement t n d = wd_store (snd (task_step userdb_store t \<lparr>wd_store = d, reads = n\<rparr>))"

definition harmless :: "(database \<Rightarrow> database) \<Rightarrow> bool" where
  "harmless f \<longleftrightarrow> (\<forall>d. (\<exists>us. holds_users d us) \<longrightarrow> (\<exists>us. holds_users (f d) us))"

lemma statement_harmless: "safe_task t \<Longrightarrow> harmless (statement t n)"
  unfolding harmless_def statement_def
proof (intro allI impI, goal_cases)
  case (1 d)
  then show ?case
    using pg.kept.task_step_good [of "\<lparr>wd_store = d, reads = n\<rparr>" t, OF _ 1(1) prod.collapse [symmetric]] by simp
qed

text \<open>
  C4: A request cannot break the table for the others, nor they for it: while any other statements of the
  service are carried out between its accesses to the store, and whatever the request contains, the
  table holds well-formed users with distinct ids and addresses after each of its accesses. So requests
  that interleave statement by statement keep the table together.
\<close>

theorem interleaved_requests_keep_users:
  assumes "cf_api C = shared_store userdb_store" "rand_law (cf_env C)"
    and "wd_store (ap_world g) = \<lparr>sh_store = d, sh_others = others, sh_seen = []\<rparr>"
    and "holds_users d us" "list_all harmless others"
    and "handle_request C rq g = Served (Done (c, h))"
  shows "list_all (\<lambda>d. \<exists>us. holds_users d us \<and> distinct (map u_id us) \<and> distinct (map addr us) \<and>
      list_all (\<lambda>u. typed_user u \<and> fits u) us)
    (sh_store (wd_store (ap_world h)) # sh_seen (wd_store (ap_world h)))"
proof -
  have "good_shared (\<lambda>d. \<exists>us. holds_users d us) (wd_store (ap_world g))"
    using assms(4,5) by (auto simp: assms(3) good_shared_def harmless_def list_all_iff)
  from sh.request_keeps_good [OF assms(1,2) this assms(6)]
  have good: "\<forall>d \<in> set (sh_store (wd_store (ap_world h)) # sh_seen (wd_store (ap_world h))). \<exists>us. holds_users d us"
    by (simp add: good_shared_def)
  have "\<exists>us. holds_users d us \<and> distinct (map u_id us) \<and> distinct (map addr us) \<and> list_all (\<lambda>u. typed_user u \<and> fits u) us"
    if "holds_users d us" for d us
    using that pg.rep_ok [OF that] by (auto simp: users_ok_def list_all_iff)
  then show ?thesis using good unfolding list_all_iff by blast
qed

text \<open>A user is asked for, and deleted by another request before the database is.\<close>

theorem interleaved_requests_keep_users_witness:
  "\<exists>c h us. handle_request (config_over (shared_store userdb_store))
       (sample_request ''GET'' (''/v1/users/'' @ uuid_string (u_id ann)) (Ok JNull))
       \<lparr>ap_world = \<lparr>wd_store = \<lparr>sh_store = db_of [ann, bob] [], sh_others = [statement (delete_task ann) 0], sh_seen = []\<rparr>,
          reads = 7\<rparr>, ap_metrics = metrics_new, ap_log = [], ap_spans = []\<rparr> = Served (Done (c, h)) \<and>
     holds_users (sh_store (wd_store (ap_world h))) us \<and> distinct (map u_id us)"
proof -
  let ?C = "config_over (shared_store userdb_store)"
  let ?rq = "sample_request ''GET'' (''/v1/users/'' @ uuid_string (u_id ann)) (Ok JNull)"
  let ?s = "\<lparr>sh_store = db_of [ann, bob] [], sh_others = [statement (delete_task ann) 0], sh_seen = []\<rparr>"
  let ?g = "\<lparr>ap_world = \<lparr>wd_store = ?s, reads = 7\<rparr>, ap_metrics = metrics_new, ap_log = [], ap_spans = []\<rparr>"
  have wf: "wf_uuid (u_id ann)" using sample_typed(1) by (simp add: typed_user_def)
  have "handle_request ?C ?rq ?g \<noteq> Redirected code" for code
    by (rule not_redirected)
      (simp add: find_user_route(1) [OF uuid_string_no_slash uuid_string_nonempty [OF wf]] del: append.simps)
  then obtain c h where served: "handle_request ?C ?rq ?g = Served (Done (c, h))"
    using main_answers [of ?C ?rq ?g] by blast
  have "harmless (statement (delete_task ann) 0)"
    by (rule statement_harmless) (use sample_typed(1) in \<open>simp add: delete_task_def\<close>)
  then have "list_all harmless [statement (delete_task ann) 0]" by simp
  from interleaved_requests_keep_users [of ?C ?g "db_of [ann, bob] []", OF _ _ _ _ this served, of "[ann, bob]"]
  show ?thesis using served by auto
qed

end
