(* ===== verification/Observed.thy ===== *)
theory Observed
  imports Service
begin

text \<open>
  What is left of a request for those who run the service: the spans that have ended, the counters and
  the log, for the engine that \<^verbatim>\<open>main.go\<close> builds.
\<close>

section \<open>What a handler adds\<close>

text \<open>
  From \<open>s\<close> to \<open>t\<close> the spans \<open>sps\<close> have ended, no request and no error has been counted, the log has only
  grown and the request is the same.
\<close>

definition adds :: "span list \<Rightarrow> 's st \<Rightarrow> 's st \<Rightarrow> bool" where
  "adds sps s t \<longleftrightarrow>
     ap_spans (snd t) = ap_spans (snd s) @ sps \<and>
     me_requests (ap_metrics (snd t)) = me_requests (ap_metrics (snd s)) \<and>
     me_errors (ap_metrics (snd t)) = me_errors (ap_metrics (snd s)) \<and>
     prefix (ap_log (snd s)) (ap_log (snd t)) \<and> gx_request (fst t) = gx_request (fst s)"

lemma adds_refl [simp]: "adds [] s s"
  by (simp add: adds_def)

lemma adds_ctx [simp]:
  "adds sps s (gin_error e c, g) = adds sps s (c, g)" "adds sps s (gin_json n j c, g) = adds sps s (c, g)"
  "adds sps s (gin_status n c, g) = adds sps s (c, g)" "adds sps s (gin_abort c, g) = adds sps s (c, g)"
  "adds sps s (gin_set k v c, g) = adds sps s (c, g)" "adds sps s (write_header_now c, g) = adds sps s (c, g)"
  "adds sps s (c, put_world w g) = adds sps s (c, g)" "adds sps s (c, g\<lparr>ap_world := w\<rparr>) = adds sps s (c, g)"
  by (simp_all add: adds_def gin_status_def write_header_def gin_abort_def write_header_now_def put_world_def)

lemma prefix_log: "prefix out (log_error L ctx msg args out)" "prefix out (log_info L ctx msg args out)"
  by (simp_all add: log_error_def log_info_def log_write_def handle_record_def Let_def)

lemma adds_app [simp]:
  "app_now C g = (x, g') \<Longrightarrow> adds sps s (c, g') = adds sps s (c, g)"
  "adds sps s (c, g) \<Longrightarrow> adds sps s (c, app_log log_error C c' msg args g)"
  by (auto simp: adds_def app_now_def time_now_def app_log_def split: prod.splits
      intro: prefix_order.trans [OF _ prefix_log(1)])

lemma adds_now: "adds sps s (c, g) \<Longrightarrow> app_now C g = (x, g') \<Longrightarrow> adds sps s (c, g')"
  by simp

lemma adds_step [simp]: "adds sps s (step_index t) = adds sps s t"
  by (simp add: adds_def step_index_def)

lemma adds_fail [simp]:
  "everywhere (adds sps s) (fail_with site code msg (c, g)) = adds sps s (c, g)"
  "everywhere (adds sps s) (unauthorized site (c, g)) = adds sps s (c, g)"
  "everywhere (adds sps s) (deny code msg (c, g)) = adds sps s (c, g)"
  by (simp_all add: fail_with_def unauthorized_def deny_def)

lemma adds_traced [simp]: "everywhere (adds [span_of n] s) (traced n r) = everywhere (adds [] s) r"
  by (cases r) (simp_all add: traced_def end_span_def adds_def)

lemma adds_recovered: "adds sps s t \<Longrightarrow> adds sps s (recovered C p t)"
proof -
  assume a: "adds sps s t"
  let ?g = "case gin_get ''metrics'' (fst t) of
      Some v \<Rightarrow> (snd t)\<lparr>ap_metrics := snd (add_panic (ap_metrics (snd t)))\<rparr> | None \<Rightarrow> snd t"
  have "adds sps s (fst t, ?g)"
    using a by (simp add: adds_def add_panic_def Let_def split: option.split)
  then show ?thesis unfolding recovered_def by simp
qed

section \<open>The endpoints\<close>

text \<open>The span of the endpoint of a route.\<close>

definition endpoint_span :: "string \<Rightarrow> string \<Rightarrow> span option" where
  "endpoint_span m p = map_option span_of (map_of
     [((''POST'', ''/v1/users/''), ''user.handler.createUser''), ((''POST'', ''/v1/users/login''), ''user.handler.authenticate''),
      ((''GET'', ''/v1/users/''), ''user.handler.query''), ((''GET'', ''/v1/users/:id''), ''user.handler.queryByID''),
      ((''DELETE'', ''/v1/users/:id''), ''user.handler.deleteUser''), ((''PUT'', ''/v1/users/roles/:id''), ''user.handler.updateRole''),
      ((''PUT'', ''/v1/users/disable/:id''), ''user.handler.disableUser''), ((''PUT'', ''/v1/users/:id''), ''user.handler.updateUser'')] (m, p))"

definition leaves_span :: "span \<Rightarrow> 's hd \<Rightarrow> bool" where
  "leaves_span sp h \<longleftrightarrow> (\<forall>nx s. everywhere (adds [sp] s) (h nx s) \<and> advances s (h nx s))"

lemma leaves_spanI: "(\<And>nx c g. everywhere (adds [sp] (c, g)) (h nx (c, g)) \<and> advances (c, g) (h nx (c, g))) \<Longrightarrow> leaves_span sp h"
  by (auto simp: leaves_span_def)

lemma leaves_span_endpoints:
  "leaves_span (span_of ''user.handler.createUser'') (h_create_user C)"
  "leaves_span (span_of ''user.handler.queryByID'') (h_query_user_by_id C)"
  "leaves_span (span_of ''user.handler.deleteUser'') (h_delete_user C)"
  "leaves_span (span_of ''user.handler.updateUser'') (h_update_user C)"
  "leaves_span (span_of ''user.handler.updateRole'') (h_update_role C)"
  "leaves_span (span_of ''user.handler.disableUser'') (h_disable_user C)"
  "leaves_span (span_of ''user.handler.query'') (h_query C)"
  "leaves_span (span_of ''user.handler.authenticate'') (h_authenticate C)"
  by (rule leaves_spanI;
      simp add: h_create_user_def h_query_user_by_id_def h_delete_user_def h_update_user_def h_update_role_def
        h_disable_user_def h_query_def h_authenticate_def Let_def
        split: prod.split sum.split option.split ctx_val.split bound.split conv.split)+

section \<open>The authentication behind an endpoint\<close>

text \<open>The index never goes back in front of the handlers that are looked at.\<close>

definition adds_from :: "int \<Rightarrow> span list \<Rightarrow> 's st \<Rightarrow> 's st \<Rightarrow> bool" where
  "adds_from k sps s t \<longleftrightarrow> k \<le> gx_index (fst t) \<and> adds sps s t"

lemma keeps_adds_from:
  assumes "k \<le> 63"
  shows "keeps (adds_from k sps s) (mid_authenticate C)" "keeps (adds_from k sps s) (mid_authorized C roles)"
proof -
  have deny: "adds_from k sps s (c, g) \<Longrightarrow> everywhere (adds_from k sps s) (deny code msg (c, g))" for code msg c g
    using assms by (simp add: adds_from_def deny_def)
  have more: "adds_from k sps s (c, g\<lparr>ap_world := w\<rparr>) = adds_from k sps s (c, g)"
    "adds_from k sps s (c, g) \<Longrightarrow> adds_from k sps s (c, app_log log_error C c' msg args g)"
    "adds_from k sps s (gin_set x v c, g) = adds_from k sps s (c, g)" for c c' g w msg args x v
    by (simp_all add: adds_from_def)
  show "keeps (adds_from k sps s) (mid_authenticate C)"
  proof (rule keepsI, goal_cases)
    case (1 nx t)
    obtain c g where t: "t = (c, g)" by fastforce
    obtain x g' where now: "app_now C g = (x, g')" by fastforce
    then have I: "adds_from k sps s (c, g')" using 1(2) unfolding t by (simp add: adds_from_def)
    show ?case
      using 1 I unfolding t by (simp add: mid_authenticate_def Let_def now deny more split: prod.split sum.split)
  qed
  show "keeps (adds_from k sps s) (mid_authorized C roles)"
  proof (rule keepsI, goal_cases)
    case (1 nx t)
    then show ?case by (cases t) (simp add: mid_authorized_def deny split: option.split ctx_val.split)
  qed
qed

definition guards :: "('s, 'k) config \<Rightarrow> 's hd list \<Rightarrow> bool" where
  "guards C hs \<longleftrightarrow> (\<forall>h \<in> set hs. h = mid_authenticate C \<or> (\<exists>roles. h = mid_authorized C roles))"

lemma endpoint_span_simps [simp]:
  "endpoint_span ''POST'' ''/v1/users/'' = Some (span_of ''user.handler.createUser'')"
  "endpoint_span ''POST'' ''/v1/users/login'' = Some (span_of ''user.handler.authenticate'')"
  "endpoint_span ''GET'' ''/v1/users/'' = Some (span_of ''user.handler.query'')"
  "endpoint_span ''GET'' ''/v1/users/:id'' = Some (span_of ''user.handler.queryByID'')"
  "endpoint_span ''DELETE'' ''/v1/users/:id'' = Some (span_of ''user.handler.deleteUser'')"
  "endpoint_span ''PUT'' ''/v1/users/roles/:id'' = Some (span_of ''user.handler.updateRole'')"
  "endpoint_span ''PUT'' ''/v1/users/disable/:id'' = Some (span_of ''user.handler.disableUser'')"
  "endpoint_span ''PUT'' ''/v1/users/:id'' = Some (span_of ''user.handler.updateUser'')"
  by (simp_all add: endpoint_span_def)

lemma route_endpoint:
  assumes "(m, p, hs) \<in> set (user_routes C)"
  shows "\<exists>h rest sp. hs = h # rest \<and> endpoint_span m p = Some sp \<and> leaves_span sp h \<and> guards C rest"
proof -
  have "list_all (\<lambda>(m, p, hs). hs \<noteq> [] \<and> endpoint_span m p \<noteq> None \<and>
      leaves_span (the (endpoint_span m p)) (hd hs) \<and> guards C (tl hs)) (user_routes C)"
    by (simp add: user_routes_def leaves_span_endpoints guards_def mid_user_def mid_admin_def) blast
  then show ?thesis
    using assms by (cases hs) (auto simp: list_all_iff)
qed

lemma endpoint_chain_adds:
  assumes "leaves_span sp h" "guards C rest" "gx_index (fst t) = 4"
  shows "everywhere (adds [sp] t) (next_loop (Suc n) (main_handlers C @ h # rest) t)"
proof -
  let ?hs = "main_handlers C @ h # rest" and ?I = "adds_from 5 [sp] t"
  let ?nx = "\<lambda>u. next_loop n ?hs (step_index u)"
  have rest: "everywhere ?I (?nx u)" if "adds [sp] t u" "4 \<le> gx_index (fst u)" for u
  proof (rule next_loop_keeps_at)
    fix v assume v: "?I v" "gx_index (fst v) < int (length ?hs)"
    then have "?hs ! nat (gx_index (fst v)) \<in> set rest"
      by (auto simp: nth_append nth_Cons' main_handlers_def adds_from_def nat_diff_distrib intro!: nth_mem)
    then show "keeps ?I (?hs ! nat (gx_index (fst v)))"
      using assms(2) keeps_adds_from [of 5 "[sp]" t C] unfolding guards_def by fastforce
  qed (use that in \<open>simp_all add: adds_from_def\<close>)
  have "4 < length ?hs" "?hs ! 4 = h" by (simp_all add: main_handlers_def)
  then have step: "next_loop (Suc n) ?hs t = and_then (h ?nx t) ?nx"
    using assms(3) by simp
  have "everywhere (adds [sp] t) (h ?nx t)" "advances t (h ?nx t)" using assms(1) unfolding leaves_span_def by blast+
  then show ?thesis
    using rest assms(3) unfolding step
    by (cases "h ?nx t"; cases "?nx (case h ?nx t of Done u \<Rightarrow> u)") (fastforce simp: abort_index_def adds_from_def)+
qed

section \<open>The stack around the handlers\<close>

definition request_trace :: "('s, 'k) config \<Rightarrow> request \<Rightarrow> string option" where
  "request_trace C rq =
     (case cf_trace_id C rq of Some t \<Rightarrow> set_trace_id (rq_trace rq) t | None \<Rightarrow> rq_trace rq)"

definition request_log_ctx :: "('s, 'k) config \<Rightarrow> request \<Rightarrow> string \<Rightarrow> log_ctx" where
  "request_log_ctx C rq msg =
     \<lparr>lc_trace = request_trace C rq, lc_runtime = cf_runtime C, lc_stack = cf_frames C msg\<rparr>"

lemma logger_about_trace [simp]: "logger_about (rq\<lparr>rq_trace := x\<rparr>) = logger_about rq"
  by (simp add: logger_about_def full_path_def)

lemma app_now_log [simp]:
  "ap_log (snd (app_now C g)) = ap_log g" "ap_spans (snd (app_now C g)) = ap_spans g"
  "ap_metrics (snd (app_now C g)) = ap_metrics g"
  by (simp_all add: app_now_def time_now_def split: prod.split)

lemma stack_before_adds:
  "ap_spans (snd (stack_before C s)) = ap_spans (snd s)"
  "me_requests (ap_metrics (snd (stack_before C s))) = wrap64 (me_requests (ap_metrics (snd s)) + 1)"
  "me_errors (ap_metrics (snd (stack_before C s))) = me_errors (ap_metrics (snd s))"
  "gx_request (fst (stack_before C s)) = (gx_request (fst s))\<lparr>rq_trace := request_trace C (gx_request (fst s))\<rparr>"
  "ap_log (snd (stack_before C s)) =
     log_info (cf_log C) (request_log_ctx C (gx_request (fst s)) ''request started'')
       ''request started'' (logger_about (gx_request (fst s))) (ap_log (snd s))"
  by (simp_all add: stack_before_def Let_def metrics_before_def add_request_alone add_goroutine_def logger_before_def
      telemetry_before_def step_index_def app_log_def request_trace_def request_log_ctx_def gin_set_def
      split: prod.split cong: option.case_cong)

lemma stack_after_adds:
  "\<exists>size. ap_spans (snd (stack_after C s u)) = ap_spans (snd u) @
     [\<lparr>sp_name = ''http.request'',
       sp_attrs = request_attrs C (fst s) @ [(''http.status_code'', JNum (itoa (gx_status (fst u)))),
         (''http.response_size'', JNum size)],
       sp_error = (gx_status (fst u) \<ge> 400)\<rparr>]"
  "me_requests (ap_metrics (snd (stack_after C s u))) = me_requests (ap_metrics (snd u))"
  "me_errors (ap_metrics (snd (stack_after C s u))) =
     (if gx_status (fst u) \<ge> 400 then wrap64 (me_errors (ap_metrics (snd u)) + 1) else me_errors (ap_metrics (snd u)))"
  "gx_status (fst (stack_after C s u)) = gx_status (fst u)"
  "\<exists>took. ap_log (snd (stack_after C s u)) =
     log_info (cf_log C) \<lparr>lc_trace = rq_trace (gx_request (fst u)), lc_runtime = cf_runtime C,
         lc_stack = cf_frames C ''request completed''\<rparr>
       ''request completed'' (logger_about (gx_request (fst s)) @ [LStr ''statusCode'',
         LAny (itoa (gx_status (fst u))), LStr ''took'', LAny took]) (ap_log (snd u))"
  by (auto simp: stack_after_def Let_def metrics_after_def add_error_def logger_after_def telemetry_after_def
      telemetry_before_def end_span_def step_index_def app_log_def request_attrs_def response_attrs_def)

section \<open>A request as it is observed\<close>

text \<open>
  The spans \<open>sps\<close> and then that of the request have ended, the request is counted, and so is an error when
  the status says so; the log has been given the two lines of the request, with what came between.
\<close>

definition observed :: "('s, 'k) config \<Rightarrow> request \<Rightarrow> span list \<Rightarrow> 's app \<Rightarrow> int \<Rightarrow> 's app \<Rightarrow> bool" where
  "observed C rq sps g status h \<longleftrightarrow>
     (\<exists>sp between took.
        ap_spans h = ap_spans g @ sps @ [sp] \<and> sp_name sp = ''http.request'' \<and> sp_error sp = (status \<ge> 400) \<and>
        map_of (sp_attrs sp) ''http.method'' = Some (JStr (rq_method rq)) \<and>
        map_of (sp_attrs sp) ''http.status_code'' = Some (JNum (itoa status)) \<and>
        me_requests (ap_metrics h) = wrap64 (me_requests (ap_metrics g) + 1) \<and>
        me_errors (ap_metrics h) =
          (if status \<ge> 400 then wrap64 (me_errors (ap_metrics g) + 1) else me_errors (ap_metrics g)) \<and>
        prefix (log_info (cf_log C) (request_log_ctx C rq ''request started'') ''request started''
          (logger_about rq) (ap_log g)) between \<and>
        ap_log h = log_info (cf_log C) (request_log_ctx C rq ''request completed'') ''request completed''
          (logger_about rq @ [LStr ''statusCode'', LAny (itoa status), LStr ''took'', LAny took]) between)"

lemma stack_observed:
  assumes "adds sps (stack_before C (c, g)) u"
  shows "observed C (gx_request c) sps g (gx_status (fst u)) (snd (stack_after C (c, g) u)) \<and>
    gx_status (fst (stack_after C (c, g) u)) = gx_status (fst u)"
proof -
  note before = stack_before_adds [of C "(c, g)"] and after = stack_after_adds [of C "(c, g)" u]
  obtain size where "ap_spans (snd (stack_after C (c, g) u)) = ap_spans (snd u) @
     [\<lparr>sp_name = ''http.request'',
       sp_attrs = request_attrs C c @ [(''http.status_code'', JNum (itoa (gx_status (fst u)))),
         (''http.response_size'', JNum size)],
       sp_error = (gx_status (fst u) \<ge> 400)\<rparr>]" (is "_ = _ @ [?sp]")
    using after(1) by auto
  moreover have "map_of (sp_attrs ?sp) ''http.method'' = Some (JStr (rq_method (gx_request c)))"
    "map_of (sp_attrs ?sp) ''http.status_code'' = Some (JNum (itoa (gx_status (fst u))))"
    by (simp_all add: request_attrs_def Let_def)
  moreover obtain took where "ap_log (snd (stack_after C (c, g) u)) =
      log_info (cf_log C) (request_log_ctx C (gx_request c) ''request completed'') ''request completed''
       (logger_about (gx_request c) @ [LStr ''statusCode'', LAny (itoa (gx_status (fst u))), LStr ''took'', LAny took])
       (ap_log (snd u))"
    using after(5) assms before(4) by (auto simp: adds_def request_log_ctx_def)
  moreover have "prefix (log_info (cf_log C) (request_log_ctx C (gx_request c) ''request started'') ''request started''
      (logger_about (gx_request c)) (ap_log g)) (ap_log (snd u))"
    using assms before(5) by (simp add: adds_def)
  ultimately show ?thesis
    using assms before(1-3) after(2-4) unfolding observed_def adds_def
    by (intro conjI exI [of _ ?sp] exI [of _ "ap_log (snd u)"] exI [of _ took]) simp_all
qed

lemma route_observed:
  assumes "find_route (main_engine C) (rq_method rq) (rq_path rq) = Some (rt, ps)"
  shows "\<exists>c h sp. handle_request C rq g = Served (Done (c, h)) \<and> endpoint_span (rq_method rq) (rt_path rt) = Some sp \<and>
    observed C rq [sp] g (gx_status c) h"
proof -
  obtain hs where hs: "rt_handlers rt = main_handlers C @ hs" "(rq_method rq, rt_path rt, hs) \<in> set (user_routes C)"
    using route_handlers [OF assms] by blast
  obtain h rest sp where h: "hs = h # rest" "endpoint_span (rq_method rq) (rt_path rt) = Some sp"
      "leaves_span sp h" "guards C rest"
    using route_endpoint [OF hs(2)] by blast
  let ?s = "(new_ctx rq ps (rt_path rt), g)"
  let ?r = "next_loop (Suc (length hs)) (main_handlers C @ hs) (stack_before C ?s)"
  have "everywhere (adds [sp] (stack_before C ?s)) ?r"
    using endpoint_chain_adds [OF h(3,4), of "stack_before C ?s"] unfolding h(1) by (simp del: next_loop.simps)
  moreover have "advances (stack_before C ?s) ?r"
    using route_length [OF hs(2)] user_routes_steady [OF hs(2)]
    by (intro next_loop_advances) (simp_all add: main_handlers_def del: next_loop.simps)
  ultimately obtain u where u: "caught C ?r = Some u" "adds [sp] (stack_before C ?s) u"
    by (cases ?r) (simp_all add: adds_recovered del: next_loop.simps)
  have "length hs < 59" using route_length [OF hs(2)] by simp
  then have "handle_request C rq g =
      Served (Done (write_header_now (fst (stack_after C ?s u)), snd (stack_after C ?s u)))"
    using main_run [OF _ _ u(1)] request_found [OF assms, of g] unfolding hs(1) serve_def by (simp del: next_loop.simps)
  then show ?thesis
    using stack_observed [OF u(2)] h(2) by (auto simp: write_header_now_def)
qed

lemma other_observed:
  assumes "handle_request C rq g = Served (serve_not_found (main_handlers C) (new_ctx rq ps [], g))"
  shows "\<exists>c h. handle_request C rq g = Served (Done (c, h)) \<and> observed C rq [] g (gx_status c) h"
proof -
  let ?c = "(new_ctx rq ps [])\<lparr>gx_status := StatusNotFound\<rparr>"
  let ?u = "stack_before C (?c, g)"
  have "caught C (next_loop (Suc (length [])) (main_handlers C @ []) ?u) = Some ?u"
    by (simp add: main_handlers_def)
  from main_run [OF _ _ this] have run:
    "gin_next (Suc (length (main_handlers C))) (main_handlers C) (?c, g) = Done (stack_after C (?c, g) ?u)"
    by (simp del: next_loop.simps)
  let ?t = "stack_after C (?c, g) ?u"
  have "\<exists>c. serve_not_found (main_handlers C) (new_ctx rq ps [], g) = Done (c, snd ?t) \<and> gx_status c = gx_status (fst ?t)"
    using run by (cases ?t) (simp add: serve_not_found_def write_body_def write_header_now_def Let_def)
  moreover have "observed C rq [] g (gx_status (fst ?t)) (snd ?t)"
    using stack_observed [of "[]" C ?c g ?u] by simp
  ultimately show ?thesis using assms by auto
qed

text \<open>
  C6: Whatever a request does and whoever it asks for, those who run the service see it once, unless the
  router redirects it: the span of the endpoint that its route leads to has ended, exactly one, and then
  that of the request, with the status that was sent; the request is counted, and an error is counted
  exactly when that status is at least 400; the log has the line of its start, what came between, and the
  line of its end, with the same status and under the trace id of the span. A panic makes no difference.
\<close>

theorem request_is_observed:
  "(\<exists>code \<in> {301, 307}. handle_request C rq g = Redirected code) \<or>
   (\<exists>c h status sps. handle_request C rq g = Served (Done (c, h)) \<and> gx_sent c = Some status \<and>
      observed C rq sps g status h \<and>
      (case find_route (main_engine C) (rq_method rq) (rq_path rq) of
         None \<Rightarrow> sps = []
       | Some (rt, ps) \<Rightarrow> \<exists>sp. endpoint_span (rq_method rq) (rt_path rt) = Some sp \<and> sps = [sp]))"
proof (cases "\<exists>code \<in> {301, 307}. handle_request C rq g = Redirected code")
  case False
  have "\<exists>c h sps. handle_request C rq g = Served (Done (c, h)) \<and> observed C rq sps g (gx_status c) h \<and>
      (case find_route (main_engine C) (rq_method rq) (rq_path rq) of
         None \<Rightarrow> sps = []
       | Some (rt, ps) \<Rightarrow> \<exists>sp. endpoint_span (rq_method rq) (rt_path rt) = Some sp \<and> sps = [sp])"
  proof (cases "find_route (main_engine C) (rq_method rq) (rq_path rq)")
    case None
    then show ?thesis using request_not_found [OF None, of g] other_observed False by fastforce
  next
    case (Some q)
    then show ?thesis using route_observed [of C rq "fst q" "snd q" g] by (cases q) fastforce
  qed
  moreover have "\<exists>c h. handle_request C rq g = Served (Done (c, h)) \<and> gx_sent c = Some (gx_status c)"
    using main_answers [of C rq g] False by (auto simp: writer_ok_def)
  ultimately show ?thesis by auto
qed simp

end
