(* ===== verification/Spec2Isabelle.thy ===== *)
theory Spec2Isabelle
  imports SignUp EndpointProperties StartupProperties DbTest Interference Observed
begin

text \<open>
  A verification development of Jumble, a user service in Go (module \<^verbatim>\<open>github.com/hamidoujand/jumble\<close>): one
  HTTP API over a table of users in PostgreSQL, with sign-up, log-in by password, tokens signed with RSA
  keys, and roles.

  \<^bold>\<open>How the program is built.\<close> \<^verbatim>\<open>cmd/services/main.go\<close> reads the configuration, opens the database, sets up
  tracing, loads the keys, and builds a \<^verbatim>\<open>gin\<close> engine: the middlewares \<^verbatim>\<open>Telemetry\<close>, \<^verbatim>\<open>Logger\<close>, \<^verbatim>\<open>Metrics\<close>
  and \<^verbatim>\<open>Panic\<close> in front of the routes of \<^verbatim>\<open>internal/domains/user/handler\<close>. An endpoint binds and validates the
  request, calls the bus (\<^verbatim>\<open>internal/domains/user/bus\<close>), and the bus calls the store
  (\<^verbatim>\<open>internal/domains/user/store/userdb\<close>), which sends SQL. \<^verbatim>\<open>Authenticate\<close> and \<^verbatim>\<open>Authorized\<close> use \<^verbatim>\<open>internal/auth\<close>
  over the vendored JWT library and the key store of \<^verbatim>\<open>pkg/keystore\<close>. Two further servers report health and
  debug data. \<^verbatim>\<open>cmd/admin\<close> runs the migrations.

  \<^bold>\<open>Theories and the code that they model.\<close>
  \<^item> \<open>Prelude\<close>, \<open>GoErrors\<close>, \<open>GoStrings\<close>: 64-bit integers, error values with \<^verbatim>\<open>errors.Is\<close> and \<^verbatim>\<open>errors.As\<close>
    (\<^verbatim>\<open>internal/errs\<close>), the functions of \<^verbatim>\<open>strings\<close>, \<^verbatim>\<open>strconv\<close>, \<^verbatim>\<open>utf8\<close> and \<^verbatim>\<open>path\<close> that are called.
  \<^item> \<open>Users\<close>, \<open>Roles\<close>, \<open>Uuid\<close>, \<open>OrderBy\<close>, \<open>Paging\<close>: the data (\<^verbatim>\<open>bus/models.go\<close>, \<^verbatim>\<open>filter.go\<close>, \<^verbatim>\<open>roles.go\<close>,
    \<^verbatim>\<open>order.go\<close>, \<^verbatim>\<open>userdb/models.go\<close>, \<^verbatim>\<open>userdb/order.go\<close>, \<^verbatim>\<open>internal/page\<close>, the vendored \<^verbatim>\<open>google/uuid\<close>).
  \<^item> \<open>Varchar\<close>, \<open>Sql\<close>: the table of \<^verbatim>\<open>internal/migrate/sql\<close> and the meaning of statement texts: a column that
    cuts spaces beyond its width and refuses any other text that is too long, rows that each query finds in an
    order of its own, a driver that reports a connection broken before the first row. \<open>UserStore\<close>: every
    operation of \<^verbatim>\<open>userdb.go\<close> as the text and the arguments it sends. \<open>StoreSpec\<close>: the abstract store, a list of
    users, and that every operation refines its operation on the list; a listing is any sorted permutation of the
    users that match (\<open>listing\<close>). \<open>StoreContract\<close>: the interface \<^verbatim>\<open>store\<close> of
    \<^verbatim>\<open>bus.go\<close> as the locale \<open>user_store\<close>, a sublocale of the weaker \<open>kept_store\<close> for a store that others use,
    and its interpretation \<open>pg\<close> by \<^verbatim>\<open>userdb\<close>.
  \<^item> \<open>UserBus\<close>: the operations of \<^verbatim>\<open>bus.go\<close> over any store. \<open>Concurrency\<close>: the same operations as sequences of
    accesses to the clock, the random source and the store, and the steps of a pool of them. \<open>Interference\<close>: a
    whole request over a store that others use between its accesses.
  \<^item> \<open>Interleaving\<close>: operations on shared memory as sequences of atomic sections, pools of them, and their
    invariants (the locale \<open>shared_state\<close>); \<open>Keystore\<close> and \<open>Metrics\<close> define \<^verbatim>\<open>SetActiveKey\<close> and \<^verbatim>\<open>AddRequest\<close> as
    such sequences and the operation as what they do alone.
  \<^item> \<open>Keystore\<close>, \<open>Base64\<close>, \<open>Jwt\<close>, \<open>Auth\<close>: \<^verbatim>\<open>pkg/keystore\<close>, what is used of the JWT library, \<^verbatim>\<open>internal/auth\<close>;
    the locale \<open>key_loader\<close> is the interface \<^verbatim>\<open>keyLoader\<close> of \<^verbatim>\<open>auth.go\<close>, interpreted by the key store.
  \<^item> \<open>Gin\<close>, \<open>JsonDecode\<close>, \<open>Validation\<close>: what is used of the vendored \<^verbatim>\<open>gin\<close> and \<^verbatim>\<open>validator\<close> and of
    \<^verbatim>\<open>encoding/json\<close>: the chain of handlers, the response writer, the binding of structs with their tags.
  \<^item> \<open>RadixTree\<close>: the nodes of \<^verbatim>\<open>tree.go\<close> of \<^verbatim>\<open>gin\<close> with \<^verbatim>\<open>addRoute\<close>, \<^verbatim>\<open>insertChild\<close> and \<^verbatim>\<open>getValue\<close>, its
    skipped nodes included. \<open>Router\<close>: the engine with one tree per method, the groups, \<^verbatim>\<open>handleHTTPRequest\<close>, and
    the reference, the best match over the list of routes. \<open>RouteTrees\<close> and \<open>RouteRedirects\<close>: the four trees that
    the program makes, what the search finds in them for any path, and that it is the reference.
  \<^item> \<open>Metrics\<close>, \<open>Logger\<close>, \<open>Tracing\<close>: \<^verbatim>\<open>internal/metrics\<close>, \<^verbatim>\<open>pkg/logger\<close> and \<^verbatim>\<open>pkg/telemetry\<close>.
  \<^item> \<open>AppModels\<close>, \<open>Handlers\<close>, \<open>Middleware\<close>, \<open>Routes\<close>: \<^verbatim>\<open>handler/models.go\<close>, \<^verbatim>\<open>filters.go\<close>, \<^verbatim>\<open>handler.go\<close>,
    \<^verbatim>\<open>routes.go\<close>, and the seven middlewares of \<^verbatim>\<open>internal/mid\<close>. A handler takes the rest of its chain and a
    state, the context of \<^verbatim>\<open>gin\<close> with the application (\<open>app\<close>: database, counter of readings, metrics, log, spans),
    and is done or panics with a state.
  \<^item> \<open>Connection\<close>, \<open>Health\<close>, \<open>Docker\<close>, \<open>Admin\<close>, \<open>DbTest\<close>, \<open>Startup\<close>: \<^verbatim>\<open>internal/sqldb\<close>, the health and debug
    servers, \<^verbatim>\<open>pkg/docker\<close>, \<^verbatim>\<open>internal/migrate\<close> with \<^verbatim>\<open>cmd/admin\<close>, \<^verbatim>\<open>internal/dbtest\<close>, and
    \<^verbatim>\<open>cmd/services/main.go\<close> as the list of what it does.
  \<^item> \<open>Endpoints\<close>, \<open>Service\<close>, \<open>Effects\<close>, \<open>Safety\<close>, \<open>LeafRoutes\<close>: lemmas on whole requests. \<open>Observed\<close>: the
    spans, the counters and the log that a request leaves. \<open>DataProperties\<close>,
    \<open>AccessProperties\<close>, \<open>EndpointProperties\<close>, \<open>SignUp\<close>, \<open>StartupProperties\<close> and this theory: the properties.
    \<open>SampleJson\<close> and \<open>Samples\<close>: values to evaluate them on.

  \<^bold>\<open>What the theorems show.\<close> On the data: round trips of roles and ids, exact bounds of a page, a closed set of
  orders. On the store and the bus: each operation is its abstract one on a working connection, writes are
  all or nothing on a failing one, the pages make up the list where the keys of the order differ and can miss a
  user where they do not, an update touches what it says, and every
  history keeps the ids and addresses distinct. On concurrency: no interleaving of the statements of requests
  breaks the table or accepts an address twice, a request keeps the table for the others at each of its
  accesses, and concurrent changes lose each other's effect. On keys and tokens: what a load leaves, the active key under
  interleaving, and that a token is accepted only if it is signed by a key of the store and within its times.
  On routing: the radix tree and the list of routes are equivalent. On requests: every one is answered, none breaks the table, what is behind the guards runs only for an enabled
  user with a signed token; sign-up, log-in and the list from end to end; panics are contained; spans, counters and log
  show each request once, with the status that was sent. On the program: what serves has its signing key, and what a signal does.
  Several properties state a behaviour that is hardly meant: in \<^verbatim>\<open>routes.go\<close> the endpoints are registered in
  front of their authentication, \<^verbatim>\<open>main.go\<close> never installs \<^verbatim>\<open>mid.Error\<close>, roles can never be updated nor users
  disabled, pages are ordered by one column that need not be unique, and the shutdown does not wait. The endpoints behind an authentication are therefore also treated
  on their own, from a context that has the caller.

  \<^bold>\<open>Fuel and bounds.\<close> \<^verbatim>\<open>Context.Next\<close> is a loop over an index that handlers move themselves; \<open>gin_next\<close> has fuel,
  one more than the handlers in the chain, and \<open>every_request_answered\<close> shows that it never runs out, since
  every handler leaves the index at or above where it found it. The loop of \<^verbatim>\<open>ConnCheck\<close> ends by the deadline
  that it always has. The registration and the search of the radix tree are total functions: the one descends
  in the weight of the tree, the other in the cost of the node and of the nodes to go back to, which have lost
  their indices. Integers of Go are in \<open>int\<close>, with \<open>wrap64\<close> where the code can leave 64 bits: the offset of a
  page and the counters.

  \<^bold>\<open>Parameters and their laws.\<close> The clock, the random source and bcrypt (\<open>env\<close>, with \<open>bcrypt_law\<close> and
  \<open>rand_law\<close>); RSA and the text of JSON (\<open>jwt_env\<close>, with \<open>rsa_law\<close>, \<open>json_law\<close> and \<open>num_law\<close>); PEM and X.509
  (\<open>crypto\<close>); mail addresses, regular expressions and times in text (\<open>text_env\<close>); the collation of the
  database, the order in which a query finds rows, and the faults of the connection; client address, sizes, stacks and translations (\<open>config\<close>); the driver of a connection, the
  exporters, docker, cobra and the migration library. Every law is met by a concrete instance in the examples.

  \<^bold>\<open>Not modelled.\<close> The bytes of HTTP and JSON and the headers that the program does not read; timeouts of the
  server; the interleaving of requests beyond the statements on the database, the metrics and the key store;
  what a span holds beyond its name, its attributes and its status, and the order between the spans of the store
  and those of the handlers, which are kept in two logs although \<^verbatim>\<open>main.go\<close> has one tracer; transactions other than single statements; what an exporter sends; the
  text and the time of a log record; of the router case folding, compression and raw paths and the pool of
  contexts; the tags of the validator that no model uses; other statements than the
  ones that are sent.
\<close>

section \<open>Every request\<close>

text \<open>
  C1: Every request is answered, whatever it holds and whatever the store, the log and the tokens do:
  the chain of handlers ends within its fuel, no panic gets past the stack of \<^verbatim>\<open>main.go\<close>, and exactly
  one status line is sent, unless the router redirects the request to the path with or without its last
  slash.
\<close>

theorem every_request_answered:
  "(\<exists>code \<in> {301, 307}. handle_request C rq g = Redirected code) \<or>
   (\<exists>c h. handle_request C rq g = Served (Done (c, h)) \<and> gx_sent c = Some (gx_status c))"
  using main_answers [of C rq g] by (auto simp: writer_ok_def)

text \<open>
  C2: No request can break the table of users: whatever it contains and however the connection fails
  while it is served, the table holds well-formed users with distinct ids and addresses afterwards.
\<close>

theorem requests_keep_users:
  assumes "cf_api C = userdb_store" "rand_law (cf_env C)" "holds_users (wd_store (ap_world g)) us"
    and "handle_request C rq g = Served (Done (c, h))"
  shows "\<exists>us'. holds_users (wd_store (ap_world h)) us' \<and> distinct (map u_id us') \<and> distinct (map addr us') \<and>
    list_all (\<lambda>u. typed_user u \<and> fits u) us'"
  using pg.request_keeps_db [OF assms] by (auto simp: users_ok_def list_all_iff)

theorem requests_keep_users_witness:
  "\<exists>c h us'. handle_request sample_config (sample_request ''GET'' (''/v1/users/'' @ uuid_string (u_id ann)) (Ok JNull))
       (sample_app [ann]) = Served (Done (c, h)) \<and> holds_users (wd_store (ap_world h)) us' \<and> distinct (map u_id us')"
proof -
  have wf: "wf_uuid (u_id ann)" using sample_typed(1) by (simp add: typed_user_def)
  let ?rq = "sample_request ''GET'' (''/v1/users/'' @ uuid_string (u_id ann)) (Ok JNull)"
  have "handle_request sample_config ?rq (sample_app [ann]) \<noteq> Redirected code" for code
    by (rule not_redirected)
      (simp add: find_user_route(1) [OF uuid_string_no_slash uuid_string_nonempty [OF wf]] del: append.simps)
  then obtain c h where "handle_request sample_config ?rq (sample_app [ann]) = Served (Done (c, h))"
    using main_answers [of sample_config ?rq "sample_app [ann]"] by blast
  then show ?thesis
    using requests_keep_users [of sample_config "sample_app [ann]" "[ann]" ?rq c h] sample_env_laws by auto
qed

text \<open>
  C21: The engine of \<^verbatim>\<open>main.go\<close> never reports an error of sign-up, the list or log-in: whatever the
  request, the endpoint does not panic, and either the answer is its one JSON value with 200 or 201, or it
  has recorded one error and the client gets status 200 with an empty body. With \<^verbatim>\<open>mid.Error\<close> in front of the
  same endpoint, where only the tests of the handlers put it, a request whose endpoint records an error is
  answered with 400 or 500 and the error in JSON.
\<close>

theorem errors_are_silent:
  assumes "find_route (main_engine C) (rq_method rq) (rq_path rq) = Some (rt, ps)"
    and "rt_path rt \<in> {''/v1/users/'', ''/v1/users/login''}" "\<forall>x. rq_body rq = Err x \<longrightarrow> as_app x = None"
  shows "(\<exists>c h. handle_request C rq g = Served (Done (c, h)) \<and>
      ((gx_errors c = [] \<and> gx_sent c \<in> {Some StatusOK, Some StatusCreated} \<and> length (gx_body c) = 1) \<or>
       (length (gx_errors c) = 1 \<and> gx_sent c = Some StatusOK \<and> gx_body c = []))) \<and>
    (\<exists>endpoint c h. rt_handlers rt = main_handlers C @ [endpoint] \<and>
      serve [mid_error C, endpoint] (new_ctx rq ps (rt_path rt), g) = Done (c, h) \<and>
      ((gx_errors c = [] \<and> gx_sent c \<in> {Some StatusOK, Some StatusCreated} \<and> length (gx_body c) = 1) \<or>
       (\<exists>e. gx_errors c = [e] \<and> gx_sent c = Some (error_status e) \<and> gx_body c = [error_json (cf_text C) e] \<and>
          error_status e \<in> {StatusBadRequest, StatusInternalServerError})))"
proof
  obtain h where h: "rt_handlers rt = main_handlers C @ [h]" "leaf C h"
    using leaf_route [OF assms(1) refl assms(2)] by blast
  have "\<exists>t. handle_request C rq g = Served (Done (write_header_now (fst t), snd t)) \<and> silent t"
  proof (rule single_route [OF assms(1) h(1)])
    show "\<exists>u. h nx t = Done u \<and> gx_index (fst u) = 4 \<and> silent u"
      if "view t = view (new_ctx rq ps (rt_path rt), g)" "gx_index (fst t) = 4" for nx t
      using leaf_silent [OF h(2) that(1), of nx] that(2) by simp
  qed (rule silent_view)
  then show "\<exists>c h. handle_request C rq g = Served (Done (c, h)) \<and>
      ((gx_errors c = [] \<and> gx_sent c \<in> {Some StatusOK, Some StatusCreated} \<and> length (gx_body c) = 1) \<or>
       (length (gx_errors c) = 1 \<and> gx_sent c = Some StatusOK \<and> gx_body c = []))"
    by (fastforce simp: silent_def write_header_now_def)
  show "\<exists>endpoint c h. rt_handlers rt = main_handlers C @ [endpoint] \<and>
      serve [mid_error C, endpoint] (new_ctx rq ps (rt_path rt), g) = Done (c, h) \<and>
      ((gx_errors c = [] \<and> gx_sent c \<in> {Some StatusOK, Some StatusCreated} \<and> length (gx_body c) = 1) \<or>
       (\<exists>e. gx_errors c = [e] \<and> gx_sent c = Some (error_status e) \<and> gx_body c = [error_json (cf_text C) e] \<and>
          error_status e \<in> {StatusBadRequest, StatusInternalServerError}))"
    using leaf_reported [OF h(2), of rq ps "rt_path rt" g] h(1) assms(3) by blast
qed

theorem errors_are_silent_witness:
  "\<exists>c h. handle_request sample_config (sample_request ''POST'' ''/v1/users/'' (Err (ErrPlain ''EOF''))) (sample_app []) =
     Served (Done (c, h)) \<and> gx_sent c \<in> {Some StatusOK, Some StatusCreated}"
proof -
  let ?rq = "sample_request ''POST'' ''/v1/users/'' (Err (ErrPlain ''EOF''))"
  have "find_route (main_engine sample_config) (rq_method ?rq) (rq_path ?rq) =
      Some (\<lparr>rt_method = ''POST'', rt_path = ''/v1/users/'',
        rt_handlers = main_handlers sample_config @ [h_create_user sample_config]\<rparr>, [])"
    unfolding sample_request_simps(1,2) by (rule find_post_route)
  from errors_are_silent [OF this, of "sample_app []"] show ?thesis by auto
qed

text \<open>
  C5: The radix tree of the router is equivalent to a look through the list of routes. Registering the routes
  never panics and leaves exactly the eight of \<^verbatim>\<open>routes.go\<close>, and for an arbitrary method and path the search,
  which prefers literals and goes back to skipped nodes, runs the chain of the best match, segment by
  segment, with the same parameters. Where no route matches, it redirects exactly if the path with or
  without its last slash has a route, or ends with a parameter that is empty between two slashes, for
  which the redirection leads to no route; otherwise the answer is that for a missing page.
\<close>

theorem radix_routing_exact:
  "en_panic (main_engine C) = None \<and>
   en_routes (main_engine C) =
     map (\<lambda>(m, p, hs). \<lparr>rt_method = m, rt_path = p, rt_handlers = main_handlers C @ hs\<rparr>) (user_routes C) \<and>
   (case find_route (main_engine C) (rq_method rq) (rq_path rq) of
      Some (rt, ps) \<Rightarrow> handle_request C rq g = Served (serve (rt_handlers rt) (new_ctx rq ps (rt_path rt), g))
    | None \<Rightarrow>
        if recommended (main_engine C) (rq_method rq) (rq_path rq)
        then handle_request C rq g = Redirected (if rq_method rq = ''GET'' then 301 else 307)
        else \<exists>ps. handle_request C rq g = Served (serve_not_found (main_handlers C) (new_ctx rq ps [], g)))"
proof (intro conjI)
  show "case find_route (main_engine C) (rq_method rq) (rq_path rq) of
      Some (rt, ps) \<Rightarrow> handle_request C rq g = Served (serve (rt_handlers rt) (new_ctx rq ps (rt_path rt), g))
    | None \<Rightarrow>
        if recommended (main_engine C) (rq_method rq) (rq_path rq)
        then handle_request C rq g = Redirected (if rq_method rq = ''GET'' then 301 else 307)
        else \<exists>ps. handle_request C rq g = Served (serve_not_found (main_handlers C) (new_ctx rq ps [], g))"
    using request_found [of C rq _ _ g] other_request [OF main_trees, of C rq g]
    unfolding handle_request_def main_engine_simps(1) by (auto split: option.split)
qed (simp add: main_engine_trees, rule main_engine_simps(2))

section \<open>The routes of a single user\<close>

text \<open>
  C8: \<^verbatim>\<open>GET /v1/users/:id\<close> shows a user to anybody: the endpoint runs before the authentication behind
  it, so whatever the request carries (no token, a forged one) the answer has status 200 and begins with
  the user; what the authentication finds wrong is only appended to the body.
\<close>

theorem get_user_is_public:
  assumes "cf_api C = userdb_store" "holds_users (wd_store (ap_world g)) us" "healthy (wd_store (ap_world g))"
    and "u \<in> set us" "rq_method rq = ''GET''" "rq_path rq = ''/v1/users/'' @ uuid_string (u_id u)"
  shows "\<exists>c h rest. handle_request C rq g = Served (Done (c, h)) \<and> gx_sent c = Some StatusOK \<and>
    gx_body c = app_user_json (to_app_user (cf_text C) u) # rest"
proof -
  have wf: "wf_uuid (u_id u)"
    using pg.rep_ok [OF assms(2)] assms(4) by (auto simp: users_ok_def list_all_iff typed_user_def)
  let ?s = "uuid_string (u_id u)"
  let ?hs = "[h_query_user_by_id C, mid_authenticate C]"
  let ?Q = "shows_user (to_app_user (cf_text C) u) (\<lambda>d. holds_users d us)"
  let ?x = "(new_ctx rq [(''id'', ?s)] ''/v1/users/:id'', g)"
  note route = find_user_route(1) [OF uuid_string_no_slash uuid_string_nonempty [OF wf], of C]
  have "\<exists>t. serve (main_handlers C @ ?hs) ?x = Done (write_header_now (fst t), snd t) \<and> ?Q t"
  proof (rule serve_main)
    fix t n
    assume t: "gx_index (fst t) = 4" "length ?hs < n" "view t = view ?x"
    show "settles C ?Q (next_loop n (main_handlers C @ ?hs) t)"
      using t(3) assms(2-4)
      by (intro pg.get_user_settles [OF assms(1) refl t(1,2)]) (simp_all add: view_def Let_def gin_param_def)
  qed (simp_all, erule shows_user_view)
  then obtain t where t: "serve (main_handlers C @ ?hs) ?x = Done (write_header_now (fst t), snd t)" "?Q t"
    by blast
  then have "gx_body (fst t) = app_user_json (to_app_user (cf_text C) u) # tl (gx_body (fst t))"
    by (cases "gx_body (fst t)") (simp_all add: shows_user_def)
  moreover have "handle_request C rq g = Served (Done (write_header_now (fst t), snd t))"
    using t(1) assms(5,6) route request_found [of C rq _ _ g] by simp
  ultimately show ?thesis
    using t(2) by (cases t) (auto simp: shows_user_def write_header_now_def)
qed

theorem get_user_is_public_witness:
  "\<exists>c h rest. handle_request sample_config (sample_request ''GET'' (''/v1/users/'' @ uuid_string (u_id ann)) (Ok JNull))
       (sample_app [ann]) = Served (Done (c, h)) \<and> gx_sent c = Some StatusOK \<and>
     gx_body c = app_user_json (to_app_user sample_text ann) # rest"
  using get_user_is_public [of sample_config "sample_app [ann]" "[ann]" ann
      "sample_request ''GET'' (''/v1/users/'' @ uuid_string (u_id ann)) (Ok JNull)"]
  by simp

text \<open>
  C7: No request to a route that changes or deletes a user does so. The endpoint runs before the
  authentication that would put the user into the context, finds none and records an error; no request
  changes the table, even that of an administrator with a valid token. And nobody is told: the answer is
  either the error of the authentication, or status 200 with an empty body.
\<close>

theorem changing_routes_do_nothing:
  assumes "cf_api C = userdb_store" "holds_users (wd_store (ap_world g)) us"
    and "rq_method rq \<in> {''DELETE'', ''PUT''}"
    and "find_route (main_engine C) (rq_method rq) (rq_path rq) \<noteq> None"
  shows "\<exists>c h. handle_request C rq g = Served (Done (c, h)) \<and> holds_users (wd_store (ap_world h)) us \<and>
    ((gx_sent c = Some StatusOK \<and> gx_body c = []) \<or>
     (gx_sent c \<in> {Some StatusUnauthorized, Some StatusInternalServerError} \<and> (\<exists>m. gx_body c = [gin_H m])))"
  using assms by (rule pg.changing_request)

theorem changing_routes_do_nothing_witness:
  "\<exists>c h. handle_request sample_config (sample_request ''DELETE'' (''/v1/users/'' @ uuid_string (u_id ann)) (Ok JNull))
       (sample_app [ann]) = Served (Done (c, h)) \<and> holds_users (wd_store (ap_world h)) [ann]"
proof -
  have wf: "wf_uuid (u_id ann)" using sample_typed(1) by (simp add: typed_user_def)
  show ?thesis
    using changing_routes_do_nothing [of sample_config "sample_app [ann]" "[ann]"
        "sample_request ''DELETE'' (''/v1/users/'' @ uuid_string (u_id ann)) (Ok JNull)"]
      find_user_route(2) [OF uuid_string_no_slash uuid_string_nonempty [OF wf], of sample_config]
    by auto
qed

end
